(* ===== verification/Raft_Prelude.thy ===== *)
theory Raft_Prelude
  imports Main "HOL-Library.Word"
begin

text \<open>
  The shared ground of the development: the machine types of
  \<^verbatim>\<open>utils/basic_types.hxx\<close>, the failures a C++ operation can end in, the result type and
  the state-and-exception type in which every operation of the program is written, and
  the two proof notions all components use for them: an invariant that an operation
  preserves, and a relation between the state before and after it. The rules for both are
  proved once here, the second kind inside a locale that asks the relation to be a
  preorder.
\<close>

section \<open>Machine types\<close>

text \<open>
  The typedefs of \<^verbatim>\<open>basic_types.hxx\<close>. Signed 32-bit values are words as well: \<open>+\<close> and
  \<open>-\<close> agree with two's complement, and the signed reading (\<open>sint\<close>) is written out where
  the code compares or divides them.
\<close>

type_synonym byte = "8 word"
type_synonym ushort = "16 word"
type_synonym uint = "32 word"
type_synonym int32 = "32 word"
type_synonym ulong = "64 word"
type_synonym time_point = "64 word"

text \<open>A \<^verbatim>\<open>std::string\<close> is the list of its bytes, and so is a \<^verbatim>\<open>std::vector<uint8_t>\<close>.\<close>

type_synonym cstring = "byte list"
type_synonym bytes = "byte list"

text \<open>The conversions the code performs implicitly.\<close>

definition int32_to_size :: "int32 \<Rightarrow> nat" where
  "int32_to_size v = unat (scast v :: 64 word)"

definition int32_to_ulong :: "int32 \<Rightarrow> ulong" where
  "int32_to_ulong v = scast v"

definition ulong_to_int32 :: "ulong \<Rightarrow> int32" where
  "ulong_to_int32 v = ucast v"

text \<open>The values a counter takes in \<^verbatim>\<open>for (ulong i = a; i < b; ++i)\<close>.\<close>

definition ulong_range :: "ulong \<Rightarrow> ulong \<Rightarrow> ulong list" where
  "ulong_range a b = map of_nat [unat a ..< unat b]"

section \<open>Failures and results\<close>

text \<open>
  How a call can end other than by returning. The first seven are the C++ exceptions the
  code throws: \<^verbatim>\<open>std::out_of_range\<close>, \<^verbatim>\<open>std::overflow_error\<close>, \<^verbatim>\<open>std::runtime_error\<close>,
  \<^verbatim>\<open>raft_exception\<close>, the other descendants of \<^verbatim>\<open>std::logic_error\<close> (an invalid argument, a length,
  a text that is not base64), \<^verbatim>\<open>OpenSSLException\<close>, and the call of an empty \<^verbatim>\<open>std::function\<close>; the
  others end the process or have no defined meaning: a failed \<^verbatim>\<open>assert\<close>, an operation the C++
  standard leaves undefined (a null pointer dereferenced, a read outside a block, a
  \<^verbatim>\<open>std::string\<close> built from a null pointer), and a loop that never ends.
\<close>

datatype error =
    Out_of_range
  | Overflow_error
  | Runtime_error
  | Raft_exception
  | Logic_error
  | OpenSSL_exception
  | Bad_function_call
  | Assertion_failed
  | Undefined_behaviour
  | Diverges

definition catchable :: "error \<Rightarrow> bool" where
  "catchable e = (e \<in> {Out_of_range, Overflow_error, Runtime_error, Raft_exception, Logic_error,
                        OpenSSL_exception, Bad_function_call})"

lemma catchable_simps [simp]:
  "catchable Out_of_range" "catchable Overflow_error" "catchable Runtime_error"
  "catchable Raft_exception" "catchable Logic_error" "catchable OpenSSL_exception"
  "catchable Bad_function_call" "\<not> catchable Assertion_failed" "\<not> catchable Undefined_behaviour"
  "\<not> catchable Diverges"
  by (simp_all add: catchable_def)

type_synonym 'a res = "error + 'a"

definition rbind :: "'a res \<Rightarrow> ('a \<Rightarrow> 'b res) \<Rightarrow> 'b res" where
  "rbind m f = (case m of Inl e \<Rightarrow> Inl e | Inr x \<Rightarrow> f x)"

lemma rbind_simps [simp]:
  "rbind (Inr x) f = f x"
  "rbind (Inl e) f = Inl e"
  by (simp_all add: rbind_def)

lemma rbind_eq_Inr_iff: "rbind m f = Inr y \<longleftrightarrow> (\<exists>x. m = Inr x \<and> f x = Inr y)"
  by (cases m) auto

lemma rbind_eq_Inl_iff: "rbind m f = Inl e \<longleftrightarrow> m = Inl e \<or> (\<exists>x. m = Inr x \<and> f x = Inl e)"
  by (cases m) auto

lemma rbind_assoc: "rbind (rbind m f) g = rbind m (\<lambda>x. rbind (f x) g)"
  by (cases m) simp_all

text \<open>A loop that stops at the first failure, collecting results or threading a value.\<close>

primrec mapR :: "('a \<Rightarrow> 'b res) \<Rightarrow> 'a list \<Rightarrow> 'b list res" where
  "mapR f [] = Inr []"
| "mapR f (x # xs) = rbind (f x) (\<lambda>y. rbind (mapR f xs) (\<lambda>ys. Inr (y # ys)))"

primrec foldR :: "('a \<Rightarrow> 'b \<Rightarrow> 'b res) \<Rightarrow> 'a list \<Rightarrow> 'b \<Rightarrow> 'b res" where
  "foldR f [] b = Inr b"
| "foldR f (x # xs) b = rbind (f x b) (foldR f xs)"

lemma mapR_Inr: "(\<And>x. x \<in> set xs \<Longrightarrow> f x = Inr (g x)) \<Longrightarrow> mapR f xs = Inr (map g xs)"
  by (induction xs) simp_all

section \<open>State and exceptions\<close>

text \<open>
  A stateful operation takes the state and gives a result together with the state it
  leaves: a C++ exception does not undo the assignments made before it, so the state is
  there in both cases.
\<close>

type_synonym ('s, 'a) sx = "'s \<Rightarrow> 'a res \<times> 's"

definition ret :: "'a \<Rightarrow> ('s, 'a) sx" where
  "ret x = (\<lambda>s. (Inr x, s))"

definition throwM :: "error \<Rightarrow> ('s, 'a) sx" where
  "throwM e = (\<lambda>s. (Inl e, s))"

definition bindM :: "('s, 'a) sx \<Rightarrow> ('a \<Rightarrow> ('s, 'b) sx) \<Rightarrow> ('s, 'b) sx" where
  "bindM m f = (\<lambda>s. case m s of (Inl e, t) \<Rightarrow> (Inl e, t) | (Inr x, t) \<Rightarrow> f x t)"

definition getM :: "('s \<Rightarrow> 'a) \<Rightarrow> ('s, 'a) sx" where
  "getM f = (\<lambda>s. (Inr (f s), s))"

definition modM :: "('s \<Rightarrow> 's) \<Rightarrow> ('s, unit) sx" where
  "modM f = (\<lambda>s. (Inr (), f s))"

definition liftR :: "'a res \<Rightarrow> ('s, 'a) sx" where
  "liftR r = (\<lambda>s. (r, s))"

definition whenM :: "bool \<Rightarrow> ('s, unit) sx \<Rightarrow> ('s, unit) sx" where
  "whenM b m = (if b then m else ret ())"

text \<open>A handler \<^verbatim>\<open>catch (...)\<close> or \<^verbatim>\<open>catch (std::exception &)\<close>: it sees exceptions only.\<close>

definition catchM :: "('s, 'a) sx \<Rightarrow> (error \<Rightarrow> ('s, 'a) sx) \<Rightarrow> ('s, 'a) sx" where
  "catchM m h = (\<lambda>s. case m s of (Inl e, t) \<Rightarrow> if catchable e then h e t else (Inl e, t)
                              | (Inr x, t) \<Rightarrow> (Inr x, t))"

primrec blockM :: "('s, unit) sx list \<Rightarrow> ('s, unit) sx" where
  "blockM [] = ret ()"
| "blockM (m # ms) = bindM m (\<lambda>_. blockM ms)"

primrec forM :: "'a list \<Rightarrow> ('a \<Rightarrow> ('s, unit) sx) \<Rightarrow> ('s, unit) sx" where
  "forM [] f = ret ()"
| "forM (x # xs) f = bindM (f x) (\<lambda>_. forM xs f)"

text \<open>An operation of a part run on the whole: \<open>get\<close> reads the part, \<open>put\<close> writes it back.\<close>

definition zoomM :: "('s \<Rightarrow> 'p) \<Rightarrow> ('p \<Rightarrow> 's \<Rightarrow> 's) \<Rightarrow> ('p, 'a) sx \<Rightarrow> ('s, 'a) sx" where
  "zoomM get put m = (\<lambda>s. case m (get s) of (r, p) \<Rightarrow> (r, put p s))"

named_theorems run_simps \<open>one step of execution\<close>

lemma run_ret [run_simps]: "ret x s = (Inr x, s)"
  by (simp add: ret_def)

lemma run_throwM [run_simps]: "throwM e s = (Inl e, s)"
  by (simp add: throwM_def)

lemma run_getM [run_simps]: "getM f s = (Inr (f s), s)"
  by (simp add: getM_def)

lemma run_modM [run_simps]: "modM f s = (Inr (), f s)"
  by (simp add: modM_def)

lemma run_liftR [run_simps]: "liftR r s = (r, s)"
  by (simp add: liftR_def)

lemma run_bindM [run_simps]:
  "bindM m f s = (case m s of (Inl e, t) \<Rightarrow> (Inl e, t) | (Inr x, t) \<Rightarrow> f x t)"
  by (simp add: bindM_def)

lemma run_whenM [run_simps]: "whenM b m s = (if b then m s else (Inr (), s))"
  by (simp add: whenM_def ret_def)

lemma run_catchM [run_simps]:
  "catchM m h s = (case m s of (Inl e, t) \<Rightarrow> if catchable e then h e t else (Inl e, t)
                             | (Inr x, t) \<Rightarrow> (Inr x, t))"
  by (simp add: catchM_def)

lemma run_zoomM [run_simps]: "zoomM get put m s = (case m (get s) of (r, p) \<Rightarrow> (r, put p s))"
  by (simp add: zoomM_def)

lemma run_if [run_simps]: "(if b then m else n) s = (if b then m s else n s)"
  by simp

declare blockM.simps [run_simps] forM.simps [run_simps]

text \<open>Steps that do not look inside the rest of the run.\<close>

lemma bind_steps:
  "bindM (ret x) g s = g x s"
  "bindM (getM f) g s = g (f s) s"
  "bindM (modM h) k s = k () (h s)"
  "bindM (throwM e) g s = (Inl e, s)"
  by (simp_all add: run_simps)

lemma bindM_run: "m s = (Inr x, t) \<Longrightarrow> bindM m f s = f x t"
  by (simp add: bindM_def)

lemma bindM_unit_ret [run_simps]: "bindM m (\<lambda>_. ret ()) = m"
  by (rule ext) (simp add: bindM_def ret_def split: prod.split sum.split)

lemma bindM_ret [run_simps]: "bindM m ret = m"
  by (rule ext) (simp add: bindM_def ret_def split: prod.split sum.split)

lemma run_case_ret [run_simps]:
  "(case p of (Inl e, t) \<Rightarrow> (Inl e, t) | (Inr x, t) \<Rightarrow> ret x t) = p"
  by (simp add: ret_def split: prod.split sum.split)

lemma bindM_assoc: "bindM (bindM m f) g = bindM m (\<lambda>x. bindM (f x) g)"
  by (rule ext) (simp add: bindM_def split: prod.split sum.split)

lemma blockM_append: "blockM (ms @ ns) = bindM (blockM ms) (\<lambda>_. blockM ns)"
  by (induction ms) (simp_all add: bindM_assoc, simp add: bindM_def ret_def)

lemma forM_append: "forM (xs @ ys) f = bindM (forM xs f) (\<lambda>_. forM ys f)"
  by (induction xs) (simp_all add: bindM_assoc, simp add: bindM_def ret_def)

lemma run_forM_modM: "forM xs (\<lambda>x. modM (f x)) s = (Inr (), fold f xs s)"
  by (induction xs arbitrary: s) (simp_all add: run_simps)

section \<open>Invariants of operations\<close>

text \<open>
  \<open>preserves I m\<close>: from a state in \<open>I\<close>, however \<open>m\<close> ends, the state it leaves is in \<open>I\<close>.
\<close>

definition preserves :: "('s \<Rightarrow> bool) \<Rightarrow> ('s, 'a) sx \<Rightarrow> bool" where
  "preserves I m \<longleftrightarrow> (\<forall>s. I s \<longrightarrow> I (snd (m s)))"

named_theorems preserves_intros \<open>rules for \<open>preserves\<close>\<close>

lemma preservesI: "(\<And>s. I s \<Longrightarrow> I (snd (m s))) \<Longrightarrow> preserves I m"
  by (simp add: preserves_def)

lemma preservesD: "preserves I m \<Longrightarrow> I s \<Longrightarrow> I (snd (m s))"
  by (simp add: preserves_def)

lemma preserves_run: "preserves I m \<Longrightarrow> I s \<Longrightarrow> m s = (r, t) \<Longrightarrow> I t"
  by (metis preserves_def snd_conv)

lemma preserves_ret [preserves_intros]: "preserves I (ret x)"
  by (simp add: preserves_def ret_def)

lemma preserves_throwM [preserves_intros]: "preserves I (throwM e)"
  by (simp add: preserves_def throwM_def)

lemma preserves_getM [preserves_intros]: "preserves I (getM f)"
  by (simp add: preserves_def getM_def)

lemma preserves_liftR [preserves_intros]: "preserves I (liftR r)"
  by (simp add: preserves_def liftR_def)

lemma preserves_modM: "(\<And>s. I s \<Longrightarrow> I (f s)) \<Longrightarrow> preserves I (modM f)"
  by (simp add: preserves_def modM_def)

lemma preserves_bindM [preserves_intros]:
  "preserves I m \<Longrightarrow> (\<And>x. preserves I (f x)) \<Longrightarrow> preserves I (bindM m f)"
  by (fastforce simp: preserves_def bindM_def split: prod.split sum.split dest: spec)

lemma preserves_catchM [preserves_intros]:
  "preserves I m \<Longrightarrow> (\<And>e. preserves I (h e)) \<Longrightarrow> preserves I (catchM m h)"
  by (fastforce simp: preserves_def catchM_def split: prod.split sum.split dest: spec)

lemma preserves_whenM [preserves_intros]: "preserves I m \<Longrightarrow> preserves I (whenM b m)"
  by (simp add: whenM_def preserves_ret)

lemma preserves_if [preserves_intros]:
  "(b \<Longrightarrow> preserves I m) \<Longrightarrow> (\<not> b \<Longrightarrow> preserves I n) \<Longrightarrow> preserves I (if b then m else n)"
  by simp

lemma preserves_option [preserves_intros]:
  "preserves I m \<Longrightarrow> (\<And>y. preserves I (f y)) \<Longrightarrow>
   preserves I (case x of None \<Rightarrow> m | Some y \<Rightarrow> f y)"
  by (cases x) simp_all

lemma preserves_blockM [preserves_intros]: "(\<And>m. m \<in> set ms \<Longrightarrow> preserves I m) \<Longrightarrow> preserves I (blockM ms)"
  by (induction ms) (simp_all add: preserves_ret preserves_bindM)

lemma preserves_forM [preserves_intros]:
  "(\<And>x. x \<in> set xs \<Longrightarrow> preserves I (f x)) \<Longrightarrow> preserves I (forM xs f)"
  by (induction xs) (simp_all add: preserves_ret preserves_bindM)

section \<open>Relations across an operation\<close>

text \<open>
  \<open>keeps R m\<close>: the states before and after \<open>m\<close> are related, however \<open>m\<close> ends. Such facts
  compose when \<open>R\<close> is reflexive and transitive, which is the contract of the locale
  below; each relation the components use (a field that never changes, an index that
  never falls, a vote that is never withdrawn) is an interpretation of it.
\<close>

definition keeps :: "('s \<Rightarrow> 's \<Rightarrow> bool) \<Rightarrow> ('s, 'a) sx \<Rightarrow> bool" where
  "keeps R m \<longleftrightarrow> (\<forall>s. R s (snd (m s)))"

lemma keepsI: "(\<And>s. R s (snd (m s))) \<Longrightarrow> keeps R m"
  by (simp add: keeps_def)

lemma keeps_run: "keeps R m \<Longrightarrow> m s = (r, t) \<Longrightarrow> R s t"
  by (metis keeps_def snd_conv)

lemma keeps_modM: "(\<And>s. R s (f s)) \<Longrightarrow> keeps R (modM f)"
  by (simp add: keeps_def modM_def)

locale step_order =
  fixes R :: "'s \<Rightarrow> 's \<Rightarrow> bool"
  assumes R_refl: "R s s"
    and R_trans: "R s t \<Longrightarrow> R t u \<Longrightarrow> R s u"
begin

lemma keeps_ret: "keeps R (ret x)"
  by (simp add: keeps_def ret_def R_refl)

lemma keeps_throwM: "keeps R (throwM e)"
  by (simp add: keeps_def throwM_def R_refl)

lemma keeps_getM: "keeps R (getM f)"
  by (simp add: keeps_def getM_def R_refl)

lemma keeps_liftR: "keeps R (liftR r)"
  by (simp add: keeps_def liftR_def R_refl)

lemma keeps_bindM: "keeps R m \<Longrightarrow> (\<And>x. keeps R (f x)) \<Longrightarrow> keeps R (bindM m f)"
  by (auto simp: keeps_def bindM_def split: prod.split sum.split) (metis snd_conv R_trans)+

lemma keeps_catchM: "keeps R m \<Longrightarrow> (\<And>e. keeps R (h e)) \<Longrightarrow> keeps R (catchM m h)"
  by (auto simp: keeps_def catchM_def split: prod.split sum.split) (metis snd_conv R_trans)+

lemma keeps_whenM: "keeps R m \<Longrightarrow> keeps R (whenM b m)"
  by (simp add: whenM_def keeps_ret)

lemma keeps_if: "(b \<Longrightarrow> keeps R m) \<Longrightarrow> (\<not> b \<Longrightarrow> keeps R n) \<Longrightarrow> keeps R (if b then m else n)"
  by simp

lemma keeps_option:
  "keeps R m \<Longrightarrow> (\<And>y. keeps R (f y)) \<Longrightarrow> keeps R (case x of None \<Rightarrow> m | Some y \<Rightarrow> f y)"
  by (cases x) simp_all

lemma keeps_blockM: "(\<And>m. m \<in> set ms \<Longrightarrow> keeps R m) \<Longrightarrow> keeps R (blockM ms)"
  by (induction ms) (simp_all add: keeps_ret keeps_bindM)

lemma keeps_forM: "(\<And>x. x \<in> set xs \<Longrightarrow> keeps R (f x)) \<Longrightarrow> keeps R (forM xs f)"
  by (induction xs) (simp_all add: keeps_ret keeps_bindM)

lemma keeps_prod: "(\<And>x y. keeps R (f x y)) \<Longrightarrow> keeps R (case p of (x, y) \<Rightarrow> f x y)"
  by (cases p) simp

lemma keeps_list:
  "keeps R m \<Longrightarrow> (\<And>y ys. keeps R (f y ys)) \<Longrightarrow> keeps R (case xs of [] \<Rightarrow> m | y # ys \<Rightarrow> f y ys)"
  by (cases xs) simp_all

lemma keeps_zoomM: "(\<And>p s. R s (put p s)) \<Longrightarrow> keeps R (zoomM get put m)"
  by (simp add: keeps_def zoomM_def split: prod.split)

lemmas keeps_intros =
  keeps_ret keeps_throwM keeps_getM keeps_liftR keeps_bindM keeps_catchM keeps_whenM
  keeps_if keeps_option keeps_prod keeps_list keeps_blockM keeps_forM

end

text \<open>A component of the state that an operation leaves alone.\<close>

abbreviation same :: "('s \<Rightarrow> 'b) \<Rightarrow> 's \<Rightarrow> 's \<Rightarrow> bool" where
  "same f s t \<equiv> f t = f s"

interpretation unchanged: step_order "same f" for f
  by unfold_locales simp_all

lemma same_tail: "(\<And>x. keeps (same f) (g x)) \<Longrightarrow> f (snd (bindM m g s)) = f (snd (m s))"
  by (auto simp: keeps_def bindM_def split: prod.split sum.split)

lemma sameD: "keeps (same f) m \<Longrightarrow> f (snd (m s)) = f s"
  by (simp add: keeps_def)

section \<open>Operations that return\<close>

text \<open>
  \<open>nothrow m\<close>: \<open>m\<close> always returns. \<open>results P m\<close>: whenever \<open>m\<close> returns, its value is in \<open>P\<close>.
\<close>

definition nothrow :: "('s, 'a) sx \<Rightarrow> bool" where
  "nothrow m \<longleftrightarrow> (\<forall>s. \<exists>x. fst (m s) = Inr x)"

definition results :: "('a \<Rightarrow> bool) \<Rightarrow> ('s, 'a) sx \<Rightarrow> bool" where
  "results P m \<longleftrightarrow> (\<forall>s x. fst (m s) = Inr x \<longrightarrow> P x)"

named_theorems nothrow_intros \<open>rules for \<open>nothrow\<close>\<close>
named_theorems results_intros \<open>rules for \<open>results\<close>\<close>

lemma nothrowE:
  assumes "nothrow m"
  obtains x t where "m s = (Inr x, t)"
  using assms unfolding nothrow_def by (metis prod.collapse)

lemma nothrow_ret [nothrow_intros]: "nothrow (ret x)"
  by (simp add: nothrow_def ret_def)

lemma nothrow_getM [nothrow_intros]: "nothrow (getM f)"
  by (simp add: nothrow_def getM_def)

lemma nothrow_modM [nothrow_intros]: "nothrow (modM f)"
  by (simp add: nothrow_def modM_def)

lemma nothrow_bindM [nothrow_intros]: "nothrow m \<Longrightarrow> (\<And>x. nothrow (f x)) \<Longrightarrow> nothrow (bindM m f)"
  unfolding nothrow_def bindM_def
proof (intro allI)
  fix s
  assume m: "\<forall>s. \<exists>x. fst (m s) = Inr x" and f: "\<And>x. \<forall>s. \<exists>y. fst (f x s) = Inr y"
  from m obtain x where "fst (m s) = Inr x" by blast
  with f [of x] show "\<exists>y. fst (case m s of (Inl e, t) \<Rightarrow> (Inl e, t) | (Inr x, t) \<Rightarrow> f x t) = Inr y"
    by (cases "m s") auto
qed

lemma nothrow_whenM [nothrow_intros]: "nothrow m \<Longrightarrow> nothrow (whenM b m)"
  by (simp add: whenM_def nothrow_ret)

lemma nothrow_if [nothrow_intros]: "nothrow m \<Longrightarrow> nothrow n \<Longrightarrow> nothrow (if b then m else n)"
  by simp

lemma nothrow_forM [nothrow_intros]: "(\<And>x. nothrow (f x)) \<Longrightarrow> nothrow (forM xs f)"
  by (induction xs) (simp_all add: nothrow_ret nothrow_bindM)

lemma nothrow_zoomM [nothrow_intros]: "nothrow m \<Longrightarrow> nothrow (zoomM get put m)"
  by (auto simp: nothrow_def zoomM_def split: prod.split) (metis fst_conv)

lemma snd_bindM_nothrow:
  "nothrow m \<Longrightarrow> \<exists>x. m s = (Inr x, snd (m s)) \<and> snd (bindM m f s) = snd (f x (snd (m s)))"
proof -
  assume "nothrow m"
  then obtain x t where "m s = (Inr x, t)" by (rule nothrowE)
  then show ?thesis by (simp add: bindM_def)
qed

lemma results_ret [results_intros]: "P x \<Longrightarrow> results P (ret x)"
  by (simp add: results_def ret_def)

lemma results_throwM [results_intros]: "results P (throwM e)"
  by (simp add: results_def throwM_def)

lemma results_getM [results_intros]: "(\<And>s. P (f s)) \<Longrightarrow> results P (getM f)"
  by (simp add: results_def getM_def)

lemma results_if [results_intros]: "(b \<Longrightarrow> results P m) \<Longrightarrow> (\<not> b \<Longrightarrow> results P n) \<Longrightarrow> results P (if b then m else n)"
  by simp

lemma results_bindM_all [results_intros]: "(\<And>x. results P (f x)) \<Longrightarrow> results P (bindM m f)"
  by (auto simp: results_def bindM_def split: prod.splits sum.splits)

lemma results_bindM: "results Q m \<Longrightarrow> (\<And>x. Q x \<Longrightarrow> results P (f x)) \<Longrightarrow> results P (bindM m f)"
  by (auto simp: results_def bindM_def split: prod.splits sum.splits) (metis fst_conv)

lemma results_option [results_intros]:
  "results P m \<Longrightarrow> (\<And>y. results P (f y)) \<Longrightarrow> results P (case x of None \<Rightarrow> m | Some y \<Rightarrow> f y)"
  by (cases x) simp_all

lemma results_prod [results_intros]: "(\<And>x y. results P (f x y)) \<Longrightarrow> results P (case p of (x, y) \<Rightarrow> f x y)"
  by (cases p) simp

lemma results_list [results_intros]:
  "results P m \<Longrightarrow> (\<And>y ys. results P (f y ys)) \<Longrightarrow> results P (case xs of [] \<Rightarrow> m | y # ys \<Rightarrow> f y ys)"
  by (cases xs) simp_all

lemma resultsD: "results P m \<Longrightarrow> m s = (Inr x, t) \<Longrightarrow> P x"
  by (metis results_def fst_conv)

section \<open>Generic lemmas\<close>

lemma length_ulong_range [simp]: "length (ulong_range a b) = unat b - unat a"
  by (simp add: ulong_range_def)

lemma ulong_range_empty [simp]: "b \<le> a \<Longrightarrow> ulong_range a b = []"
  by (simp add: ulong_range_def word_le_nat_alt)

lemma unat_of_nat_bound: "n \<le> unat (w :: 'a::len word) \<Longrightarrow> unat (of_nat n :: 'a word) = n"
  by (meson le_unat_uoi)

lemma set_ulong_range: "set (ulong_range a b) = {i. a \<le> i \<and> i < b}"
proof (intro equalityI subsetI)
  fix i assume "i \<in> set (ulong_range a b)"
  then obtain n where n: "i = of_nat n" "unat a \<le> n" "n < unat b"
    by (auto simp: ulong_range_def)
  then have "unat i = n"
    using unat_of_nat_bound [of n b] by simp
  with n show "i \<in> {i. a \<le> i \<and> i < b}"
    by (simp add: word_le_nat_alt word_less_nat_alt)
next
  fix i assume "i \<in> {i. a \<le> i \<and> i < b}"
  then have "unat i \<in> {unat a ..< unat b}" and "i = of_nat (unat i)"
    by (simp_all add: word_le_nat_alt word_less_nat_alt)
  then show "i \<in> set (ulong_range a b)"
    unfolding ulong_range_def by (metis (no_types) image_eqI set_map set_upt)
qed

lemma unat_Suc_less: "a < (b :: 'a::len word) \<Longrightarrow> unat (a + 1) = Suc (unat a)"
proof -
  assume "a < b"
  then have "Suc (unat a) \<le> unat b"
    by (simp add: word_less_nat_alt)
  then have "unat (of_nat (Suc (unat a)) :: 'a word) = Suc (unat a)"
    by (rule unat_of_nat_bound)
  then show ?thesis by (simp add: add.commute)
qed

lemma ulong_range_Cons: "a < b \<Longrightarrow> ulong_range a b = a # ulong_range (a + 1) b"
  by (simp add: ulong_range_def unat_Suc_less upt_conv_Cons word_less_nat_alt)

lemma sint_of_nat_int32: "n < 2 ^ 31 \<Longrightarrow> sint (of_nat n :: int32) = int n"
  by (simp add: signed_of_nat signed_take_bit_int_eq_self)

lemma int32_to_size_of_nat: "n < 2 ^ 31 \<Longrightarrow> int32_to_size (of_nat n) = n"
proof -
  assume n: "n < 2 ^ 31"
  have "(scast (of_nat n :: int32) :: 64 word) = of_int (sint (of_nat n :: int32))"
    by simp
  also have "\<dots> = of_int (int n)"
    using n by (simp only: sint_of_nat_int32)
  also have "\<dots> = of_nat n"
    by simp
  finally have "int32_to_size (of_nat n) = unat (of_nat n :: 64 word)"
    by (simp only: int32_to_size_def)
  moreover have "n \<le> unat (0x80000000 :: 64 word)"
    using n by simp
  ultimately show ?thesis
    by (simp only: unat_of_nat_bound)
qed

lemma int32_to_ulong_of_nat: "n < 0x80000000 \<Longrightarrow> int32_to_ulong (of_nat n) = of_nat n"
  using sint_of_nat_int32 [of n] by (simp only: int32_to_ulong_def scast_eq of_int_of_nat_eq) simp

end
