(* ===== verification/Buffer.thy ===== *)
theory Buffer
  imports Raft_Prelude
begin

text \<open>
  The byte buffer of \<^verbatim>\<open>raft/src/buffer.cxx\<close>: a block of bytes of fixed size with a read and
  write position. Every message, log entry and configuration the program stores or sends
  goes through it. The operations are total functions into the result type: the overflow
  checks of the code are its exceptions, and the one operation the code leaves unchecked,
  \<^verbatim>\<open>buffer::get(bufptr&)\<close>, is undefined where it reads past the block. The interface the
  serializers rely on is the locale \<open>codec\<close>: a decoder that, at the position where an
  encoding starts, returns the value and moves past it.
\<close>

section \<open>The operations\<close>

text \<open>
  The bytes of the block and the position, as \<^verbatim>\<open>size()\<close>, \<^verbatim>\<open>pos()\<close> and \<^verbatim>\<open>data()\<close> read them.
\<close>

record buffer =
  bdata :: bytes
  bpos :: nat

definition bsize :: "buffer \<Rightarrow> nat" where
  "bsize b = length (bdata b)"

text \<open>The bytes from the position on: what the pointer \<^verbatim>\<open>data()\<close> gives access to.\<close>

definition brest :: "buffer \<Rightarrow> bytes" where
  "brest b = drop (bpos b) (bdata b)"

definition advance :: "nat \<Rightarrow> buffer \<Rightarrow> buffer" where
  "advance n b = b\<lparr>bpos := bpos b + n\<rparr>"

text \<open>
  \<^verbatim>\<open>new char[]\<close> leaves the bytes of a new block unspecified; they are zero here. Every
  serializer below writes the whole block before it is read.
\<close>

definition alloc :: "nat \<Rightarrow> buffer res" where
  "alloc sz = (if sz \<ge> 0x80000000 then Inl Out_of_range
               else Inr \<lparr>bdata = replicate sz 0, bpos = 0\<rparr>)"

definition set_pos :: "nat \<Rightarrow> buffer \<Rightarrow> buffer" where
  "set_pos p b = b\<lparr>bpos := (if p > bsize b then bsize b else p)\<rparr>"

definition write_bytes :: "bytes \<Rightarrow> buffer \<Rightarrow> buffer" where
  "write_bytes bs b =
     b\<lparr>bdata := take (bpos b) (bdata b) @ bs @ drop (bpos b + length bs) (bdata b)\<rparr>"

text \<open>The loops \<^verbatim>\<open>*(d + i) = (byte) (val >> (i * 8))\<close> and \<^verbatim>\<open>val += byte_val << (i * 8)\<close>.\<close>

definition int_bytes :: "int32 \<Rightarrow> bytes" where
  "int_bytes v = map (\<lambda>i. ucast (signed_drop_bit (i * 8) v)) [0..<4]"

definition ulong_bytes :: "ulong \<Rightarrow> bytes" where
  "ulong_bytes v = map (\<lambda>i. ucast (drop_bit (i * 8) v)) [0..<8]"

definition int_of_bytes :: "bytes \<Rightarrow> int32" where
  "int_of_bytes d = foldl (\<lambda>v i. v + push_bit (i * 8) (ucast (d ! i))) 0 [0..<4]"

definition ulong_of_bytes :: "bytes \<Rightarrow> ulong" where
  "ulong_of_bytes d = foldl (\<lambda>v i. v + push_bit (i * 8) (ucast (d ! i))) 0 [0..<8]"

definition get_int :: "buffer \<Rightarrow> (int32 \<times> buffer) res" where
  "get_int b = (if bsize b - bpos b < 4 then Inl Overflow_error
                else Inr (int_of_bytes (brest b), advance 4 b))"

definition get_ulong :: "buffer \<Rightarrow> (ulong \<times> buffer) res" where
  "get_ulong b = (if bsize b - bpos b < 8 then Inl Overflow_error
                  else Inr (ulong_of_bytes (brest b), advance 8 b))"

definition get_byte :: "buffer \<Rightarrow> (byte \<times> buffer) res" where
  "get_byte b = (if bsize b - bpos b < 1 then Inl Overflow_error
                 else Inr (brest b ! 0, advance 1 b))"

text \<open>
  \<^verbatim>\<open>get_str\<close> looks for the terminating zero; without one, or with an empty string in front of
  it, the code returns a null pointer and leaves the position.
\<close>

definition get_str :: "buffer \<Rightarrow> cstring option \<times> buffer" where
  "get_str b =
     (let i = length (takeWhile (\<lambda>c. c \<noteq> 0) (brest b))
      in if bpos b + i \<ge> bsize b \<or> i = 0 then (None, b)
         else (Some (take i (brest b)), advance (i + 1) b))"

text \<open>A \<^verbatim>\<open>std::string\<close> from the pointer: a null pointer has no defined meaning.\<close>

definition get_string :: "buffer \<Rightarrow> (cstring \<times> buffer) res" where
  "get_string b = (case get_str b of (None, _) \<Rightarrow> Inl Undefined_behaviour
                                   | (Some s, b') \<Rightarrow> Inr (s, b'))"

definition put_bytes :: "bytes \<Rightarrow> buffer \<Rightarrow> buffer res" where
  "put_bytes bs b = (if bsize b - bpos b < length bs then Inl Overflow_error
                     else Inr (advance (length bs) (write_bytes bs b)))"

definition put_byte :: "byte \<Rightarrow> buffer \<Rightarrow> buffer res" where
  "put_byte c = put_bytes [c]"

definition put_int :: "int32 \<Rightarrow> buffer \<Rightarrow> buffer res" where
  "put_int v = put_bytes (int_bytes v)"

definition put_ulong :: "ulong \<Rightarrow> buffer \<Rightarrow> buffer res" where
  "put_ulong v = put_bytes (ulong_bytes v)"

definition put_str :: "cstring \<Rightarrow> buffer \<Rightarrow> buffer res" where
  "put_str s = put_bytes (s @ [0])"

definition put_buf :: "buffer \<Rightarrow> buffer \<Rightarrow> buffer res" where
  "put_buf src = put_bytes (brest src)"

text \<open>
  \<^verbatim>\<open>src->get(dst)\<close> fills \<open>dst\<close> from its position to its end and moves \<open>src\<close>; \<^verbatim>\<open>memcpy\<close> reads
  \<open>src\<close> without a check of what is left there.
\<close>

definition get_into :: "buffer \<Rightarrow> buffer \<Rightarrow> (buffer \<times> buffer) res" where
  "get_into dst src =
     (let sz = bsize dst - bpos dst
      in if bsize src - bpos src < sz then Inl Undefined_behaviour
         else Inr (write_bytes (take sz (brest src)) dst, advance sz src))"

definition copy :: "buffer \<Rightarrow> buffer res" where
  "copy b = rbind (alloc (bsize b - bpos b)) (\<lambda>other.
            rbind (put_buf b other) (\<lambda>other.
            Inr (set_pos 0 other)))"

text \<open>The buffers the program builds: the position is inside a block of admissible size.\<close>

definition buf_ok :: "buffer \<Rightarrow> bool" where
  "buf_ok b \<longleftrightarrow> bpos b \<le> bsize b \<and> bsize b < 0x80000000"

text \<open>A block holding \<open>bs\<close> with the position at its start.\<close>

definition fresh_buf :: "bytes \<Rightarrow> buffer" where
  "fresh_buf bs = \<lparr>bdata = bs, bpos = 0\<rparr>"

section \<open>Little-endian numbers\<close>

lemma ucast_byte_take_bit:
  assumes "8 \<le> LENGTH('a::len)"
  shows "(ucast (ucast (x :: 'a word) :: byte) :: 'a word) = take_bit 8 x"
  using assms by (auto intro!: bit_word_eqI simp: bit_simps)

lemma le_fold:
  assumes "8 \<le> LENGTH('a::len)"
  shows "foldl (\<lambda>v i. v + push_bit (i * 8) (ucast (ucast (drop_bit (i * 8) w) :: byte))) 0 [0..<n]
         = take_bit (n * 8) (w :: 'a word)"
proof (induction n)
  case 0
  show ?case by simp
next
  case (Suc n)
  have "push_bit (n * 8) (drop_bit (n * 8) (take_bit (n * 8 + 8) w)) + take_bit (n * 8) (take_bit (n * 8 + 8) w)
        = take_bit (n * 8 + 8) w"
    by (rule bits_ident)
  moreover have "drop_bit (n * 8) (take_bit (n * 8 + 8) w) = take_bit 8 (drop_bit (n * 8) w)"
    by (simp add: drop_bit_take_bit)
  moreover have "take_bit (n * 8) (take_bit (n * 8 + 8) w) = take_bit (n * 8) w"
    by (simp add: min_def)
  ultimately show ?case
    using Suc by (simp add: ucast_byte_take_bit [OF assms] add.commute)
qed

lemma ucast_signed_drop_bit:
  "n + 8 \<le> 32 \<Longrightarrow> (ucast (signed_drop_bit n (v :: int32)) :: byte) = ucast (drop_bit n v)"
  by (rule bit_word_eqI) (auto simp: bit_simps)

lemma length_int_bytes [simp]: "length (int_bytes v) = 4"
  by (simp add: int_bytes_def)

lemma length_ulong_bytes [simp]: "length (ulong_bytes v) = 8"
  by (simp add: ulong_bytes_def)

lemma int_of_bytes_append: "length d = 4 \<Longrightarrow> int_of_bytes (d @ e) = int_of_bytes d"
  by (simp add: int_of_bytes_def nth_append upt_conv_Cons)

lemma ulong_of_bytes_append: "length d = 8 \<Longrightarrow> ulong_of_bytes (d @ e) = ulong_of_bytes d"
  by (simp add: ulong_of_bytes_def nth_append upt_conv_Cons)

lemma foldl_cong_set: "(\<And>a x. x \<in> set xs \<Longrightarrow> f a x = g a x) \<Longrightarrow> foldl f z xs = foldl g z xs"
  by (induction xs arbitrary: z) auto

lemma int_of_int_bytes [simp]: "int_of_bytes (int_bytes v) = v"
proof -
  have "int_of_bytes (int_bytes v) =
        foldl (\<lambda>a i. a + push_bit (i * 8) (ucast (ucast (drop_bit (i * 8) v) :: byte))) 0 [0..<4]"
    unfolding int_of_bytes_def int_bytes_def
    by (rule foldl_cong_set) (auto simp: ucast_signed_drop_bit)
  also have "\<dots> = take_bit (4 * 8) v"
    by (rule le_fold) simp
  finally show ?thesis by (simp add: take_bit_word_eq_self)
qed

text \<open>The other way round: four bytes are the bytes of the number they give.\<close>

lemma byte_bit: "8 \<le> n \<Longrightarrow> \<not> bit (x :: byte) n"
  using bit_imp_le_length [of x n] by auto

lemma bytes_of_int:
  fixes a b c d :: byte
  shows "int_bytes (int_of_bytes [a, b, c, d]) = [a, b, c, d]"
proof -
  have add: "(x :: int32) + y = or x y" if "and x y = 0" for x y
    using that by (rule disjunctive_add_eq_or)
  have v: "int_of_bytes [a, b, c, d] =
      or (or (or (ucast a) (push_bit 8 (ucast b))) (push_bit 16 (ucast c))) (push_bit 24 (ucast d))"
  proof -
    have "(ucast a :: int32) + push_bit 8 (ucast b) = or (ucast a) (push_bit 8 (ucast b))"
      by (rule add) (auto intro!: bit_word_eqI simp: bit_simps byte_bit)
    moreover have "or (ucast a) (push_bit 8 (ucast b)) + (push_bit 16 (ucast c) :: int32) =
        or (or (ucast a) (push_bit 8 (ucast b))) (push_bit 16 (ucast c))"
      by (rule add) (auto intro!: bit_word_eqI simp: bit_simps byte_bit)
    moreover have "or (or (ucast a) (push_bit 8 (ucast b))) (push_bit 16 (ucast c)) + (push_bit 24 (ucast d) :: int32) =
        or (or (or (ucast a) (push_bit 8 (ucast b))) (push_bit 16 (ucast c))) (push_bit 24 (ucast d))"
      by (rule add) (auto intro!: bit_word_eqI simp: bit_simps byte_bit)
    ultimately show ?thesis by (simp add: int_of_bytes_def upt_rec)
  qed
  show ?thesis
    by (simp add: v int_bytes_def upt_rec ucast_signed_drop_bit, intro conjI bit_word_eqI) (auto simp: bit_simps byte_bit)
qed

lemma int_bytes_drop: "length buf \<ge> 4 \<Longrightarrow> int_bytes (int_of_bytes buf) @ drop 4 buf = buf"
  using bytes_of_int int_of_bytes_append [of "take 4 buf" "drop 4 buf"]
  by (auto simp: Suc_le_length_iff numeral_eq_Suc)

lemma ulong_of_ulong_bytes [simp]: "ulong_of_bytes (ulong_bytes v) = v"
proof -
  have "ulong_of_bytes (ulong_bytes v) =
        foldl (\<lambda>a i. a + push_bit (i * 8) (ucast (ucast (drop_bit (i * 8) v) :: byte))) 0 [0..<8]"
    unfolding ulong_of_bytes_def ulong_bytes_def
    by (rule foldl_cong_set) auto
  also have "\<dots> = take_bit (8 * 8) v"
    by (rule le_fold) simp
  finally show ?thesis by (simp add: take_bit_word_eq_self)
qed

section \<open>Buffers as a written part and a rest\<close>

text \<open>
  A well-formed buffer is the bytes before its position and the bytes from there on. In
  this form each operation is one rewrite rule.
\<close>

definition cursor :: "bytes \<Rightarrow> bytes \<Rightarrow> buffer" where
  "cursor pre rest = \<lparr>bdata = pre @ rest, bpos = length pre\<rparr>"

named_theorems cursor_simps \<open>buffer operations on a written part and a rest\<close>

lemma cursor_bsize [simp]: "bsize (cursor pre rest) = length pre + length rest"
  by (simp add: cursor_def bsize_def)

lemma cursor_bpos [simp]: "bpos (cursor pre rest) = length pre"
  by (simp add: cursor_def)

lemma cursor_bdata [simp]: "bdata (cursor pre rest) = pre @ rest"
  by (simp add: cursor_def)

lemma cursor_brest [simp]: "brest (cursor pre rest) = rest"
  by (simp add: cursor_def brest_def)

lemma cursor_ex: "bpos b \<le> bsize b \<Longrightarrow> b = cursor (take (bpos b) (bdata b)) (brest b)"
  by (simp add: cursor_def bsize_def brest_def)

lemma fresh_cursor: "fresh_buf bs = cursor [] bs"
  by (simp add: fresh_buf_def cursor_def)

lemma fresh_buf_simps [simp]:
  "bdata (fresh_buf bs) = bs" "bpos (fresh_buf bs) = 0" "bsize (fresh_buf bs) = length bs"
  "brest (fresh_buf bs) = bs"
  by (simp_all add: fresh_buf_def bsize_def brest_def)

lemma advance_cursor [cursor_simps]:
  "n = length bs \<Longrightarrow> advance n (cursor pre (bs @ rest)) = cursor (pre @ bs) rest"
  by (simp add: advance_def cursor_def)

lemma alloc_cursor [cursor_simps]:
  "alloc n = (if n < 0x80000000 then Inr (cursor [] (replicate n 0)) else Inl Out_of_range)"
  by (simp add: alloc_def cursor_def)

lemma put_bytes_cursor [cursor_simps]:
  "put_bytes bs (cursor pre rest) =
     (if length rest < length bs then Inl Overflow_error
      else Inr (cursor (pre @ bs) (drop (length bs) rest)))"
  by (simp add: put_bytes_def write_bytes_def advance_def cursor_def bsize_def)

lemmas put_defs [cursor_simps] = put_byte_def put_int_def put_ulong_def put_str_def put_buf_def

lemma set_pos_0 [cursor_simps]: "set_pos 0 b = fresh_buf (bdata b)"
  by (simp add: set_pos_def fresh_buf_def)

lemma get_byte_cursor [cursor_simps]:
  "get_byte (cursor pre (c # rest)) = Inr (c, cursor (pre @ [c]) rest)"
  using advance_cursor [of 1 "[c]" pre rest] by (simp add: get_byte_def)

lemma get_byte_empty [cursor_simps]: "get_byte (cursor pre []) = Inl Overflow_error"
  by (simp add: get_byte_def)

lemma get_int_cursor [cursor_simps]:
  "get_int (cursor pre (int_bytes v @ rest)) = Inr (v, cursor (pre @ int_bytes v) rest)"
  by (simp add: get_int_def int_of_bytes_append advance_cursor)

lemma get_ulong_cursor [cursor_simps]:
  "get_ulong (cursor pre (ulong_bytes v @ rest)) = Inr (v, cursor (pre @ ulong_bytes v) rest)"
  by (simp add: get_ulong_def ulong_of_bytes_append advance_cursor)

lemma get_int_cursor_end [cursor_simps]:
  "get_int (cursor pre (int_bytes v)) = Inr (v, cursor (pre @ int_bytes v) [])"
  using get_int_cursor [of pre v "[]"] by simp

lemma get_ulong_cursor_end [cursor_simps]:
  "get_ulong (cursor pre (ulong_bytes v)) = Inr (v, cursor (pre @ ulong_bytes v) [])"
  using get_ulong_cursor [of pre v "[]"] by simp

lemma get_int_short: "length rest < 4 \<Longrightarrow> get_int (cursor pre rest) = Inl Overflow_error"
  by (simp add: get_int_def)

lemma get_ulong_short: "length rest < 8 \<Longrightarrow> get_ulong (cursor pre rest) = Inl Overflow_error"
  by (simp add: get_ulong_def)

text \<open>Strings survive exactly when they are not empty and hold no zero byte.\<close>

definition str_ok :: "cstring \<Rightarrow> bool" where
  "str_ok s \<longleftrightarrow> s \<noteq> [] \<and> 0 \<notin> set s"

lemma takeWhile_str: "0 \<notin> set s \<Longrightarrow> takeWhile (\<lambda>c. c \<noteq> (0::byte)) (s @ 0 # rest) = s"
  by (subst takeWhile_append2) auto

lemma get_str_cursor:
  "str_ok s \<Longrightarrow> get_str (cursor pre (s @ 0 # rest)) = (Some s, cursor (pre @ s @ [0]) rest)"
  using advance_cursor [of "length s + 1" "s @ [0]" pre rest]
  by (simp add: get_str_def str_ok_def takeWhile_str Let_def)

lemma get_str_empty: "get_str (cursor pre (0 # rest)) = (None, cursor pre (0 # rest))"
  by (simp add: get_str_def)

lemma get_string_cursor [cursor_simps]:
  "str_ok s \<Longrightarrow> get_string (cursor pre (s @ 0 # rest)) = Inr (s, cursor (pre @ s @ [0]) rest)"
  by (simp add: get_string_def get_str_cursor)

lemma get_into_cursor [cursor_simps]:
  "n = length bs \<Longrightarrow>
   get_into (cursor [] (replicate n 0)) (cursor pre (bs @ rest)) =
     Inr (fresh_buf bs, cursor (pre @ bs) rest)"
  by (simp add: get_into_def Let_def write_bytes_def advance_cursor)

lemma get_into_short:
  "bsize src - bpos src < bsize dst - bpos dst \<Longrightarrow> get_into dst src = Inl Undefined_behaviour"
  by (simp add: get_into_def)

lemma copy_cursor [cursor_simps]:
  "length rest < 0x80000000 \<Longrightarrow> copy (cursor pre rest) = Inr (fresh_buf rest)"
  by (simp add: copy_def cursor_simps)

lemma copy_buf: "buf_ok b \<Longrightarrow> copy b = Inr (fresh_buf (brest b))"
  by (auto simp: copy_def buf_ok_def cursor_simps brest_def bsize_def)

text \<open>A series of blocks put one after the other.\<close>

lemma foldR_put_buf [cursor_simps]:
  "foldR put_buf bs (cursor pre rest) =
     (if length rest < length (concat (map brest bs)) then Inl Overflow_error
      else Inr (cursor (pre @ concat (map brest bs)) (drop (length (concat (map brest bs))) rest)))"
proof (induction bs arbitrary: pre rest)
  case Nil
  show ?case by simp
next
  case (Cons b bs)
  then show ?case
    by (auto simp: put_bytes_cursor put_buf_def add.commute)
qed

section \<open>The interface of the serializers\<close>

text \<open>
  What a serializer promises: decoding at a position where an encoding starts gives the
  value and moves exactly past the encoding, whatever stands before and after. From this
  contract alone: encodings are injective and prefix free, and a sequence of encoded
  values is decoded by repeating the decoder.
\<close>

fun get_many :: "(buffer \<Rightarrow> ('a \<times> buffer) res) \<Rightarrow> nat \<Rightarrow> buffer \<Rightarrow> ('a list \<times> buffer) res" where
  "get_many dec 0 b = Inr ([], b)"
| "get_many dec (Suc n) b =
     rbind (dec b) (\<lambda>(x, b'). rbind (get_many dec n b') (\<lambda>(xs, b''). Inr (x # xs, b'')))"

locale codec =
  fixes enc :: "'a \<Rightarrow> bytes"
    and dec :: "buffer \<Rightarrow> ('a \<times> buffer) res"
    and ok :: "'a \<Rightarrow> bool"
  assumes dec_enc: "ok x \<Longrightarrow> dec (cursor pre (enc x @ rest)) = Inr (x, cursor (pre @ enc x) rest)"
begin

lemma dec_fresh: "ok x \<Longrightarrow> dec (fresh_buf (enc x)) = Inr (x, cursor (enc x) [])"
  using dec_enc [of x "[]" "[]"] by (simp add: fresh_cursor)

lemma enc_prefix_free:
  assumes "ok x" "ok y" "enc x @ r = enc y @ r'"
  shows "x = y \<and> r = r'"
proof -
  have "dec (cursor [] (enc x @ r)) = Inr (x, cursor (enc x) r)"
    using dec_enc [OF assms(1), of "[]" r] by simp
  moreover have "dec (cursor [] (enc x @ r)) = Inr (y, cursor (enc y) r')"
    using dec_enc [OF assms(2), of "[]" r'] assms(3) by simp
  ultimately have "x = y" by simp
  with assms(3) show ?thesis by simp
qed

lemma dec_many:
  "list_all ok xs \<Longrightarrow>
   get_many dec (length xs) (cursor pre (concat (map enc xs) @ rest)) =
     Inr (xs, cursor (pre @ concat (map enc xs)) rest)"
proof (induction xs arbitrary: pre)
  case Nil
  show ?case by simp
next
  case (Cons x xs)
  have "dec (cursor pre (concat (map enc (x # xs)) @ rest)) =
        Inr (x, cursor (pre @ enc x) (concat (map enc xs) @ rest))"
    using Cons.prems by (simp add: dec_enc)
  with Cons show ?case by simp
qed

end

text \<open>
  A serializer builds a block of its own: it allocates the size, writes, and puts the
  position back to the start.
\<close>

locale serializer = codec +
  fixes ser :: "'a \<Rightarrow> buffer res"
  assumes ser_enc: "length (enc x) < 0x80000000 \<Longrightarrow> ser x = Inr (fresh_buf (enc x))"
begin

lemma ser_dec:
  "ok x \<Longrightarrow> length (enc x) < 0x80000000 \<Longrightarrow>
   rbind (ser x) dec = Inr (x, cursor (enc x) [])"
  by (simp add: ser_enc dec_fresh)

end

interpretation byte_codec: codec "\<lambda>c. [c]" get_byte "\<lambda>_. True"
  by unfold_locales (simp add: cursor_simps)

interpretation int_codec: codec int_bytes get_int "\<lambda>_. True"
  by unfold_locales (simp add: cursor_simps)

interpretation ulong_codec: codec ulong_bytes get_ulong "\<lambda>_. True"
  by unfold_locales (simp add: cursor_simps)

interpretation str_codec: codec "\<lambda>s. s @ [0]" get_string str_ok
  by unfold_locales (simp add: cursor_simps)

section \<open>Well-formed buffers stay well formed\<close>

lemma buf_ok_fresh [simp]: "buf_ok (fresh_buf bs) \<longleftrightarrow> length bs < 0x80000000"
  by (simp add: buf_ok_def)

lemma buf_ok_alloc: "alloc n = Inr b \<Longrightarrow> buf_ok b"
  by (auto simp: alloc_def buf_ok_def bsize_def split: if_splits)

lemma buf_ok_set_pos: "buf_ok b \<Longrightarrow> buf_ok (set_pos p b)"
  by (simp add: buf_ok_def set_pos_def bsize_def)

lemma buf_ok_put_bytes: "buf_ok b \<Longrightarrow> put_bytes bs b = Inr b' \<Longrightarrow> buf_ok b' \<and> bsize b' = bsize b"
  by (auto simp: put_bytes_def write_bytes_def advance_def buf_ok_def bsize_def split: if_splits)

lemma buf_ok_advance: "buf_ok b \<Longrightarrow> n \<le> bsize b - bpos b \<Longrightarrow> buf_ok (advance n b)"
  by (auto simp: buf_ok_def advance_def bsize_def)

lemma buf_ok_get_int: "buf_ok b \<Longrightarrow> get_int b = Inr (v, b') \<Longrightarrow> buf_ok b'"
  by (auto simp: get_int_def split: if_splits intro!: buf_ok_advance)

lemma buf_ok_get_ulong: "buf_ok b \<Longrightarrow> get_ulong b = Inr (v, b') \<Longrightarrow> buf_ok b'"
  by (auto simp: get_ulong_def split: if_splits intro!: buf_ok_advance)

lemma buf_ok_get_byte: "buf_ok b \<Longrightarrow> get_byte b = Inr (v, b') \<Longrightarrow> buf_ok b'"
  by (auto simp: get_byte_def split: if_splits intro!: buf_ok_advance)

lemma buf_ok_get_str: "buf_ok b \<Longrightarrow> buf_ok (snd (get_str b))"
  by (auto simp: get_str_def Let_def intro!: buf_ok_advance)

lemma buf_ok_get_into:
  "buf_ok src \<Longrightarrow> buf_ok dst \<Longrightarrow> get_into dst src = Inr (dst', src') \<Longrightarrow>
   buf_ok dst' \<and> buf_ok src' \<and> bsize dst' = bsize dst"
  by (auto simp: get_into_def Let_def write_bytes_def buf_ok_def bsize_def brest_def advance_def
      split: if_splits)

end
