(* ===== verification/Configuration.thy ===== *)
theory Configuration
  imports Buffer
begin

text \<open>
  The three small records every server persists and exchanges: the configuration of one
  server (\<^verbatim>\<open>srv_config.hxx\<close>), the configuration of the cluster (\<^verbatim>\<open>cluster_config.hxx\<close>) and the
  term and vote of a server (\<^verbatim>\<open>srv_state.hxx\<close>), each with its \<^verbatim>\<open>serialize\<close> and \<^verbatim>\<open>deserialize\<close>.
  The round trips are interpretations of the locale \<open>serializer\<close>.
\<close>

section \<open>Server configuration\<close>

record srv_config =
  sc_id :: int32
  sc_endpoint :: cstring

definition srv_config_serialize :: "srv_config \<Rightarrow> buffer res" where
  "srv_config_serialize c =
     rbind (alloc (4 + length (sc_endpoint c) + 1)) (\<lambda>buf.
     rbind (put_int (sc_id c) buf) (\<lambda>buf.
     rbind (put_str (sc_endpoint c) buf) (\<lambda>buf.
     Inr (set_pos 0 buf))))"

definition srv_config_deserialize :: "buffer \<Rightarrow> (srv_config \<times> buffer) res" where
  "srv_config_deserialize buf =
     rbind (get_int buf) (\<lambda>(id, buf).
     rbind (get_string buf) (\<lambda>(endpoint, buf).
     Inr (\<lparr>sc_id = id, sc_endpoint = endpoint\<rparr>, buf)))"

definition srv_config_bytes :: "srv_config \<Rightarrow> bytes" where
  "srv_config_bytes c = int_bytes (sc_id c) @ sc_endpoint c @ [0]"

definition srv_config_ok :: "srv_config \<Rightarrow> bool" where
  "srv_config_ok c \<longleftrightarrow> str_ok (sc_endpoint c)"

interpretation srv_config_codec: serializer srv_config_bytes srv_config_deserialize srv_config_ok
  srv_config_serialize
proof unfold_locales
  fix x pre rest
  assume "srv_config_ok x"
  then show "srv_config_deserialize (cursor pre (srv_config_bytes x @ rest)) =
        Inr (x, cursor (pre @ srv_config_bytes x) rest)"
    by (simp add: srv_config_deserialize_def srv_config_bytes_def srv_config_ok_def cursor_simps)
next
  fix x
  assume "length (srv_config_bytes x) < 0x80000000"
  then show "srv_config_serialize x = Inr (fresh_buf (srv_config_bytes x))"
    by (simp add: srv_config_serialize_def srv_config_bytes_def cursor_simps)
qed

section \<open>Cluster configuration\<close>

record cluster_config =
  cc_log_idx :: ulong
  cc_prev_log_idx :: ulong
  cc_servers :: "srv_config list"

definition cluster_config_new :: "ulong \<Rightarrow> ulong \<Rightarrow> cluster_config" where
  "cluster_config_new i p = \<lparr>cc_log_idx = i, cc_prev_log_idx = p, cc_servers = []\<rparr>"

definition set_log_idx :: "ulong \<Rightarrow> cluster_config \<Rightarrow> cluster_config" where
  "set_log_idx i c = c\<lparr>cc_prev_log_idx := cc_log_idx c, cc_log_idx := i\<rparr>"

definition get_server :: "cluster_config \<Rightarrow> int32 \<Rightarrow> srv_config option" where
  "get_server c i = List.find (\<lambda>srv. sc_id srv = i) (cc_servers c)"

definition cluster_config_serialize :: "cluster_config \<Rightarrow> buffer res" where
  "cluster_config_serialize c =
     rbind (mapR srv_config_serialize (cc_servers c)) (\<lambda>srv_buffs.
     rbind (alloc (2 * 8 + 4 + sum_list (map bsize srv_buffs))) (\<lambda>result.
     rbind (put_ulong (cc_log_idx c) result) (\<lambda>result.
     rbind (put_ulong (cc_prev_log_idx c) result) (\<lambda>result.
     rbind (put_int (of_nat (length (cc_servers c))) result) (\<lambda>result.
     rbind (foldR put_buf srv_buffs result) (\<lambda>result.
     Inr (set_pos 0 result)))))))"

definition cluster_config_deserialize :: "buffer \<Rightarrow> (cluster_config \<times> buffer) res" where
  "cluster_config_deserialize buf =
     rbind (get_ulong buf) (\<lambda>(log_idx, buf).
     rbind (get_ulong buf) (\<lambda>(prev_log_idx, buf).
     rbind (get_int buf) (\<lambda>(cnt, buf).
     rbind (get_many srv_config_deserialize (nat (sint cnt)) buf) (\<lambda>(srvs, buf).
     Inr (\<lparr>cc_log_idx = log_idx, cc_prev_log_idx = prev_log_idx, cc_servers = srvs\<rparr>, buf)))))"

definition cluster_config_bytes :: "cluster_config \<Rightarrow> bytes" where
  "cluster_config_bytes c =
     ulong_bytes (cc_log_idx c) @ ulong_bytes (cc_prev_log_idx c) @
     int_bytes (of_nat (length (cc_servers c))) @ concat (map srv_config_bytes (cc_servers c))"

definition cluster_config_ok :: "cluster_config \<Rightarrow> bool" where
  "cluster_config_ok c \<longleftrightarrow> list_all srv_config_ok (cc_servers c) \<and> length (cc_servers c) < 2 ^ 31"

lemma length_srv_config_bytes_le:
  "x \<in> set xs \<Longrightarrow> length (srv_config_bytes x) \<le> length (concat (map srv_config_bytes xs))"
  by (induction xs) auto

lemma mapR_srv_config_serialize:
  "length (concat (map srv_config_bytes xs)) < 0x80000000 \<Longrightarrow>
   mapR srv_config_serialize xs = Inr (map (\<lambda>x. fresh_buf (srv_config_bytes x)) xs)"
  using length_srv_config_bytes_le [of _ xs]
  by (intro mapR_Inr srv_config_codec.ser_enc) (meson le_less_trans)

interpretation cluster_config_codec: serializer cluster_config_bytes cluster_config_deserialize
  cluster_config_ok cluster_config_serialize
proof unfold_locales
  fix x pre rest
  assume "cluster_config_ok x"
  then show "cluster_config_deserialize (cursor pre (cluster_config_bytes x @ rest)) =
        Inr (x, cursor (pre @ cluster_config_bytes x) rest)"
    by (simp add: cluster_config_deserialize_def cluster_config_bytes_def cluster_config_ok_def
        cursor_simps sint_of_nat_int32 srv_config_codec.dec_many)
next
  fix x
  assume len: "length (cluster_config_bytes x) < 0x80000000"
  then have "mapR srv_config_serialize (cc_servers x) =
             Inr (map (\<lambda>x. fresh_buf (srv_config_bytes x)) (cc_servers x))"
    by (intro mapR_srv_config_serialize) (simp add: cluster_config_bytes_def)
  with len show "cluster_config_serialize x = Inr (fresh_buf (cluster_config_bytes x))"
    by (simp add: cluster_config_serialize_def cluster_config_bytes_def cursor_simps o_def
        length_concat)
qed

section \<open>Server state\<close>

record srv_state =
  st_term :: ulong
  st_voted_for :: int32

definition srv_state_serialize :: "srv_state \<Rightarrow> buffer res" where
  "srv_state_serialize st =
     rbind (alloc (8 + 4)) (\<lambda>buf.
     rbind (put_ulong (st_term st) buf) (\<lambda>buf.
     rbind (put_int (st_voted_for st) buf) (\<lambda>buf.
     Inr (set_pos 0 buf))))"

definition srv_state_deserialize :: "buffer \<Rightarrow> (srv_state \<times> buffer) res" where
  "srv_state_deserialize buf =
     rbind (get_ulong buf) (\<lambda>(term, buf).
     rbind (get_int buf) (\<lambda>(voted_for, buf).
     Inr (\<lparr>st_term = term, st_voted_for = voted_for\<rparr>, buf)))"

definition srv_state_bytes :: "srv_state \<Rightarrow> bytes" where
  "srv_state_bytes st = ulong_bytes (st_term st) @ int_bytes (st_voted_for st)"

interpretation srv_state_codec: serializer srv_state_bytes srv_state_deserialize "\<lambda>_. True"
  srv_state_serialize
  by unfold_locales
     (simp_all add: srv_state_serialize_def srv_state_deserialize_def srv_state_bytes_def cursor_simps)

end
