(* ===== verification/Log_Entries.thy ===== *)
theory Log_Entries
  imports Configuration
begin

text \<open>
  What the log and the snapshots are made of, from \<^verbatim>\<open>raft/include/contribution\<close>: the value
  types, the log entry with its payload buffer, the snapshot and the pieces a snapshot is
  shipped in. A log entry and a snapshot piece are decoded to the end of their buffer, so
  their round trips are stated for a whole buffer.
\<close>

section \<open>Value types\<close>

text \<open>
  The enumeration is read from a byte by a cast, so a byte that names no enumerator is a
  value of its own.
\<close>

datatype log_val_type = app_log | conf | cluster_server | log_pack | snp_sync_req | other_val byte

fun val_type_byte :: "log_val_type \<Rightarrow> byte" where
  "val_type_byte app_log = 1"
| "val_type_byte conf = 2"
| "val_type_byte cluster_server = 3"
| "val_type_byte log_pack = 4"
| "val_type_byte snp_sync_req = 5"
| "val_type_byte (other_val b) = b"

definition val_type_of_byte :: "byte \<Rightarrow> log_val_type" where
  "val_type_of_byte b =
     (if b = 1 then app_log else if b = 2 then conf else if b = 3 then cluster_server
      else if b = 4 then log_pack else if b = 5 then snp_sync_req else other_val b)"

fun val_type_ok :: "log_val_type \<Rightarrow> bool" where
  "val_type_ok (other_val b) = (b \<notin> {1, 2, 3, 4, 5})"
| "val_type_ok _ = True"

lemma val_type_round [simp]: "val_type_ok t \<Longrightarrow> val_type_of_byte (val_type_byte t) = t"
  by (cases t) (simp_all add: val_type_of_byte_def)

lemma val_type_round2 [simp]: "val_type_byte (val_type_of_byte b) = b"
  by (simp add: val_type_of_byte_def)

lemma val_type_ok_of_byte [simp]: "val_type_ok (val_type_of_byte b)"
  by (simp add: val_type_of_byte_def)

section \<open>Log entries\<close>

text \<open>The payload pointer may be null; \<^verbatim>\<open>get_buf\<close> throws then.\<close>

record log_entry =
  le_term :: ulong
  le_val_type :: log_val_type
  le_buff :: "buffer option"

definition log_entry_new :: "ulong \<Rightarrow> buffer \<Rightarrow> log_val_type \<Rightarrow> log_entry" where
  "log_entry_new t b v = \<lparr>le_term = t, le_val_type = v, le_buff = Some b\<rparr>"

definition get_buf :: "log_entry \<Rightarrow> buffer res" where
  "get_buf e = (case le_buff e of None \<Rightarrow> Inl Runtime_error | Some b \<Rightarrow> Inr b)"

text \<open>\<^verbatim>\<open>buff_->pos(0)\<close>, the effect \<^verbatim>\<open>serialize\<close> has on the entry itself.\<close>

definition rewind :: "log_entry \<Rightarrow> log_entry" where
  "rewind e = e\<lparr>le_buff := map_option (set_pos 0) (le_buff e)\<rparr>"

definition log_entry_serialize :: "log_entry \<Rightarrow> buffer res" where
  "log_entry_serialize e =
     (case le_buff e of
        None \<Rightarrow> Inl Undefined_behaviour
      | Some buff \<Rightarrow>
          let buff = set_pos 0 buff in
          rbind (alloc (8 + 1 + bsize buff)) (\<lambda>buf.
          rbind (put_ulong (le_term e) buf) (\<lambda>buf.
          rbind (put_byte (val_type_byte (le_val_type e)) buf) (\<lambda>buf.
          rbind (put_buf buff buf) (\<lambda>buf.
          Inr (set_pos 0 buf))))))"

definition log_entry_deserialize :: "buffer \<Rightarrow> log_entry res" where
  "log_entry_deserialize buf =
     rbind (get_ulong buf) (\<lambda>(term, buf).
     rbind (get_byte buf) (\<lambda>(t, buf).
     rbind (copy buf) (\<lambda>data.
     Inr (log_entry_new term data (val_type_of_byte t)))))"

definition term_in_buffer :: "buffer \<Rightarrow> (ulong \<times> buffer) res" where
  "term_in_buffer buf = rbind (get_ulong buf) (\<lambda>(term, buf). Inr (term, set_pos 0 buf))"

text \<open>An entry as the log keeps it: a payload with its position at the start.\<close>

definition entry_of :: "ulong \<Rightarrow> log_val_type \<Rightarrow> bytes \<Rightarrow> log_entry" where
  "entry_of t v bs = log_entry_new t (fresh_buf bs) v"

definition stored_entry :: "log_entry \<Rightarrow> bool" where
  "stored_entry e \<longleftrightarrow> (\<exists>bs. le_buff e = Some (fresh_buf bs) \<and> length bs < 0x80000000)"

lemma entry_of_simps [simp]:
  "le_term (entry_of t v bs) = t" "le_val_type (entry_of t v bs) = v"
  "le_buff (entry_of t v bs) = Some (fresh_buf bs)" "get_buf (entry_of t v bs) = Inr (fresh_buf bs)"
  by (simp_all add: entry_of_def log_entry_new_def get_buf_def)

lemma stored_entry_of: "stored_entry (entry_of t v bs) \<longleftrightarrow> length bs < 0x80000000"
  by (auto simp: stored_entry_def fresh_buf_def)

lemma stored_entryE:
  assumes "stored_entry e"
  obtains bs where "e = entry_of (le_term e) (le_val_type e) bs" "length bs < 0x80000000"
  using assms by (cases e) (auto simp: stored_entry_def entry_of_def log_entry_new_def)

lemma rewind_stored [simp]: "stored_entry e \<Longrightarrow> rewind e = e"
  by (auto simp: stored_entry_def rewind_def set_pos_def fresh_buf_def bsize_def)

definition log_entry_bytes :: "ulong \<Rightarrow> log_val_type \<Rightarrow> bytes \<Rightarrow> bytes" where
  "log_entry_bytes t v bs = ulong_bytes t @ [val_type_byte v] @ bs"

lemma length_log_entry_bytes [simp]: "length (log_entry_bytes t v bs) = 9 + length bs"
  by (simp add: log_entry_bytes_def)

lemma log_entry_serialize_eq:
  "9 + length bs < 0x80000000 \<Longrightarrow>
   log_entry_serialize (entry_of t v bs) = Inr (fresh_buf (log_entry_bytes t v bs))"
  by (simp add: log_entry_serialize_def log_entry_bytes_def cursor_simps)

lemma log_entry_deserialize_eq:
  "length bs < 0x80000000 \<Longrightarrow> val_type_ok v \<Longrightarrow>
   log_entry_deserialize (fresh_buf (log_entry_bytes t v bs)) = Inr (entry_of t v bs)"
  by (simp add: log_entry_deserialize_def log_entry_bytes_def fresh_cursor cursor_simps entry_of_def)

lemma log_entry_deserialize_short:
  "length bs < 9 \<Longrightarrow> log_entry_deserialize (fresh_buf bs) = Inl Overflow_error"
  by (simp add: log_entry_deserialize_def get_ulong_def get_byte_def advance_def rbind_def bsize_def)

section \<open>Snapshots\<close>

record snapshot =
  sn_last_log_idx :: ulong
  sn_last_log_term :: ulong
  sn_size :: ulong
  sn_last_config :: cluster_config

definition snapshot_new :: "ulong \<Rightarrow> ulong \<Rightarrow> cluster_config \<Rightarrow> ulong \<Rightarrow> snapshot" where
  "snapshot_new i t c sz =
     \<lparr>sn_last_log_idx = i, sn_last_log_term = t, sn_size = sz, sn_last_config = c\<rparr>"

definition snapshot_serialize :: "snapshot \<Rightarrow> buffer res" where
  "snapshot_serialize s =
     rbind (cluster_config_serialize (sn_last_config s)) (\<lambda>conf_buf.
     rbind (alloc (bsize conf_buf + 8 * 3)) (\<lambda>buf.
     rbind (put_ulong (sn_last_log_idx s) buf) (\<lambda>buf.
     rbind (put_ulong (sn_last_log_term s) buf) (\<lambda>buf.
     rbind (put_ulong (sn_size s) buf) (\<lambda>buf.
     rbind (put_buf conf_buf buf) (\<lambda>buf.
     Inr (set_pos 0 buf)))))))"

definition snapshot_deserialize :: "buffer \<Rightarrow> (snapshot \<times> buffer) res" where
  "snapshot_deserialize buf =
     rbind (get_ulong buf) (\<lambda>(last_log_idx, buf).
     rbind (get_ulong buf) (\<lambda>(last_log_term, buf).
     rbind (get_ulong buf) (\<lambda>(size, buf).
     rbind (cluster_config_deserialize buf) (\<lambda>(conf, buf).
     Inr (snapshot_new last_log_idx last_log_term conf size, buf)))))"

definition snapshot_bytes :: "snapshot \<Rightarrow> bytes" where
  "snapshot_bytes s =
     ulong_bytes (sn_last_log_idx s) @ ulong_bytes (sn_last_log_term s) @ ulong_bytes (sn_size s) @
     cluster_config_bytes (sn_last_config s)"

definition snapshot_ok :: "snapshot \<Rightarrow> bool" where
  "snapshot_ok s \<longleftrightarrow> cluster_config_ok (sn_last_config s)"

interpretation snapshot_codec: serializer snapshot_bytes snapshot_deserialize snapshot_ok
  snapshot_serialize
proof unfold_locales
  fix x pre rest
  assume "snapshot_ok x"
  then show "snapshot_deserialize (cursor pre (snapshot_bytes x @ rest)) =
        Inr (x, cursor (pre @ snapshot_bytes x) rest)"
    by (simp add: snapshot_deserialize_def snapshot_bytes_def snapshot_ok_def snapshot_new_def
        cursor_simps cluster_config_codec.dec_enc)
next
  fix x
  assume len: "length (snapshot_bytes x) < 0x80000000"
  then have "cluster_config_serialize (sn_last_config x) =
             Inr (fresh_buf (cluster_config_bytes (sn_last_config x)))"
    by (intro cluster_config_codec.ser_enc) (simp add: snapshot_bytes_def)
  with len show "snapshot_serialize x = Inr (fresh_buf (snapshot_bytes x))"
    by (simp add: snapshot_serialize_def snapshot_bytes_def cursor_simps)
qed

section \<open>Snapshot transfer\<close>

record snapshot_sync_ctx =
  sx_snapshot :: snapshot
  sx_offset :: ulong

record snapshot_sync_req =
  sr_snapshot :: snapshot
  sr_offset :: ulong
  sr_data :: buffer
  sr_done :: bool

definition snapshot_sync_req_serialize :: "snapshot_sync_req \<Rightarrow> buffer res" where
  "snapshot_sync_req_serialize r =
     rbind (snapshot_serialize (sr_snapshot r)) (\<lambda>snp_buf.
     rbind (alloc (bsize snp_buf + 8 + 1 + (bsize (sr_data r) - bpos (sr_data r)))) (\<lambda>buf.
     rbind (put_buf snp_buf buf) (\<lambda>buf.
     rbind (put_ulong (sr_offset r) buf) (\<lambda>buf.
     rbind (put_byte (if sr_done r then 1 else 0) buf) (\<lambda>buf.
     rbind (put_buf (sr_data r) buf) (\<lambda>buf.
     Inr (set_pos 0 buf)))))))"

definition snapshot_sync_req_deserialize :: "buffer \<Rightarrow> snapshot_sync_req res" where
  "snapshot_sync_req_deserialize buf =
     rbind (snapshot_deserialize buf) (\<lambda>(snp, buf).
     rbind (get_ulong buf) (\<lambda>(offset, buf).
     rbind (get_byte buf) (\<lambda>(d, buf).
     let done = (d = 1) in
     if bpos buf < bsize buf then
       let sz = bsize buf - bpos buf in
       rbind (alloc sz) (\<lambda>b.
       Inr \<lparr>sr_snapshot = snp, sr_offset = offset,
            sr_data = write_bytes (take sz (brest buf)) b, sr_done = done\<rparr>)
     else
       rbind (alloc 0) (\<lambda>b.
       Inr \<lparr>sr_snapshot = snp, sr_offset = offset, sr_data = b, sr_done = done\<rparr>))))"

definition snapshot_sync_req_bytes :: "snapshot_sync_req \<Rightarrow> bytes" where
  "snapshot_sync_req_bytes r =
     snapshot_bytes (sr_snapshot r) @ ulong_bytes (sr_offset r) @
     [if sr_done r then 1 else 0] @ brest (sr_data r)"

lemma snapshot_sync_req_serialize_eq:
  assumes len: "length (snapshot_sync_req_bytes r) < 0x80000000"
    and b: "buf_ok (sr_data r)"
  shows "snapshot_sync_req_serialize r = Inr (fresh_buf (snapshot_sync_req_bytes r))"
proof -
  have "snapshot_serialize (sr_snapshot r) = Inr (fresh_buf (snapshot_bytes (sr_snapshot r)))"
    using len by (intro snapshot_codec.ser_enc) (simp add: snapshot_sync_req_bytes_def)
  moreover have "length (brest (sr_data r)) = bsize (sr_data r) - bpos (sr_data r)"
    by (simp add: brest_def bsize_def)
  ultimately show ?thesis
    using len by (simp add: snapshot_sync_req_serialize_def snapshot_sync_req_bytes_def cursor_simps)
qed

lemma snapshot_sync_req_deserialize_eq:
  assumes "snapshot_ok (sr_snapshot r)" "length (brest (sr_data r)) < 0x80000000"
  shows "snapshot_sync_req_deserialize (fresh_buf (snapshot_sync_req_bytes r)) =
         Inr (r\<lparr>sr_data := fresh_buf (brest (sr_data r))\<rparr>)"
proof (cases "brest (sr_data r)")
  case Nil
  with assms show ?thesis
    by (simp add: snapshot_sync_req_deserialize_def snapshot_sync_req_bytes_def fresh_cursor
        cursor_simps snapshot_codec.dec_enc)
next
  case (Cons c cs)
  with assms show ?thesis
    by (simp add: snapshot_sync_req_deserialize_def snapshot_sync_req_bytes_def fresh_cursor
        cursor_simps snapshot_codec.dec_enc write_bytes_def)
qed

end
