(* ===== verification/Messages.thy ===== *)
theory Messages
  imports Log_Entries
begin

text \<open>
  The messages the servers exchange (\<^verbatim>\<open>raft/include/rpc\<close>) and their wire format
  (\<^verbatim>\<open>port/msg_serializer.cxx\<close>): a request is a header of 45 bytes and the encoded log entries
  behind it, a response is 26 bytes.
\<close>

section \<open>Message types\<close>

datatype msg_type =
    request_vote_request
  | request_vote_response
  | append_entries_request
  | append_entries_response
  | client_request
  | add_server_request
  | add_server_response
  | remove_server_request
  | remove_server_response
  | sync_log_request
  | sync_log_response
  | join_cluster_request
  | join_cluster_response
  | leave_cluster_request
  | leave_cluster_response
  | install_snapshot_request
  | install_snapshot_response
  | other_type byte

text \<open>The enumerators in the order of the header; their values start at one.\<close>

definition msg_types :: "msg_type list" where
  "msg_types =
     [request_vote_request, request_vote_response, append_entries_request, append_entries_response,
      client_request, add_server_request, add_server_response, remove_server_request,
      remove_server_response, sync_log_request, sync_log_response, join_cluster_request,
      join_cluster_response, leave_cluster_request, leave_cluster_response,
      install_snapshot_request, install_snapshot_response]"

fun msg_type_byte :: "msg_type \<Rightarrow> byte" where
  "msg_type_byte request_vote_request = 1"
| "msg_type_byte request_vote_response = 2"
| "msg_type_byte append_entries_request = 3"
| "msg_type_byte append_entries_response = 4"
| "msg_type_byte client_request = 5"
| "msg_type_byte add_server_request = 6"
| "msg_type_byte add_server_response = 7"
| "msg_type_byte remove_server_request = 8"
| "msg_type_byte remove_server_response = 9"
| "msg_type_byte sync_log_request = 10"
| "msg_type_byte sync_log_response = 11"
| "msg_type_byte join_cluster_request = 12"
| "msg_type_byte join_cluster_response = 13"
| "msg_type_byte leave_cluster_request = 14"
| "msg_type_byte leave_cluster_response = 15"
| "msg_type_byte install_snapshot_request = 16"
| "msg_type_byte install_snapshot_response = 17"
| "msg_type_byte (other_type b) = b"

definition msg_type_of_byte :: "byte \<Rightarrow> msg_type" where
  "msg_type_of_byte b =
     (case List.find (\<lambda>t. msg_type_byte t = b) msg_types of Some t \<Rightarrow> t | None \<Rightarrow> other_type b)"

fun msg_type_ok :: "msg_type \<Rightarrow> bool" where
  "msg_type_ok (other_type b) = (b \<notin> msg_type_byte ` set msg_types)"
| "msg_type_ok _ = True"

lemma msg_type_round [simp]: "msg_type_ok t \<Longrightarrow> msg_type_of_byte (msg_type_byte t) = t"
  by (cases t) (auto simp: msg_type_of_byte_def msg_types_def)

section \<open>Requests and responses\<close>

record req_msg =
  rq_term :: ulong
  rq_type :: msg_type
  rq_src :: int32
  rq_dst :: int32
  rq_last_log_term :: ulong
  rq_last_log_idx :: ulong
  rq_commit_idx :: ulong
  rq_log_entries :: "log_entry list"

definition req_msg_new ::
  "ulong \<Rightarrow> msg_type \<Rightarrow> int32 \<Rightarrow> int32 \<Rightarrow> ulong \<Rightarrow> ulong \<Rightarrow> ulong \<Rightarrow> req_msg" where
  "req_msg_new term type src dst last_log_term last_log_idx commit_idx =
     \<lparr>rq_term = term, rq_type = type, rq_src = src, rq_dst = dst,
      rq_last_log_term = last_log_term, rq_last_log_idx = last_log_idx,
      rq_commit_idx = commit_idx, rq_log_entries = []\<rparr>"

record resp_msg =
  rs_term :: ulong
  rs_type :: msg_type
  rs_src :: int32
  rs_dst :: int32
  rs_next_idx :: ulong
  rs_accepted :: bool

definition resp_msg_new :: "ulong \<Rightarrow> msg_type \<Rightarrow> int32 \<Rightarrow> int32 \<Rightarrow> ulong \<Rightarrow> resp_msg" where
  "resp_msg_new term type src dst next_idx =
     \<lparr>rs_term = term, rs_type = type, rs_src = src, rs_dst = dst, rs_next_idx = next_idx,
      rs_accepted = False\<rparr>"

definition accept :: "ulong \<Rightarrow> resp_msg \<Rightarrow> resp_msg" where
  "accept i r = r\<lparr>rs_next_idx := i, rs_accepted := True\<rparr>"

section \<open>Wire format of requests\<close>

definition RPC_REQ_HEADER_SIZE :: nat where
  "RPC_REQ_HEADER_SIZE = 3 * 4 + 8 * 4 + 1"

definition RPC_RESP_HEADER_SIZE :: nat where
  "RPC_RESP_HEADER_SIZE = 4 * 2 + 8 * 2 + 2"

text \<open>One round of the first loop of \<^verbatim>\<open>serialize_req\<close>.\<close>

definition serialize_req_entry :: "log_entry \<Rightarrow> buffer res" where
  "serialize_req_entry e =
     rbind (get_buf e) (\<lambda>buff.
     rbind (alloc (8 + 1 + 4 + bsize buff)) (\<lambda>entry_buf.
     rbind (put_ulong (le_term e) entry_buf) (\<lambda>entry_buf.
     rbind (put_byte (val_type_byte (le_val_type e)) entry_buf) (\<lambda>entry_buf.
     rbind (put_int (of_nat (bsize buff)) entry_buf) (\<lambda>entry_buf.
     rbind (put_buf (set_pos 0 buff) entry_buf) (\<lambda>entry_buf.
     Inr (set_pos 0 entry_buf)))))))"

definition serialize_req :: "req_msg \<Rightarrow> buffer res" where
  "serialize_req req =
     rbind (mapR serialize_req_entry (rq_log_entries req)) (\<lambda>log_entry_bufs.
     let log_data_size = foldl (\<lambda>n b. n + of_nat (bsize b)) (0 :: int32) log_entry_bufs in
     rbind (alloc (int32_to_size (of_nat RPC_REQ_HEADER_SIZE + log_data_size))) (\<lambda>req_buf.
     rbind (put_byte (msg_type_byte (rq_type req)) req_buf) (\<lambda>req_buf.
     rbind (put_int (rq_src req) req_buf) (\<lambda>req_buf.
     rbind (put_int (rq_dst req) req_buf) (\<lambda>req_buf.
     rbind (put_ulong (rq_term req) req_buf) (\<lambda>req_buf.
     rbind (put_ulong (rq_last_log_term req) req_buf) (\<lambda>req_buf.
     rbind (put_ulong (rq_last_log_idx req) req_buf) (\<lambda>req_buf.
     rbind (put_ulong (rq_commit_idx req) req_buf) (\<lambda>req_buf.
     rbind (put_int log_data_size req_buf) (\<lambda>req_buf.
     rbind (foldR put_buf log_entry_bufs req_buf) (\<lambda>req_buf.
     Inr (set_pos 0 req_buf))))))))))))"

text \<open>One round of the loop of \<^verbatim>\<open>deserialize_req\<close>.\<close>

definition deserialize_req_entry :: "buffer \<Rightarrow> (log_entry \<times> buffer) res" where
  "deserialize_req_entry log_data =
     rbind (get_ulong log_data) (\<lambda>(log_term, log_data).
     rbind (get_byte log_data) (\<lambda>(val_type, log_data).
     rbind (get_int log_data) (\<lambda>(val_size, log_data).
     rbind (alloc (int32_to_size val_size)) (\<lambda>buf.
     rbind (get_into buf log_data) (\<lambda>(buf, log_data).
     Inr (log_entry_new log_term buf (val_type_of_byte val_type), log_data))))))"

lemma deserialize_req_entry_progress:
  assumes "deserialize_req_entry b = Inr (e, b')" "bpos b < bsize b"
  shows "bsize b' - bpos b' < bsize b - bpos b"
  using assms
  by (auto simp: deserialize_req_entry_def rbind_eq_Inr_iff get_ulong_def get_byte_def get_int_def
      get_into_def Let_def advance_def bsize_def split: if_splits)

text \<open>The loop: it ends because every round moves the position forward.\<close>

function deserialize_req_entries :: "buffer \<Rightarrow> log_entry list res" where
  "deserialize_req_entries log_data =
     (if bsize log_data > bpos log_data then
        (case deserialize_req_entry log_data of
           Inl err \<Rightarrow> Inl err
         | Inr (entry, log_data') \<Rightarrow>
             rbind (deserialize_req_entries log_data') (\<lambda>es. Inr (entry # es)))
      else Inr [])"
  by pat_completeness auto
termination
  by (relation "measure (\<lambda>b. bsize b - bpos b)") (auto dest: deserialize_req_entry_progress)

declare deserialize_req_entries.simps [simp del]

definition deserialize_req :: "buffer \<Rightarrow> buffer option \<Rightarrow> req_msg res" where
  "deserialize_req header log_data =
     (let header = set_pos 0 header in
      rbind (get_byte header) (\<lambda>(t, header).
      rbind (get_int header) (\<lambda>(src, header).
      rbind (get_int header) (\<lambda>(dst, header).
      rbind (get_ulong header) (\<lambda>(term, header).
      rbind (get_ulong header) (\<lambda>(last_term, header).
      rbind (get_ulong header) (\<lambda>(last_idx, header).
      rbind (get_ulong header) (\<lambda>(commit_idx, header).
      let req = req_msg_new term (msg_type_of_byte t) src dst last_term last_idx commit_idx in
      rbind (get_int header) (\<lambda>(n, header).
      case log_data of
        Some log_data \<Rightarrow>
          if sint n > 0 then
            rbind (deserialize_req_entries (set_pos 0 log_data)) (\<lambda>es.
            Inr (req\<lparr>rq_log_entries := es\<rparr>))
          else Inr req
      | None \<Rightarrow> Inr req)))))))))"

definition serialize_resp :: "resp_msg \<Rightarrow> buffer res" where
  "serialize_resp resp =
     rbind (alloc RPC_RESP_HEADER_SIZE) (\<lambda>resp_buf.
     rbind (put_byte (msg_type_byte (rs_type resp)) resp_buf) (\<lambda>resp_buf.
     rbind (put_int (rs_src resp) resp_buf) (\<lambda>resp_buf.
     rbind (put_int (rs_dst resp) resp_buf) (\<lambda>resp_buf.
     rbind (put_ulong (rs_term resp) resp_buf) (\<lambda>resp_buf.
     rbind (put_ulong (rs_next_idx resp) resp_buf) (\<lambda>resp_buf.
     rbind (put_byte (if rs_accepted resp then 1 else 0) resp_buf) (\<lambda>resp_buf.
     Inr (set_pos 0 resp_buf))))))))"

definition deserialize_resp :: "buffer \<Rightarrow> (resp_msg \<times> buffer) res" where
  "deserialize_resp resp_buf =
     (let resp_buf = set_pos 0 resp_buf in
      rbind (get_byte resp_buf) (\<lambda>(msg_type_val, resp_buf).
      rbind (get_int resp_buf) (\<lambda>(src, resp_buf).
      rbind (get_int resp_buf) (\<lambda>(dst, resp_buf).
      rbind (get_ulong resp_buf) (\<lambda>(term, resp_buf).
      rbind (get_ulong resp_buf) (\<lambda>(nxt_idx, resp_buf).
      rbind (get_byte resp_buf) (\<lambda>(accepted_val, resp_buf).
      Inr ((resp_msg_new term (msg_type_of_byte msg_type_val) src dst nxt_idx)
             \<lparr>rs_accepted := (accepted_val = 1)\<rparr>, resp_buf))))))))"

section \<open>Round trips\<close>

definition req_entry_bytes :: "log_entry \<Rightarrow> bytes" where
  "req_entry_bytes e =
     (case le_buff e of None \<Rightarrow> [] | Some b \<Rightarrow>
        ulong_bytes (le_term e) @ [val_type_byte (le_val_type e)] @
        int_bytes (of_nat (bsize b)) @ bdata b)"

definition req_entry_ok :: "log_entry \<Rightarrow> bool" where
  "req_entry_ok e \<longleftrightarrow> stored_entry e \<and> val_type_ok (le_val_type e)"

interpretation req_entry_codec: codec req_entry_bytes deserialize_req_entry req_entry_ok
proof unfold_locales
  fix x pre rest
  assume "req_entry_ok x"
  then obtain bs where x: "x = entry_of (le_term x) (le_val_type x) bs" "length bs < 2 ^ 31"
    and v: "val_type_ok (le_val_type x)"
    unfolding req_entry_ok_def by (elim conjE stored_entryE) simp
  obtain t vt where tv: "x = entry_of t vt bs" "val_type_ok vt"
    using x v by metis
  show "deserialize_req_entry (cursor pre (req_entry_bytes x @ rest)) =
        Inr (x, cursor (pre @ req_entry_bytes x) rest)"
    using x(2) tv
    by (simp add: deserialize_req_entry_def req_entry_bytes_def cursor_simps int32_to_size_of_nat
        entry_of_def log_entry_new_def)
qed

lemma req_entry_bytes_nonempty: "req_entry_ok e \<Longrightarrow> req_entry_bytes e \<noteq> []"
  by (auto simp: req_entry_ok_def req_entry_bytes_def stored_entry_def split: option.split)

lemma deserialize_req_entries_eq:
  "list_all req_entry_ok es \<Longrightarrow>
   deserialize_req_entries (cursor pre (concat (map req_entry_bytes es))) = Inr es"
proof (induction es arbitrary: pre)
  case Nil
  show ?case by (simp add: deserialize_req_entries.simps)
next
  case (Cons e es)
  have "req_entry_bytes e \<noteq> []"
    using Cons.prems by (simp add: req_entry_bytes_nonempty)
  moreover have "deserialize_req_entry (cursor pre (concat (map req_entry_bytes (e # es)))) =
        Inr (e, cursor (pre @ req_entry_bytes e) (concat (map req_entry_bytes es)))"
    using Cons.prems req_entry_codec.dec_enc [of e] by simp
  ultimately show ?case
    using Cons by (subst deserialize_req_entries.simps) simp
qed

text \<open>What goes over the wire: the header, then the entries.\<close>

definition req_header_bytes :: "req_msg \<Rightarrow> bytes" where
  "req_header_bytes r =
     [msg_type_byte (rq_type r)] @ int_bytes (rq_src r) @ int_bytes (rq_dst r) @
     ulong_bytes (rq_term r) @ ulong_bytes (rq_last_log_term r) @ ulong_bytes (rq_last_log_idx r) @
     ulong_bytes (rq_commit_idx r) @
     int_bytes (of_nat (length (concat (map req_entry_bytes (rq_log_entries r)))))"

definition req_body_bytes :: "req_msg \<Rightarrow> bytes" where
  "req_body_bytes r = concat (map req_entry_bytes (rq_log_entries r))"

definition req_ok :: "req_msg \<Rightarrow> bool" where
  "req_ok r \<longleftrightarrow> msg_type_ok (rq_type r) \<and> list_all req_entry_ok (rq_log_entries r) \<and>
     RPC_REQ_HEADER_SIZE + length (req_body_bytes r) < 2 ^ 31"

lemma length_req_header_bytes [simp]: "length (req_header_bytes r) = RPC_REQ_HEADER_SIZE"
  by (simp add: req_header_bytes_def RPC_REQ_HEADER_SIZE_def)

lemma serialize_req_entry_eq:
  assumes "req_entry_ok e" "length (req_entry_bytes e) < 2 ^ 31"
  shows "serialize_req_entry e = Inr (fresh_buf (req_entry_bytes e))"
proof -
  from assms(1) obtain bs where "le_buff e = Some (fresh_buf bs)"
    by (auto simp: req_entry_ok_def stored_entry_def)
  with assms(2) show ?thesis
    by (simp add: serialize_req_entry_def req_entry_bytes_def get_buf_def cursor_simps)
qed

lemma length_req_entry_bytes_le:
  "e \<in> set es \<Longrightarrow> length (req_entry_bytes e) \<le> length (concat (map req_entry_bytes es))"
  by (induction es) auto

lemma foldl_size_sum:
  "foldl (\<lambda>n b. n + of_nat (bsize b)) (of_nat k :: int32) bs = of_nat (k + sum_list (map bsize bs))"
proof (induction bs arbitrary: k)
  case (Cons b bs)
  have "(of_nat k + of_nat (bsize b) :: int32) = of_nat (k + bsize b)" by simp
  then show ?case using Cons [of "k + bsize b"] by (simp add: add.assoc)
qed simp

lemma serialize_req_eq:
  assumes "req_ok r"
  shows "serialize_req r = Inr (fresh_buf (req_header_bytes r @ req_body_bytes r))"
proof -
  let ?body = "concat (map req_entry_bytes (rq_log_entries r))"
  have len: "45 + length ?body < 2 ^ 31"
    using assms by (simp add: req_ok_def req_body_bytes_def RPC_REQ_HEADER_SIZE_def)
  have "serialize_req_entry e = Inr (fresh_buf (req_entry_bytes e))"
    if "e \<in> set (rq_log_entries r)" for e
    using that assms len length_req_entry_bytes_le [OF that]
    by (intro serialize_req_entry_eq) (auto simp: req_ok_def list_all_iff)
  then have bufs: "mapR serialize_req_entry (rq_log_entries r) =
        Inr (map (\<lambda>e. fresh_buf (req_entry_bytes e)) (rq_log_entries r))"
    by (rule mapR_Inr)
  have sz: "foldl (\<lambda>n b. n + of_nat (bsize b)) (0 :: int32)
              (map (\<lambda>e. fresh_buf (req_entry_bytes e)) (rq_log_entries r)) = of_nat (length ?body)"
    using foldl_size_sum [of 0 "map (\<lambda>e. fresh_buf (req_entry_bytes e)) (rq_log_entries r)"]
    by (simp add: o_def length_concat)
  have "int32_to_size (45 + of_nat (length ?body)) = 45 + length ?body"
    using int32_to_size_of_nat [OF len] by simp
  then show ?thesis
    using len
    by (simp add: serialize_req_def bufs sz Let_def cursor_simps RPC_REQ_HEADER_SIZE_def
        req_header_bytes_def req_body_bytes_def o_def)
qed

lemma deserialize_req_eq:
  assumes "req_ok r"
  shows "deserialize_req (fresh_buf (req_header_bytes r)) (Some (fresh_buf (req_body_bytes r))) = Inr r"
proof -
  let ?body = "concat (map req_entry_bytes (rq_log_entries r))"
  have len: "length ?body < 2 ^ 31" and ty: "msg_type_ok (rq_type r)"
    and es: "list_all req_entry_ok (rq_log_entries r)"
    using assms by (simp_all add: req_ok_def req_body_bytes_def)
  have n: "sint (of_nat (length ?body) :: int32) = int (length ?body)"
    using len by (rule sint_of_nat_int32)
  have entries: "deserialize_req_entries (cursor [] ?body) = Inr (rq_log_entries r)"
    using es by (rule deserialize_req_entries_eq)
  have none: "rq_log_entries r = []" if "?body = []"
    using that es req_entry_bytes_nonempty by (cases "rq_log_entries r") auto
  show ?thesis
  proof (cases "?body = []")
    case True
    then show ?thesis
      using ty none by (simp add: deserialize_req_def req_header_bytes_def req_msg_new_def
          set_pos_0 fresh_cursor cursor_simps Let_def)
  next
    case False
    then show ?thesis
      using ty n entries
      by (simp add: deserialize_req_def req_header_bytes_def req_body_bytes_def req_msg_new_def
          set_pos_0 fresh_cursor cursor_simps Let_def)
  qed
qed

definition resp_bytes :: "resp_msg \<Rightarrow> bytes" where
  "resp_bytes r =
     [msg_type_byte (rs_type r)] @ int_bytes (rs_src r) @ int_bytes (rs_dst r) @
     ulong_bytes (rs_term r) @ ulong_bytes (rs_next_idx r) @ [if rs_accepted r then 1 else 0]"

lemma length_resp_bytes [simp]: "length (resp_bytes r) = RPC_RESP_HEADER_SIZE"
  by (simp add: resp_bytes_def RPC_RESP_HEADER_SIZE_def)

lemma serialize_resp_eq: "serialize_resp r = Inr (fresh_buf (resp_bytes r))"
  by (simp add: serialize_resp_def resp_bytes_def cursor_simps RPC_RESP_HEADER_SIZE_def)

lemma deserialize_resp_eq:
  "msg_type_ok (rs_type r) \<Longrightarrow>
   deserialize_resp (fresh_buf (resp_bytes r)) = Inr (r, cursor (resp_bytes r) [])"
  by (simp add: deserialize_resp_def resp_bytes_def resp_msg_new_def set_pos_0 fresh_cursor
      cursor_simps Let_def)

end
