(* ===== verification/Peer.thy ===== *)
theory Peer
  imports Messages "HOL-Library.Signed_Division"
begin

text \<open>
  The tuning parameters of a server (\<^verbatim>\<open>raft_params.hxx\<close>) and what a server keeps about another
  one (\<^verbatim>\<open>peer.hxx\<close>): its configuration, the replication indexes, the busy and pending flags,
  and the heartbeat interval that backs off when calls fail and also serves as the counter
  for giving up on a server that joins or leaves.
\<close>

section \<open>Parameters\<close>

record raft_params =
  pa_election_timeout_upper_bound :: int32
  pa_election_timeout_lower_bound :: int32
  pa_heart_beat_interval :: int32
  pa_rpc_failure_backoff :: int32
  pa_log_sync_batch_size :: int32
  pa_log_sync_stop_gap :: int32
  pa_snapshot_distance :: int32
  pa_snapshot_block_size :: int32
  pa_max_append_size :: int32
  pa_reserved_log_items :: int32

definition raft_params_new :: raft_params where
  "raft_params_new =
     \<lparr>pa_election_timeout_upper_bound = 300, pa_election_timeout_lower_bound = 150,
      pa_heart_beat_interval = 75, pa_rpc_failure_backoff = 25, pa_log_sync_batch_size = 1000,
      pa_log_sync_stop_gap = 10, pa_snapshot_distance = 0, pa_snapshot_block_size = 0,
      pa_max_append_size = 100, pa_reserved_log_items = 10000\<rparr>"

definition with_election_timeout_upper :: "int32 \<Rightarrow> raft_params \<Rightarrow> raft_params" where
  "with_election_timeout_upper timeout p = p\<lparr>pa_election_timeout_upper_bound := timeout\<rparr>"

definition with_election_timeout_lower :: "int32 \<Rightarrow> raft_params \<Rightarrow> raft_params" where
  "with_election_timeout_lower timeout p = p\<lparr>pa_election_timeout_lower_bound := timeout\<rparr>"

definition with_hb_interval :: "int32 \<Rightarrow> raft_params \<Rightarrow> raft_params" where
  "with_hb_interval hb_interval p = p\<lparr>pa_heart_beat_interval := hb_interval\<rparr>"

definition with_rpc_failure_backoff :: "int32 \<Rightarrow> raft_params \<Rightarrow> raft_params" where
  "with_rpc_failure_backoff backoff p = p\<lparr>pa_rpc_failure_backoff := backoff\<rparr>"

definition with_max_append_size :: "int32 \<Rightarrow> raft_params \<Rightarrow> raft_params" where
  "with_max_append_size n p = p\<lparr>pa_max_append_size := n\<rparr>"

definition with_log_sync_batch_size :: "int32 \<Rightarrow> raft_params \<Rightarrow> raft_params" where
  "with_log_sync_batch_size batch_size p = p\<lparr>pa_log_sync_batch_size := batch_size\<rparr>"

definition with_log_sync_stopping_gap :: "int32 \<Rightarrow> raft_params \<Rightarrow> raft_params" where
  "with_log_sync_stopping_gap gap p = p\<lparr>pa_log_sync_stop_gap := gap\<rparr>"

definition with_snapshot_enabled :: "int32 \<Rightarrow> raft_params \<Rightarrow> raft_params" where
  "with_snapshot_enabled commit_distance p = p\<lparr>pa_snapshot_distance := commit_distance\<rparr>"

definition with_snapshot_sync_block_size :: "int32 \<Rightarrow> raft_params \<Rightarrow> raft_params" where
  "with_snapshot_sync_block_size n p = p\<lparr>pa_snapshot_block_size := n\<rparr>"

definition with_reserved_log_items :: "int32 \<Rightarrow> raft_params \<Rightarrow> raft_params" where
  "with_reserved_log_items number_of_logs p = p\<lparr>pa_reserved_log_items := number_of_logs\<rparr>"

text \<open>\<^verbatim>\<open>std::min\<close> and \<^verbatim>\<open>std::max\<close> on signed values, and the truncating division of C++.\<close>

definition int32_min :: "int32 \<Rightarrow> int32 \<Rightarrow> int32" where
  "int32_min a b = (if sint b < sint a then b else a)"

definition int32_max :: "int32 \<Rightarrow> int32 \<Rightarrow> int32" where
  "int32_max a b = (if sint a < sint b then b else a)"

definition int32_div :: "int32 \<Rightarrow> int32 \<Rightarrow> int32" where
  "int32_div a b = of_int (sint a sdiv sint b)"

definition max_hb_interval :: "raft_params \<Rightarrow> int32" where
  "max_hb_interval p =
     int32_max (pa_heart_beat_interval p)
       (pa_election_timeout_lower_bound p - int32_div (pa_heart_beat_interval p) 2)"

section \<open>Peers\<close>

text \<open>
  A peer object is shared by pointers and referred to by the timers and the calls in
  flight, which may outlive it; \<open>pr_uid\<close> is its identity.
\<close>

record peer =
  pr_uid :: nat
  pr_config :: srv_config
  pr_current_hb_interval :: int32
  pr_hb_interval :: int32
  pr_rpc_backoff :: int32
  pr_max_hb_interval :: int32
  pr_next_log_idx :: ulong
  pr_matched_idx :: ulong
  pr_last_resp :: time_point
  pr_busy :: bool
  pr_pending_commit :: bool
  pr_hb_enabled :: bool
  pr_snp_sync_ctx :: "snapshot_sync_ctx option"

definition peer_new :: "nat \<Rightarrow> srv_config \<Rightarrow> raft_params \<Rightarrow> peer" where
  "peer_new uid config params =
     \<lparr>pr_uid = uid, pr_config = config,
      pr_current_hb_interval = pa_heart_beat_interval params,
      pr_hb_interval = pa_heart_beat_interval params,
      pr_rpc_backoff = pa_rpc_failure_backoff params,
      pr_max_hb_interval = max_hb_interval params,
      pr_next_log_idx = 0, pr_matched_idx = 0, pr_last_resp = 0,
      pr_busy = False, pr_pending_commit = False, pr_hb_enabled = False,
      pr_snp_sync_ctx = None\<rparr>"

definition pr_id :: "peer \<Rightarrow> int32" where
  "pr_id p = sc_id (pr_config p)"

text \<open>The two compare-and-exchange operations give the result and the new peer.\<close>

definition make_busy :: "peer \<Rightarrow> bool \<times> peer" where
  "make_busy p = (if pr_busy p then (False, p) else (True, p\<lparr>pr_busy := True\<rparr>))"

definition set_free :: "peer \<Rightarrow> peer" where
  "set_free p = p\<lparr>pr_busy := False\<rparr>"

definition set_pending_commit :: "peer \<Rightarrow> peer" where
  "set_pending_commit p = p\<lparr>pr_pending_commit := True\<rparr>"

definition clear_pending_commit :: "peer \<Rightarrow> bool \<times> peer" where
  "clear_pending_commit p =
     (if pr_pending_commit p then (True, p\<lparr>pr_pending_commit := False\<rparr>) else (False, p))"

definition set_snapshot_in_sync :: "snapshot option \<Rightarrow> peer \<Rightarrow> peer" where
  "set_snapshot_in_sync s p =
     p\<lparr>pr_snp_sync_ctx := map_option (\<lambda>s. \<lparr>sx_snapshot = s, sx_offset = 0\<rparr>) s\<rparr>"

definition slow_down_hb :: "peer \<Rightarrow> peer" where
  "slow_down_hb p =
     p\<lparr>pr_current_hb_interval :=
         int32_min (pr_max_hb_interval p) (pr_current_hb_interval p + pr_rpc_backoff p)\<rparr>"

definition resume_hb_speed :: "peer \<Rightarrow> peer" where
  "resume_hb_speed p = p\<lparr>pr_current_hb_interval := pr_hb_interval p\<rparr>"

text \<open>
  What \<^verbatim>\<open>handle_rpc_result\<close> does to the peer before the handler of the call runs, for an
  answer and for an error.
\<close>

definition rpc_done :: "req_msg \<Rightarrow> bool \<Rightarrow> peer \<Rightarrow> peer" where
  "rpc_done req failed p =
     (let p = (if rq_type req = append_entries_request \<or> rq_type req = install_snapshot_request
               then set_free p else p)
      in if failed then slow_down_hb p else resume_hb_speed p)"

lemmas peer_defs =
  make_busy_def set_free_def set_pending_commit_def clear_pending_commit_def
  set_snapshot_in_sync_def slow_down_hb_def resume_hb_speed_def rpc_done_def

section \<open>The back-off reaches its limit\<close>

text \<open>
  With admissible parameters the interval grows by the back-off on every failure until it
  is the maximum and stays there; the number of failures this takes is bounded, so a retry
  loop that stops at the maximum ends.
\<close>

definition backoff_ok :: "peer \<Rightarrow> bool" where
  "backoff_ok p \<longleftrightarrow>
     0 < sint (pr_rpc_backoff p) \<and> 0 \<le> sint (pr_current_hb_interval p) \<and>
     sint (pr_current_hb_interval p) \<le> sint (pr_max_hb_interval p) \<and>
     sint (pr_max_hb_interval p) + sint (pr_rpc_backoff p) < 2 ^ 31"

lemma sint_add_int32:
  fixes a b :: int32
  assumes "- (2 ^ 31) \<le> sint a + sint b" "sint a + sint b < 2 ^ 31"
  shows "sint (a + b) = sint a + sint b"
  using assms by (simp add: sint_word_ariths signed_take_bit_int_eq_self)

lemma slow_down_hb_step:
  assumes "backoff_ok p"
  shows "sint (pr_current_hb_interval (slow_down_hb p)) =
           min (sint (pr_max_hb_interval p)) (sint (pr_current_hb_interval p) + sint (pr_rpc_backoff p))"
    and "backoff_ok (slow_down_hb p)"
proof -
  have "sint (pr_current_hb_interval p + pr_rpc_backoff p) =
        sint (pr_current_hb_interval p) + sint (pr_rpc_backoff p)"
    using assms by (intro sint_add_int32) (simp_all add: backoff_ok_def)
  then show "sint (pr_current_hb_interval (slow_down_hb p)) =
           min (sint (pr_max_hb_interval p)) (sint (pr_current_hb_interval p) + sint (pr_rpc_backoff p))"
    by (simp add: slow_down_hb_def int32_min_def min_def)
  then show "backoff_ok (slow_down_hb p)"
    using assms by (auto simp: backoff_ok_def slow_down_hb_def int32_min_def)
qed

lemma slow_down_hb_fields [simp]:
  "pr_max_hb_interval (slow_down_hb p) = pr_max_hb_interval p"
  "pr_rpc_backoff (slow_down_hb p) = pr_rpc_backoff p"
  by (simp_all add: slow_down_hb_def)

lemma slow_down_hb_iterate:
  assumes "backoff_ok p"
  shows "backoff_ok ((slow_down_hb ^^ n) p) \<and>
         pr_max_hb_interval ((slow_down_hb ^^ n) p) = pr_max_hb_interval p \<and>
         sint (pr_current_hb_interval ((slow_down_hb ^^ n) p)) \<ge>
           min (sint (pr_max_hb_interval p)) (sint (pr_current_hb_interval p) + int n)"
proof (induction n)
  case 0
  show ?case using assms by simp
next
  case (Suc n)
  let ?q = "(slow_down_hb ^^ n) p"
  have "0 < sint (pr_rpc_backoff ?q)" using Suc by (simp add: backoff_ok_def)
  with Suc slow_down_hb_step [of ?q] show ?case by (auto simp: min_def split: if_splits)
qed

end
