(* ===== verification/Std_Map.thy ===== *)
theory Std_Map
  imports Raft_Prelude
begin

text \<open>
  The two associative containers of the C++ library the program keeps its state in.
  \<^verbatim>\<open>std::map\<close> iterates in key order and is a list of pairs with strictly increasing keys;
  \<^verbatim>\<open>std::unordered_map\<close> promises no order and is a list of pairs with distinct keys, the
  list order standing for the iteration order. \<open>map_of\<close> is \<^verbatim>\<open>find\<close> for both. The locale
  \<open>dictionary\<close> is what the components rely on; both containers are interpretations of it.
\<close>

section \<open>Operations\<close>

text \<open>\<^verbatim>\<open>m[k] = v\<close> on a \<^verbatim>\<open>std::map\<close>.\<close>

fun map_put :: "'k::linorder \<Rightarrow> 'v \<Rightarrow> ('k \<times> 'v) list \<Rightarrow> ('k \<times> 'v) list" where
  "map_put k v [] = [(k, v)]"
| "map_put k v ((k', v') # m) =
     (if k < k' then (k, v) # (k', v') # m
      else if k = k' then (k, v) # m
      else (k', v') # map_put k v m)"

text \<open>\<^verbatim>\<open>m[k] = v\<close> on a \<^verbatim>\<open>std::unordered_map\<close>.\<close>

fun umap_put :: "'k \<Rightarrow> 'v \<Rightarrow> ('k \<times> 'v) list \<Rightarrow> ('k \<times> 'v) list" where
  "umap_put k v [] = [(k, v)]"
| "umap_put k v ((k', v') # m) = (if k = k' then (k, v) # m else (k', v') # umap_put k v m)"

text \<open>\<^verbatim>\<open>m.insert(std::make_pair(k, v))\<close> on a \<^verbatim>\<open>std::unordered_map\<close>: no effect on a key it has.\<close>

definition umap_insert :: "'k \<Rightarrow> 'v \<Rightarrow> ('k \<times> 'v) list \<Rightarrow> ('k \<times> 'v) list" where
  "umap_insert k v m = (case map_of m k of None \<Rightarrow> m @ [(k, v)] | Some _ \<Rightarrow> m)"

definition map_erase :: "'k \<Rightarrow> ('k \<times> 'v) list \<Rightarrow> ('k \<times> 'v) list" where
  "map_erase k m = filter (\<lambda>(k', _). k' \<noteq> k) m"

text \<open>What is left after erasing everything from \<^verbatim>\<open>lower_bound(k)\<close> to the end.\<close>

definition map_below :: "'k::linorder \<Rightarrow> ('k \<times> 'v) list \<Rightarrow> ('k \<times> 'v) list" where
  "map_below k m = takeWhile (\<lambda>(k', _). k' < k) m"

text \<open>\<^verbatim>\<open>upper_bound(k)\<close>: the first pair with a key above \<open>k\<close>.\<close>

definition upper_bound :: "'k::linorder \<Rightarrow> ('k \<times> 'v) list \<Rightarrow> ('k \<times> 'v) option" where
  "upper_bound k m = List.find (\<lambda>(k', _). k < k') m"

definition map_sorted :: "('k::linorder \<times> 'v) list \<Rightarrow> bool" where
  "map_sorted m = sorted_wrt (<) (map fst m)"

definition keys_distinct :: "('k \<times> 'v) list \<Rightarrow> bool" where
  "keys_distinct m = distinct (map fst m)"

section \<open>The contract of a dictionary\<close>

locale dictionary =
  fixes put :: "'k \<Rightarrow> 'v \<Rightarrow> ('k \<times> 'v) list \<Rightarrow> ('k \<times> 'v) list"
    and inv :: "('k \<times> 'v) list \<Rightarrow> bool"
  assumes find_put: "inv m \<Longrightarrow> map_of (put k v m) = (map_of m)(k \<mapsto> v)"
    and inv_put: "inv m \<Longrightarrow> inv (put k v m)"
    and inv_erase: "inv m \<Longrightarrow> inv (map_erase k m)"
    and inv_distinct: "inv m \<Longrightarrow> distinct (map fst m)"
begin

lemma size_dom: "inv m \<Longrightarrow> length m = card (dom (map_of m))"
  using inv_distinct [of m] distinct_card [of "map fst m"] by (simp add: dom_map_of_conv_image_fst)

lemma find_put_same [simp]: "inv m \<Longrightarrow> map_of (put k v m) k = Some v"
  by (simp add: find_put)

lemma find_put_other [simp]: "inv m \<Longrightarrow> k' \<noteq> k \<Longrightarrow> map_of (put k v m) k' = map_of m k'"
  by (simp add: find_put)

lemma size_put_new: "inv m \<Longrightarrow> map_of m k = None \<Longrightarrow> length (put k v m) = Suc (length m)"
  by (simp add: size_dom inv_put find_put finite_dom_map_of domIff)

lemma size_put_old: "inv m \<Longrightarrow> map_of m k = Some v' \<Longrightarrow> length (put k v m) = length m"
  by (simp add: size_dom inv_put find_put insert_absorb domI)

end

section \<open>Both containers meet it\<close>

lemma find_erase: "map_of (map_erase k m) = (map_of m)(k := None)"
  by (induction m) (auto simp: map_erase_def fun_eq_iff)

lemma find_map_put:
  assumes "map_sorted m"
  shows "map_of (map_put k v m) = (map_of m)(k \<mapsto> v)"
  using assms
proof (induction k v m rule: map_put.induct)
  case (2 k v k' v' m)
  then show ?case
    by (auto simp: map_sorted_def fun_eq_iff)
qed simp

lemma set_keys_map_put: "set (map fst (map_put k v m)) = insert k (set (map fst m))"
  by (induction k v m rule: map_put.induct) auto

lemma map_sorted_put: "map_sorted m \<Longrightarrow> map_sorted (map_put k v m)"
proof (induction k v m rule: map_put.induct)
  case (2 k v k' v' m)
  then show ?case
    using set_keys_map_put [of k v m] by (fastforce simp: map_sorted_def)
qed (simp add: map_sorted_def)

lemma map_sorted_erase: "map_sorted m \<Longrightarrow> map_sorted (map_erase k m)"
  unfolding map_sorted_def map_erase_def by (induction m) auto

lemma map_sorted_distinct: "map_sorted m \<Longrightarrow> distinct (map fst m)"
  unfolding map_sorted_def by (simp add: strict_sorted_iff)

interpretation std_map: dictionary map_put map_sorted
  by unfold_locales (simp_all add: find_map_put map_sorted_put map_sorted_erase map_sorted_distinct)

lemma find_umap_put: "map_of (umap_put k v m) = (map_of m)(k \<mapsto> v)"
  by (induction k v m rule: umap_put.induct) (auto simp: fun_eq_iff)

lemma set_keys_umap_put: "set (map fst (umap_put k v m)) = insert k (set (map fst m))"
  by (induction k v m rule: umap_put.induct) auto

lemma keys_distinct_umap_put: "keys_distinct m \<Longrightarrow> keys_distinct (umap_put k v m)"
proof (induction k v m rule: umap_put.induct)
  case (2 k v k' v' m)
  then show ?case
    using set_keys_umap_put [of k v m] by (auto simp: keys_distinct_def)
qed (simp add: keys_distinct_def)

lemma keys_distinct_erase: "keys_distinct m \<Longrightarrow> keys_distinct (map_erase k m)"
  unfolding keys_distinct_def map_erase_def by (induction m) auto

interpretation std_umap: dictionary umap_put keys_distinct
  by unfold_locales
     (simp_all add: find_umap_put keys_distinct_umap_put keys_distinct_erase, simp add: keys_distinct_def)

section \<open>More facts on lookups\<close>

lemma keys_umap_put_present: "k \<in> set (map fst m) \<Longrightarrow> map fst (umap_put k v m) = map fst m"
  by (induction k v m rule: umap_put.induct) auto

lemma keys_distinct_umap_insert: "keys_distinct m \<Longrightarrow> keys_distinct (umap_insert k v m)"
  by (auto simp: umap_insert_def keys_distinct_def map_of_eq_None_iff split: option.split)

lemma find_umap_insert:
  "map_of (umap_insert k v m) = (case map_of m k of None \<Rightarrow> (map_of m)(k \<mapsto> v) | Some _ \<Rightarrow> map_of m)"
  by (auto simp: umap_insert_def fun_eq_iff map_add_def split: option.split)

lemma find_map_below: "map_sorted m \<Longrightarrow> map_of (map_below k m) i = (if i < k then map_of m i else None)"
  unfolding map_sorted_def map_below_def
proof (induction m)
  case (Cons p m)
  have "map_of m i = None" if "i < k" "\<not> fst p < k"
    using that Cons.prems by (auto simp: map_of_eq_None_iff)
  with Cons show ?case by (cases p) auto
qed simp

lemma map_sorted_below: "map_sorted m \<Longrightarrow> map_sorted (map_below k m)"
  unfolding map_sorted_def map_below_def
  by (metis takeWhile_eq_take sorted_wrt_take take_map)

lemma map_le_imp_Some: "m \<subseteq>\<^sub>m m' \<Longrightarrow> m k = Some v \<Longrightarrow> m' k = Some v"
  by (metis domI map_le_def)

end
