(* ===== verification/Log_Store.thy ===== *)
theory Log_Store
  imports Log_Entries Std_Map
begin

text \<open>
  The log of a server: \<^verbatim>\<open>app_impl/in_memory_log_store.hxx\<close>, the implementation of the
  interface \<^verbatim>\<open>log_store_interface.hxx\<close> the program runs with. It is an ordered map from
  indexes to entries with a dummy at index zero, and a start index that moves up when the
  log is compacted. Its abstract meaning is a start index and the list of the entries from
  there on; the locale \<open>raft_log\<close> states what the operations do to that list, and what the
  server's loops over them give.
\<close>

section \<open>The store and its operations\<close>

record log_store =
  ls_logs :: "(ulong \<times> log_entry) list"
  ls_start_idx :: ulong

type_synonym 'a log_op = "(log_store, 'a) sx"

definition make_clone :: "log_entry \<Rightarrow> log_entry res" where
  "make_clone e =
     rbind (get_buf e) (\<lambda>b.
     rbind (copy b) (\<lambda>b.
     Inr (log_entry_new (le_term e) b (le_val_type e))))"

definition dummy_entry :: log_entry where
  "dummy_entry = entry_of 0 app_log (replicate 8 0)"

definition log_store_new :: log_store where
  "log_store_new = \<lparr>ls_logs = map_put 0 dummy_entry [], ls_start_idx = 1\<rparr>"

definition next_slot :: "log_store \<Rightarrow> ulong" where
  "next_slot s = ls_start_idx s + of_nat (length (ls_logs s)) - 1"

definition start_index :: "log_store \<Rightarrow> ulong" where
  "start_index s = ls_start_idx s"

text \<open>\<^verbatim>\<open>find(index)\<close>, falling back to the dummy.\<close>

definition find_or_dummy :: "log_store \<Rightarrow> ulong \<Rightarrow> log_entry res" where
  "find_or_dummy s i =
     (case map_of (ls_logs s) i of
        Some e \<Rightarrow> Inr e
      | None \<Rightarrow> (case map_of (ls_logs s) 0 of Some e \<Rightarrow> Inr e | None \<Rightarrow> Inl Undefined_behaviour))"

definition last_entry :: "log_store \<Rightarrow> log_entry res" where
  "last_entry s = rbind (find_or_dummy s (next_slot s - 1)) make_clone"

definition append_log :: "log_entry \<Rightarrow> ulong log_op" where
  "append_log entry =
     bindM (liftR (make_clone entry)) (\<lambda>clone.
     bindM (getM (\<lambda>s. ls_start_idx s + of_nat (length (ls_logs s)) - 1)) (\<lambda>idx.
     bindM (modM (\<lambda>s. s\<lparr>ls_logs := map_put idx clone (ls_logs s)\<rparr>)) (\<lambda>_.
     ret idx)))"

definition write_at :: "ulong \<Rightarrow> log_entry \<Rightarrow> unit log_op" where
  "write_at index entry =
     bindM (liftR (make_clone entry)) (\<lambda>clone.
     modM (\<lambda>s. s\<lparr>ls_logs := map_put index clone (map_below index (ls_logs s))\<rparr>))"

definition log_entries :: "ulong \<Rightarrow> ulong \<Rightarrow> log_store \<Rightarrow> log_entry list res" where
  "log_entries start end s =
     mapR (\<lambda>ii. case map_of (ls_logs s) ii of
                  None \<Rightarrow> Inl Assertion_failed
                | Some src \<Rightarrow> make_clone src)
          (ulong_range start end)"

definition entry_at :: "ulong \<Rightarrow> log_store \<Rightarrow> log_entry res" where
  "entry_at i s = rbind (find_or_dummy s i) make_clone"

definition term_at :: "ulong \<Rightarrow> log_store \<Rightarrow> ulong res" where
  "term_at i s = rbind (find_or_dummy s i) (\<lambda>e. Inr (le_term e))"

text \<open>
  \<^verbatim>\<open>pack\<close>: \<^verbatim>\<open>logs_[ii]\<close> is a null pointer for an index the map does not have, which the
  \<^verbatim>\<open>assert\<close> stops at; \<^verbatim>\<open>serialize\<close> rewinds the stored payload. The pack is returned with its
  position at the end.
\<close>

definition pack_entry :: "ulong \<Rightarrow> buffer log_op" where
  "pack_entry ii =
     bindM (getM (\<lambda>s. map_of (ls_logs s) ii)) (\<lambda>entry.
     case entry of
       None \<Rightarrow> throwM Assertion_failed
     | Some e \<Rightarrow>
         bindM (modM (\<lambda>s. s\<lparr>ls_logs := map_put ii (rewind e) (ls_logs s)\<rparr>)) (\<lambda>_.
         liftR (log_entry_serialize e)))"

primrec pack_entries :: "ulong list \<Rightarrow> buffer list log_op" where
  "pack_entries [] = ret []"
| "pack_entries (ii # is) =
     bindM (pack_entry ii) (\<lambda>b. bindM (pack_entries is) (\<lambda>bs. ret (b # bs)))"

definition pack :: "ulong \<Rightarrow> int32 \<Rightarrow> buffer log_op" where
  "pack index cnt =
     bindM (pack_entries (ulong_range index (index + int32_to_ulong cnt))) (\<lambda>logs.
     liftR (rbind (alloc (unat (4 + int32_to_ulong cnt * 4 + of_nat (sum_list (map bsize logs)))))
             (\<lambda>buf_out.
            rbind (put_int cnt (set_pos 0 buf_out)) (\<lambda>buf_out.
            foldR (\<lambda>bb buf_out. rbind (put_int (of_nat (bsize bb)) buf_out) (put_buf bb))
              logs buf_out))))"

primrec apply_pack_entries :: "ulong list \<Rightarrow> buffer \<Rightarrow> unit log_op" where
  "apply_pack_entries [] pk = ret ()"
| "apply_pack_entries (ii # is) pk =
     bindM (liftR (rbind (get_int pk) (\<lambda>(n, pk).
                   rbind (alloc (int32_to_size n)) (\<lambda>buf_local.
                   rbind (get_into buf_local pk) (\<lambda>(buf_local, pk).
                   rbind (log_entry_deserialize buf_local) (\<lambda>entry.
                   Inr (entry, pk))))))) (\<lambda>(entry, pk).
     bindM (modM (\<lambda>s. s\<lparr>ls_logs := map_put ii entry (ls_logs s)\<rparr>)) (\<lambda>_.
     apply_pack_entries is pk))"

definition apply_pack :: "ulong \<Rightarrow> buffer \<Rightarrow> unit log_op" where
  "apply_pack index pk =
     bindM (liftR (get_int (set_pos 0 pk))) (\<lambda>(num_logs, pk).
     bindM (apply_pack_entries (ulong_range index (index + int32_to_ulong num_logs)) pk) (\<lambda>_.
     modM (\<lambda>s. s\<lparr>ls_start_idx :=
       (case upper_bound 0 (ls_logs s) of Some (k, _) \<Rightarrow> k | None \<Rightarrow> 1)\<rparr>)))"

text \<open>
  \<^verbatim>\<open>for (ulong ii = start_idx_; ii <= last_log_index; ++ii)\<close> never ends when \<open>last_log_index\<close> is
  the largest \<^verbatim>\<open>ulong\<close>.
\<close>

definition compact :: "ulong \<Rightarrow> bool log_op" where
  "compact last_log_index =
     (if last_log_index = - 1 then throwM Diverges
      else
        bindM (getM ls_start_idx) (\<lambda>start.
        bindM (forM (ulong_range start (last_log_index + 1)) (\<lambda>ii.
                 modM (\<lambda>s. s\<lparr>ls_logs := map_erase ii (ls_logs s)\<rparr>))) (\<lambda>_.
        bindM (modM (\<lambda>s. s\<lparr>ls_start_idx := last_log_index + 1\<rparr>)) (\<lambda>_.
        ret True))))"

section \<open>The log as a list\<close>

text \<open>
  Entries numbered upwards from \<open>k\<close>, and the store that holds the entries \<open>es\<close> from the
  start index \<open>k\<close> on with dummy \<open>d\<close>. A store is well formed when it is of this form and its
  indexes fit a \<^verbatim>\<open>ulong\<close>.
\<close>

definition number :: "nat \<Rightarrow> 'e list \<Rightarrow> (ulong \<times> 'e) list" where
  "number k es = zip (map of_nat [k ..< k + length es]) es"

definition log_rep :: "nat \<Rightarrow> log_entry \<Rightarrow> log_entry list \<Rightarrow> log_store" where
  "log_rep k d es = \<lparr>ls_logs = (0, d) # number k es, ls_start_idx = of_nat k\<rparr>"

definition log_start :: "log_store \<Rightarrow> nat" where
  "log_start s = unat (ls_start_idx s)"

definition log_list :: "log_store \<Rightarrow> log_entry list" where
  "log_list s = map snd (tl (ls_logs s))"

definition log_dummy :: "log_store \<Rightarrow> log_entry" where
  "log_dummy s = snd (hd (ls_logs s))"

definition log_inv :: "log_store \<Rightarrow> bool" where
  "log_inv s \<longleftrightarrow>
     s = log_rep (log_start s) (log_dummy s) (log_list s) \<and>
     1 \<le> log_start s \<and> log_start s + length (log_list s) < 2 ^ 64 \<and>
     stored_entry (log_dummy s) \<and> list_all stored_entry (log_list s)"

text \<open>The index after the last entry, as a natural number.\<close>

definition log_next :: "log_store \<Rightarrow> nat" where
  "log_next s = log_start s + length (log_list s)"

lemma length_number [simp]: "length (number k es) = length es"
  by (simp add: number_def)

lemma map_snd_number [simp]: "map snd (number k es) = es"
  by (simp add: number_def)

lemma number_Nil [simp]: "number k [] = []"
  by (simp add: number_def)

lemma number_Cons [simp]: "number k (e # es) = (of_nat k, e) # number (Suc k) es"
  by (simp add: number_def upt_conv_Cons del: upt_Suc)

lemma number_append: "number k (es @ fs) = number k es @ number (k + length es) fs"
  by (induction es arbitrary: k) simp_all

lemma of_nat_ulong_less_iff: "m < 2 ^ 64 \<Longrightarrow> n < 2 ^ 64 \<Longrightarrow> (of_nat m :: ulong) < of_nat n \<longleftrightarrow> m < n"
  by (simp add: word_less_nat_alt unat_of_nat take_bit_nat_eq_self)

lemma of_nat_ulong_eq_iff: "m < 2 ^ 64 \<Longrightarrow> n < 2 ^ 64 \<Longrightarrow> (of_nat m :: ulong) = of_nat n \<longleftrightarrow> m = n"
  by (simp add: word_unat_eq_iff unat_of_nat take_bit_nat_eq_self)

lemma unat_of_nat_ulong [simp]: "n < 2 ^ 64 \<Longrightarrow> unat (of_nat n :: ulong) = n"
  by (simp add: unat_of_nat take_bit_nat_eq_self)

lemma map_of_number:
  "k + length es \<le> 2 ^ 64 \<Longrightarrow>
   map_of (number k es) i =
     (if k \<le> unat i \<and> unat i < k + length es then Some (es ! (unat i - k)) else None)"
proof (induction es arbitrary: k)
  case Nil
  show ?case by simp
next
  case (Cons e es)
  have k: "k < 2 ^ 64" using Cons.prems by simp
  have "i = of_nat k \<longleftrightarrow> unat i = k"
    using unat_of_nat_ulong [OF k] by (auto simp: word_unat_eq_iff)
  with Cons show ?case by (auto simp: nth_Cons' Suc_diff_Suc)
qed

lemma map_put_number:
  "k + length es < 2 ^ 64 \<Longrightarrow> map_put (of_nat (k + length es)) e (number k es) = number k (es @ [e])"
proof (induction es arbitrary: k)
  case Nil
  show ?case by simp
next
  case (Cons x es)
  have "\<not> (of_nat (k + length (x # es)) :: ulong) < of_nat k"
    and "(of_nat (k + length (x # es)) :: ulong) \<noteq> of_nat k"
    using Cons.prems by (subst of_nat_ulong_less_iff of_nat_ulong_eq_iff; simp)+
  moreover have "map_put (of_nat (Suc k + length es)) e (number (Suc k) es) = number (Suc k) (es @ [e])"
    using Cons.prems by (intro Cons.IH) simp
  ultimately show ?case by simp
qed

lemma map_below_number:
  "k + length es \<le> 2 ^ 64 \<Longrightarrow> map_below i (number k es) = number k (take (unat i - k) es)"
proof (induction es arbitrary: k)
  case Nil
  show ?case by (simp add: map_below_def)
next
  case (Cons x es)
  have "(of_nat k :: ulong) < i \<longleftrightarrow> k < unat i"
    using Cons.prems by (simp add: word_less_nat_alt)
  moreover have "map_below i (number (Suc k) es) = number (Suc k) (take (unat i - Suc k) es)"
    using Cons.prems by (intro Cons.IH) simp
  ultimately show ?case
    by (cases "k < unat i") (auto simp: map_below_def take_Cons' )
qed

lemma nth_number: "n < length es \<Longrightarrow> number k es ! n = (of_nat (k + n), es ! n)"
  by (simp add: number_def)

lemma map_erase_number:
  assumes "k + length es \<le> 2 ^ 64" "unat i < k"
  shows "map_erase i (number k es) = number k es"
proof -
  have "fst (number k es ! n) \<noteq> i" if n: "n < length es" for n
  proof -
    have "unat (of_nat (k + n) :: ulong) = k + n"
      using assms n by (intro unat_of_nat_ulong) linarith
    then have "(of_nat (k + n) :: ulong) \<noteq> i"
      using assms(2) by (metis not_add_less1)
    then show ?thesis
      by (simp only: nth_number [OF n] fst_conv not_False_eq_True)
  qed
  then have "fst p \<noteq> i" if "p \<in> set (number k es)" for p
    using that by (fastforce simp only: in_set_conv_nth length_number)
  then show ?thesis
    unfolding map_erase_def by (intro filter_True) force
qed

lemma make_clone_entry_of:
  "length bs < 0x80000000 \<Longrightarrow> make_clone (entry_of t v bs) = Inr (entry_of t v bs)"
  by (simp add: make_clone_def fresh_cursor cursor_simps) (simp add: entry_of_def fresh_cursor)

section \<open>The operations on the list\<close>

lemma log_start_rep [simp]: "k < 2 ^ 64 \<Longrightarrow> log_start (log_rep k d es) = k"
  by (simp add: log_start_def log_rep_def)

lemma log_list_rep [simp]: "log_list (log_rep k d es) = es"
  by (simp add: log_list_def log_rep_def)

lemma log_dummy_rep [simp]: "log_dummy (log_rep k d es) = d"
  by (simp add: log_dummy_def log_rep_def)

lemma log_inv_rep:
  "log_inv (log_rep k d es) \<longleftrightarrow>
     1 \<le> k \<and> k + length es < 2 ^ 64 \<and> stored_entry d \<and> list_all stored_entry es"
  if "k < 2 ^ 64"
  using that by (auto simp: log_inv_def)

lemma log_invE:
  assumes "log_inv s"
  obtains k d es where "s = log_rep k d es" "1 \<le> k" "k + length es < 2 ^ 64"
    "stored_entry d" "list_all stored_entry es" "log_start s = k" "log_list s = es" "log_dummy s = d"
  using that [of "log_start s" "log_dummy s" "log_list s"] assms unfolding log_inv_def
  by (elim conjE) iprover

lemma next_slot_rep: "1 \<le> k \<Longrightarrow> next_slot (log_rep k d es) = of_nat (k + length es)"
  by (simp add: next_slot_def log_rep_def)

lemma find_rep:
  assumes "1 \<le> k" "k + length es < 2 ^ 64"
  shows "map_of (ls_logs (log_rep k d es)) i =
    (if i = 0 then Some d
     else if k \<le> unat i \<and> unat i < k + length es then Some (es ! (unat i - k)) else None)"
  using assms by (auto simp: log_rep_def map_of_number)


lemma make_clone_stored [simp]: "stored_entry e \<Longrightarrow> make_clone e = Inr e"
  by (erule stored_entryE) (metis (no_types) entry_of_simps(4) make_clone_entry_of)


lemma find_or_dummy_rep:
  assumes "1 \<le> k" "k + length es < 2 ^ 64"
  shows "find_or_dummy (log_rep k d es) i =
    Inr (if k \<le> unat i \<and> unat i < k + length es then es ! (unat i - k) else d)"
  using assms by (simp add: find_or_dummy_def find_rep)

lemma entry_at_rep:
  assumes "1 \<le> k" "k + length es < 2 ^ 64" "stored_entry d" "list_all stored_entry es"
  shows "entry_at i (log_rep k d es) =
    Inr (if k \<le> unat i \<and> unat i < k + length es then es ! (unat i - k) else d)"
proof -
  have "stored_entry (es ! n)" if "n < length es" for n
    using assms that by (simp add: list_all_length)
  with assms show ?thesis
    by (simp add: entry_at_def find_or_dummy_rep less_diff_conv2)
qed

lemma term_at_rep:
  assumes "1 \<le> k" "k + length es < 2 ^ 64"
  shows "term_at i (log_rep k d es) =
    Inr (le_term (if k \<le> unat i \<and> unat i < k + length es then es ! (unat i - k) else d))"
  using assms by (simp add: term_at_def find_or_dummy_rep)

lemma last_entry_rep:
  assumes "1 \<le> k" "k + length es < 2 ^ 64" "stored_entry d" "list_all stored_entry es"
  shows "last_entry (log_rep k d es) = Inr (last (d # es))"
proof -
  have "next_slot (log_rep k d es) - 1 = of_nat (k + length es - 1)"
    using assms by (simp add: next_slot_rep of_nat_diff)
  moreover have "unat (of_nat (k + length es - 1) :: ulong) = k + length es - 1"
    using assms by (intro unat_of_nat_ulong) linarith
  moreover have "es \<noteq> [] \<Longrightarrow> stored_entry (last es)"
    using assms by (simp add: list_all_iff)
  ultimately show ?thesis
    using assms by (cases es rule: rev_cases) (auto simp: last_entry_def find_or_dummy_rep)
qed

lemma append_log_rep:
  assumes "1 \<le> k" "k + length es < 2 ^ 64" "make_clone e = Inr e'"
  shows "append_log e (log_rep k d es) = (Inr (of_nat (k + length es)), log_rep k d (es @ [e']))"
proof -
  have nz: "(of_nat (k + length es) :: ulong) \<noteq> 0"
    using of_nat_ulong_eq_iff [of "k + length es" 0] assms by simp
  have "map_put (of_nat (k + length es)) e' ((0, d) # number k es) = (0, d) # number k (es @ [e'])"
    using nz map_put_number [of k es e'] assms by simp
  then show ?thesis
    using assms by (simp add: append_log_def log_rep_def run_simps)
qed

lemma map_below_rep:
  assumes "1 \<le> unat i" "k + length es < 2 ^ 64"
  shows "map_below i ((0, d) # number k es) = (0, d) # number k (take (unat i - k) es)"
proof -
  have "0 < i" using assms by (simp add: word_less_nat_alt)
  then show ?thesis
    using map_below_number [of k es i] assms by (simp add: map_below_def)
qed

lemma write_at_rep:
  assumes "1 \<le> k" "k + length es < 2 ^ 64" "make_clone e = Inr e'"
    and "k \<le> unat i" "unat i \<le> k + length es"
  shows "write_at i e (log_rep k d es) = (Inr (), log_rep k d (take (unat i - k) es @ [e']))"
proof -
  let ?es = "take (unat i - k) es"
  have "k + length ?es = unat i"
    using assms by simp
  then have i: "i = of_nat (k + length ?es)" "i \<noteq> 0"
    using assms by (simp_all only: of_nat_unat ucast_id) auto
  have "map_put i e' (number k ?es) = number k (?es @ [e'])"
    using map_put_number [of k ?es e'] assms i(1) by (simp add: min_def split: if_splits)
  then have "map_put i e' ((0, d) # number k ?es) = (0, d) # number k (?es @ [e'])"
    using i(2) by simp
  then show ?thesis
    using assms map_below_rep [of i k es d]
    by (simp add: write_at_def log_rep_def run_simps)
qed

lemma map_erase_rep:
  assumes "1 \<le> k" "k + length es < 2 ^ 64"
  shows "map_erase (of_nat k) ((0, d) # number k es) = (0, d) # number (Suc k) (tl es)"
proof -
  have nz: "(of_nat k :: ulong) \<noteq> 0"
    using of_nat_ulong_eq_iff [of k 0] assms by simp
  show ?thesis
  proof (cases es)
    case Nil
    then show ?thesis using nz by (simp add: map_erase_def)
  next
    case (Cons e es')
    have "map_erase (of_nat k) (number (Suc k) es') = number (Suc k) es'"
      using assms Cons by (intro map_erase_number) simp_all
    then show ?thesis using nz Cons by (simp add: map_erase_def)
  qed
qed

lemma fold_map_erase_rep:
  assumes "k \<le> n" "1 \<le> k" "k + length es < 2 ^ 64" "n < 2 ^ 64"
  shows "fold map_erase (map of_nat [k ..< n]) ((0, d) # number k es) =
         (0, d) # number n (drop (n - k) es)"
  using assms
proof (induction k arbitrary: es rule: inc_induct)
  case base
  then show ?case by simp
next
  case (step k)
  have len: "Suc k + length (tl es) < 2 ^ 64"
    using step.prems step.hyps by (cases es) simp_all
  have erase: "map_erase (of_nat k) ((0, d) # number k es) = (0, d) # number (Suc k) (tl es)"
    using step.prems by (intro map_erase_rep) simp_all
  have upt: "[k ..< n] = k # [Suc k ..< n]"
    using step.hyps by (intro upt_conv_Cons) simp
  have drp: "drop (n - Suc k) (tl es) = drop (n - k) es"
    using step.hyps by (metis Suc_diff_Suc drop_Suc)
  have "fold map_erase (map of_nat [Suc k ..< n]) ((0, d) # number (Suc k) (tl es)) =
      (0, d) # number n (drop (n - Suc k) (tl es))"
    using len step.prems by (intro step.IH) simp_all
  then show ?case
    by (simp only: upt list.map fold_simps erase drp)
qed

lemma fold_update_logs:
  "fold (\<lambda>ii s. s\<lparr>ls_logs := g ii (ls_logs s)\<rparr>) is s = s\<lparr>ls_logs := fold g is (ls_logs s)\<rparr>"
  by (induction "is" arbitrary: s) simp_all

lemma compact_rep:
  assumes "1 \<le> k" "k + length es < 2 ^ 64" "k \<le> Suc (unat i)" "Suc (unat i) < 2 ^ 64"
  shows "compact i (log_rep k d es) = (Inr True, log_rep (Suc (unat i)) d (drop (Suc (unat i) - k) es))"
proof -
  have ne: "i \<noteq> - 1"
  proof
    assume "i = - 1"
    then have "unat i = unat (- 1 :: ulong)" by (rule arg_cong)
    also have "\<dots> = 2 ^ 64 - 1" by (simp add: unsigned_minus_1_eq_mask mask_eq_exp_minus_1)
    finally show False using assms(4) by simp
  qed
  have suc: "unat (i + 1) = Suc (unat i)"
    using unat_of_nat_ulong [OF assms(4)] by (simp add: add.commute)
  have "ulong_range (of_nat k) (i + 1) = map of_nat [k ..< Suc (unat i)]"
    using assms by (simp add: ulong_range_def suc del: upt_Suc)
  then show ?thesis
    using ne fold_map_erase_rep [OF assms(3,1,2,4), of d]
    by (simp add: compact_def run_simps run_forM_modM fold_update_logs log_rep_def add.commute
             del: upt_Suc)
qed

lemma log_entries_rep:
  assumes "1 \<le> k" "k + length es < 2 ^ 64" "list_all stored_entry es"
    and "k \<le> unat a" "unat b \<le> k + length es"
  shows "log_entries a b (log_rep k d es) = Inr (take (unat b - unat a) (drop (unat a - k) es))"
proof -
  let ?f = "\<lambda>i. es ! (unat i - k)"
  have "stored_entry (es ! n)" if "n < length es" for n
    using assms that by (simp add: list_all_length)
  then have "log_entries a b (log_rep k d es) = Inr (map ?f (ulong_range a b))"
    unfolding log_entries_def
    using assms by (intro mapR_Inr) (auto simp: set_ulong_range find_rep word_le_nat_alt word_less_nat_alt)
  moreover have "map ?f (ulong_range a b) = take (unat b - unat a) (drop (unat a - k) es)"
  proof (intro nth_equalityI)
    fix n assume "n < length (map ?f (ulong_range a b))"
    then have n: "unat a + n < unat b" by simp
    then have "unat (of_nat (unat a + n) :: ulong) = unat a + n"
      by (intro unat_of_nat_bound [of _ b]) simp
    then show "map ?f (ulong_range a b) ! n = take (unat b - unat a) (drop (unat a - k) es) ! n"
      using n assms by (simp add: ulong_range_def)
  qed (use assms in simp)
  ultimately show ?thesis by simp
qed



text \<open>A pack and what unpacking it puts back.\<close>

definition packable :: "log_entry \<Rightarrow> bool" where
  "packable e \<longleftrightarrow> (\<exists>bs. le_buff e = Some (fresh_buf bs) \<and> 9 + length bs < 0x80000000) \<and>
     val_type_ok (le_val_type e)"

definition entry_bytes :: "log_entry \<Rightarrow> bytes" where
  "entry_bytes e = log_entry_bytes (le_term e) (le_val_type e)
     (case le_buff e of None \<Rightarrow> [] | Some b \<Rightarrow> bdata b)"

definition pack_entry_bytes :: "log_entry \<Rightarrow> bytes" where
  "pack_entry_bytes e = int_bytes (of_nat (length (entry_bytes e))) @ entry_bytes e"

definition pack_bytes :: "log_entry list \<Rightarrow> bytes" where
  "pack_bytes es = int_bytes (of_nat (length es)) @ concat (map pack_entry_bytes es)"

lemma packable_stored: "packable e \<Longrightarrow> stored_entry e"
  by (auto simp: packable_def stored_entry_def)

lemma packableE:
  assumes "packable e"
  obtains bs where "e = entry_of (le_term e) (le_val_type e) bs" "9 + length bs < 0x80000000"
    "val_type_ok (le_val_type e)" "entry_bytes e = log_entry_bytes (le_term e) (le_val_type e) bs"
  using assms
  by (cases e) (auto simp: packable_def entry_of_def log_entry_new_def entry_bytes_def fresh_buf_def)

lemma packable_serialize: "packable e \<Longrightarrow> log_entry_serialize e = Inr (fresh_buf (entry_bytes e))"
  by (erule packableE) (metis log_entry_serialize_eq)

lemma packable_deserialize: "packable e \<Longrightarrow> log_entry_deserialize (fresh_buf (entry_bytes e)) = Inr e"
  by (erule packableE) (metis log_entry_deserialize_eq add_lessD1 add.commute)

lemma packable_bytes_less: "packable e \<Longrightarrow> length (entry_bytes e) < 0x80000000"
  by (erule packableE) simp

lemma map_put_present:
  "map_sorted m \<Longrightarrow> map_of m k = Some v \<Longrightarrow> map_put k v m = m"
proof (induction k v m rule: map_put.induct)
  case (2 k v k' v' m)
  then show ?case
    by (auto simp: map_sorted_def dest!: map_of_SomeD) (metis fst_conv image_eqI order.asym)
qed simp

lemma map_sorted_number:
  "k + length es \<le> 2 ^ 64 \<Longrightarrow> map_sorted (number k es)"
proof -
  assume b: "k + length es \<le> 2 ^ 64"
  have "sorted_wrt (<) (map (of_nat :: nat \<Rightarrow> ulong) [k ..< k + length es])"
    unfolding sorted_wrt_map
    by (rule sorted_wrt_mono_rel [OF _ sorted_wrt_upt]) (use b in \<open>auto simp: of_nat_ulong_less_iff\<close>)
  then show ?thesis by (simp add: map_sorted_def number_def)
qed

lemma map_sorted_rep:
  assumes "1 \<le> k" "k + length es < 2 ^ 64"
  shows "map_sorted (ls_logs (log_rep k d es))"
proof -
  have "0 < fst p" if "p \<in> set (number k es)" for p
  proof -
    obtain n where n: "n < length es" "p = number k es ! n"
      using \<open>p \<in> set (number k es)\<close> by (metis in_set_conv_nth length_number)
    have "(of_nat 0 :: ulong) < of_nat (k + n)"
      using assms n by (subst of_nat_ulong_less_iff) simp_all
    then show ?thesis using n by (simp add: nth_number del: of_nat_add)
  qed
  then show ?thesis
    using map_sorted_number [of k es] assms by (auto simp: log_rep_def map_sorted_def)
qed

lemma pack_entries_rep:
  assumes "1 \<le> k" "k + length es < 2 ^ 64" "list_all packable es" "set is \<subseteq> {i. k \<le> unat i \<and> unat i < k + length es}"
  shows "pack_entries is (log_rep k d es) =
         (Inr (map (\<lambda>i. fresh_buf (entry_bytes (es ! (unat i - k)))) is), log_rep k d es)"
  using assms(4)
proof (induction "is")
  case Nil
  show ?case by (simp add: run_simps)
next
  case (Cons i "is")
  let ?e = "es ! (unat i - k)"
  have i: "map_of (ls_logs (log_rep k d es)) i = Some ?e" and p: "packable ?e"
    using Cons.prems assms by (auto simp: find_rep list_all_length)
  have "log_rep k d es\<lparr>ls_logs := map_put i (rewind ?e) (ls_logs (log_rep k d es))\<rparr> = log_rep k d es"
    using i p map_sorted_rep [OF assms(1,2), of d] by (simp add: map_put_present packable_stored)
  with Cons i p show ?case
    by (simp add: run_simps pack_entry_def packable_serialize)
qed

lemma foldR_pack:
  "foldR (\<lambda>bb b. rbind (put_int (of_nat (bsize bb)) b) (put_buf bb)) (map (\<lambda>e. fresh_buf (entry_bytes e)) es)
     (cursor pre (replicate (length (concat (map pack_entry_bytes es)) + n) 0)) =
   Inr (cursor (pre @ concat (map pack_entry_bytes es)) (replicate n 0))"
proof (induction es arbitrary: pre)
  case (Cons e es)
  have "length (concat (map pack_entry_bytes (e # es))) + n =
        4 + (length (entry_bytes e) + (length (concat (map pack_entry_bytes es)) + n))"
    by (simp add: pack_entry_bytes_def)
  then show ?case
    using Cons [of "pre @ pack_entry_bytes e"]
    by (simp add: cursor_simps pack_entry_bytes_def fresh_buf_def bsize_def brest_def)
qed simp

lemma length_pack_bytes:
  "length (pack_bytes es) = 4 + length es * 4 + sum_list (map (\<lambda>e. length (entry_bytes e)) es)"
  by (simp add: pack_bytes_def pack_entry_bytes_def length_concat comp_def sum_list_addf sum_list_triv)


lemma unat_add_of_nat: "unat (a :: ulong) + n < 2 ^ 64 \<Longrightarrow> unat (a + of_nat n) = unat a + n"
  using unat_of_nat_ulong [of "unat a + n"] by simp

lemma pack_rep:
  assumes k: "1 \<le> k" "k + length es < 2 ^ 64" "list_all packable es"
    and a: "k \<le> unat a" "unat a + n \<le> k + length es"
    and sl: "sl = take n (drop (unat a - k) es)" and len: "length (pack_bytes sl) < 0x80000000"
  shows "pack a (of_nat n) (log_rep k d es) = (Inr (cursor (pack_bytes sl) []), log_rep k d es)"
proof -
  have lsl: "length sl = n" using a sl by simp
  have n: "n < 0x80000000" using len lsl by (simp add: length_pack_bytes)
  have range: "ulong_range a (a + of_nat n) = map of_nat [unat a ..< unat a + n]"
    using a k by (simp add: ulong_range_def unat_add_of_nat)
  have mid: "unat (of_nat m :: ulong) = m" if "m < unat a + n" for m
    using that a k by (intro unat_of_nat_ulong) linarith
  have "pack_entries (map of_nat [unat a ..< unat a + n]) (log_rep k d es) =
        (Inr (map (\<lambda>i. fresh_buf (entry_bytes (es ! (unat i - k))))
              (map (of_nat :: nat \<Rightarrow> ulong) [unat a ..< unat a + n])), log_rep k d es)"
    using a by (intro pack_entries_rep [OF k]) (auto simp: mid)
  also have "map (\<lambda>i. fresh_buf (entry_bytes (es ! (unat i - k)))) (map (of_nat :: nat \<Rightarrow> ulong) [unat a ..< unat a + n]) =
        map (\<lambda>e. fresh_buf (entry_bytes e)) sl"
    using a lsl by (intro nth_equalityI) (auto simp: mid sl simp del: of_nat_add)
  finally have entries: "pack_entries (map of_nat [unat a ..< unat a + n]) (log_rep k d es) =
        (Inr (map (\<lambda>e. fresh_buf (entry_bytes e)) sl), log_rep k d es)" .
  let ?sz = "4 + n * 4 + sum_list (map (\<lambda>e. length (entry_bytes e)) sl)"
  have "unat (of_nat ?sz :: ulong) = ?sz"
    using len lsl by (intro unat_of_nat_ulong) (simp add: length_pack_bytes)
  then have size: "unat (4 + of_nat n * 4 + of_nat (sum_list (map (\<lambda>e. length (entry_bytes e)) sl)) :: ulong) = ?sz"
    by (simp only: of_nat_add of_nat_mult of_nat_numeral)
  let ?body = "length (concat (map pack_entry_bytes sl)) + 0"
  have body: "?sz = 4 + ?body"
    using lsl by (simp add: pack_entry_bytes_def length_concat comp_def sum_list_addf sum_list_triv)
  have "?sz < 0x80000000"
    using len lsl by (simp add: length_pack_bytes)
  then have alloc: "alloc ?sz = Inr (fresh_buf (replicate ?sz 0))"
    by (simp add: alloc_def fresh_buf_def)
  have head: "put_int (of_nat n) (set_pos 0 (fresh_buf (replicate ?sz 0))) =
      Inr (cursor (int_bytes (of_nat n)) (replicate ?body 0))"
    unfolding body set_pos_0 fresh_buf_simps fresh_cursor by (simp add: cursor_simps)
  have sizes: "map (bsize \<circ> (\<lambda>e. fresh_buf (entry_bytes e))) sl = map (\<lambda>e. length (entry_bytes e)) sl"
    by (simp add: bsize_def fresh_buf_def)
  show ?thesis
    using foldR_pack [of sl "int_bytes (of_nat n)" 0]
    by (simp only: pack_def run_simps int32_to_ulong_of_nat [OF n] range entries size alloc head
        prod.case sum.case list.map_comp sizes rbind_simps)
       (simp add: pack_bytes_def lsl)
qed


lemma apply_pack_step:
  assumes "packable e"
  shows "rbind (get_int (cursor pre (pack_entry_bytes e @ rest))) (\<lambda>(n, pk).
           rbind (alloc (int32_to_size n)) (\<lambda>buf_local.
           rbind (get_into buf_local pk) (\<lambda>(buf_local, pk).
           rbind (log_entry_deserialize buf_local) (\<lambda>entry. Inr (entry, pk))))) =
         Inr (e, cursor (pre @ pack_entry_bytes e) rest)"
proof -
  have "int32_to_size (of_nat (length (entry_bytes e))) = length (entry_bytes e)"
    using packable_bytes_less [OF assms] by (intro int32_to_size_of_nat) simp
  then show ?thesis
    using packable_bytes_less [OF assms] packable_deserialize [OF assms]
    by (simp add: pack_entry_bytes_def cursor_simps)
qed

lemma apply_pack_entries_rep:
  assumes "1 \<le> m" "m + length fs + length es < 2 ^ 64" "list_all packable es"
  shows "apply_pack_entries (map of_nat [m + length fs ..< m + length fs + length es])
           (cursor pre (concat (map pack_entry_bytes es) @ rest)) (s\<lparr>ls_logs := (0, d) # number m fs\<rparr>) =
         (Inr (), s\<lparr>ls_logs := (0, d) # number m (fs @ es)\<rparr>)"
  using assms(2,3)
proof (induction es arbitrary: fs pre)
  case Nil
  show ?case by (simp add: run_simps)
next
  case (Cons e es)
  let ?i = "m + length fs"
  have "[?i ..< ?i + length (e # es)] = ?i # [m + length (fs @ [e]) ..< m + length (fs @ [e]) + length es]"
    using upt_conv_Cons [of ?i "?i + length (e # es)"] by (simp del: upt_Suc)
  moreover have "map_put (of_nat ?i) e ((0, d) # number m fs) = (0, d) # number m (fs @ [e])"
  proof -
    have "(of_nat ?i :: ulong) \<noteq> of_nat 0"
      using assms(1) Cons.prems by (subst of_nat_ulong_eq_iff) simp_all
    then show ?thesis
      using Cons.prems map_put_number [of m fs e] by (simp del: of_nat_add)
  qed
  moreover have "apply_pack_entries (map of_nat [m + length (fs @ [e]) ..< m + length (fs @ [e]) + length es])
           (cursor (pre @ pack_entry_bytes e) (concat (map pack_entry_bytes es) @ rest))
           (s\<lparr>ls_logs := (0, d) # number m (fs @ [e])\<rparr>) =
         (Inr (), s\<lparr>ls_logs := (0, d) # number m ((fs @ [e]) @ es)\<rparr>)"
    using Cons.prems by (intro Cons.IH) simp_all
  moreover have "packable e" using Cons.prems by simp
  ultimately show ?case
    using apply_pack_step [of e pre "concat (map pack_entry_bytes es) @ rest"]
    by (simp add: run_simps del: of_nat_add upt_Suc)
qed

lemma apply_pack_rep:
  assumes "1 \<le> unat a" "unat a + length es < 2 ^ 64" "list_all packable es" "es \<noteq> []"
    and "length es < 0x80000000"
  shows "apply_pack a (cursor (pack_bytes es) []) (log_rep j d []) = (Inr (), log_rep (unat a) d es)"
proof -
  obtain e es' where es: "es = e # es'" using assms(4) by (cases es) auto
  have a: "unat (a + of_nat (length es)) = unat a + length es"
    using assms(2) by (rule unat_add_of_nat)
  have n: "int32_to_ulong (of_nat (length es)) = of_nat (length es)"
    using assms(5) by (rule int32_to_ulong_of_nat)
  have run: "apply_pack_entries (map of_nat [unat a ..< unat a + length es])
      (cursor (int_bytes (of_nat (length es))) (concat (map pack_entry_bytes es))) (log_rep j d []) =
    (Inr (), log_rep j d []\<lparr>ls_logs := (0, d) # number (unat a) es\<rparr>)"
    using apply_pack_entries_rep [where m = "unat a" and fs = "[]" and es = es and rest = "[]"
        and pre = "int_bytes (of_nat (length es))" and s = "log_rep j d []" and d = d]
      assms by (simp add: log_rep_def)
  have "upper_bound 0 ((0, d) # number (unat a) es) = Some (a, e)"
    using assms(1) by (auto simp: upper_bound_def es word_less_nat_alt)
  then show ?thesis
    using run
    by (simp add: apply_pack_def run_simps ulong_range_def a n pack_bytes_def cursor_simps fresh_cursor)
       (simp add: log_rep_def)
qed

section \<open>The contract of a log\<close>

text \<open>
  What the server relies on: the operations in terms of the start index and the list of
  entries. From the laws, a run of appends adds the entries in order, and an overwrite
  followed by appends replaces everything from the overwritten index on.
\<close>

locale raft_log =
  fixes inv :: "'s \<Rightarrow> bool"
    and start :: "'s \<Rightarrow> nat"
    and entries :: "'s \<Rightarrow> log_entry list"
    and slot :: "'s \<Rightarrow> ulong"
    and append :: "log_entry \<Rightarrow> ('s, ulong) sx"
    and overwrite :: "ulong \<Rightarrow> log_entry \<Rightarrow> ('s, unit) sx"
  assumes bounds: "inv s \<Longrightarrow> 1 \<le> start s \<and> start s + length (entries s) < 2 ^ 64"
    and slot_law: "inv s \<Longrightarrow> slot s = of_nat (start s + length (entries s))"
    and append_law: "inv s \<Longrightarrow> make_clone e = Inr e' \<Longrightarrow>
      Suc (start s + length (entries s)) < 2 ^ 64 \<Longrightarrow>
      \<exists>t. append e s = (Inr (slot s), t) \<and> inv t \<and> start t = start s \<and> entries t = entries s @ [e']"
    and overwrite_law: "inv s \<Longrightarrow> make_clone e = Inr e' \<Longrightarrow> start s \<le> unat i \<Longrightarrow>
      unat i \<le> start s + length (entries s) \<Longrightarrow> Suc (unat i) < 2 ^ 64 \<Longrightarrow>
      \<exists>t. overwrite i e s = (Inr (), t) \<and> inv t \<and> start t = start s \<and>
          entries t = take (unat i - start s) (entries s) @ [e']"
begin

lemma unat_slot: "inv s \<Longrightarrow> unat (slot s) = start s + length (entries s)"
  using bounds [of s] by (simp add: slot_law del: of_nat_add)

lemma append_all:
  assumes "inv s" "list_all stored_entry es" "start s + length (entries s) + length es < 2 ^ 64"
  shows "\<exists>t. forM es (\<lambda>e. bindM (append e) (\<lambda>_. ret ())) s = (Inr (), t) \<and> inv t \<and>
           start t = start s \<and> entries t = entries s @ es"
  using assms
proof (induction es arbitrary: s)
  case Nil
  then show ?case by (simp add: run_simps)
next
  case (Cons e es)
  obtain t where t: "append e s = (Inr (slot s), t)" "inv t" "start t = start s"
    "entries t = entries s @ [e]"
    using append_law [of s e e] Cons.prems by auto
  from Cons.IH [of t] t Cons.prems show ?case
    by (simp add: run_simps)
qed

lemma replace_from:
  assumes "inv s" "list_all stored_entry (e # es)" "start s \<le> unat i"
    and "unat i \<le> start s + length (entries s)" "unat i + length (e # es) < 2 ^ 64"
  shows "\<exists>t. bindM (overwrite i e) (\<lambda>_. forM es (\<lambda>e. bindM (append e) (\<lambda>_. ret ()))) s = (Inr (), t) \<and>
           inv t \<and> start t = start s \<and> entries t = take (unat i - start s) (entries s) @ e # es"
proof -
  obtain t where t: "overwrite i e s = (Inr (), t)" "inv t" "start t = start s"
    "entries t = take (unat i - start s) (entries s) @ [e]"
    using overwrite_law [of s e e i] assms by auto
  then have "start t + length (entries t) + length es < 2 ^ 64"
    using assms by simp
  from append_all [OF t(2) _ this] t assms show ?thesis
    by (auto simp: run_simps)
qed

end

lemma copy_fresh: "copy b = Inr b' \<Longrightarrow> \<exists>bs. b' = fresh_buf bs \<and> length bs < 0x80000000"
  by (auto simp: copy_def cursor_simps rbind_eq_Inr_iff split: if_splits)

lemma make_clone_Inr_stored: "make_clone e = Inr e' \<Longrightarrow> stored_entry e'"
  by (auto simp: make_clone_def stored_entry_def log_entry_new_def rbind_eq_Inr_iff dest: copy_fresh)

interpretation in_memory: raft_log log_inv log_start log_list next_slot append_log write_at
proof
  fix s assume "log_inv s"
  then show "1 \<le> log_start s \<and> log_start s + length (log_list s) < 2 ^ 64"
    by (simp add: log_inv_def)
next
  fix s assume "log_inv s"
  then show "next_slot s = of_nat (log_start s + length (log_list s))"
    by (elim log_invE) (simp add: next_slot_rep)
next
  fix s e e'
  assume s: "log_inv s" and e: "make_clone e = Inr e'"
    and b: "Suc (log_start s + length (log_list s)) < 2 ^ 64"
  from s b show "\<exists>t. append_log e s = (Inr (next_slot s), t) \<and> log_inv t \<and>
      log_start t = log_start s \<and> log_list t = log_list s @ [e']"
    by (elim log_invE)
       (use make_clone_Inr_stored [OF e] in
         \<open>auto simp: append_log_rep [OF _ _ e] next_slot_rep log_inv_rep\<close>)
next
  fix s e e' and i :: ulong
  assume s: "log_inv s" and e: "make_clone e = Inr e'"
    and i: "log_start s \<le> unat i" "unat i \<le> log_start s + length (log_list s)" "Suc (unat i) < 2 ^ 64"
  from s i show "\<exists>t. write_at i e s = (Inr (), t) \<and> log_inv t \<and> log_start t = log_start s \<and>
      log_list t = take (unat i - log_start s) (log_list s) @ [e']"
    by (elim log_invE)
       (use make_clone_Inr_stored [OF e] in
         \<open>auto simp: write_at_rep [OF _ _ e] log_inv_rep min_def list_all_iff dest: in_set_takeD\<close>)
qed

lemma stored_dummy [simp]: "stored_entry dummy_entry"
  by (simp add: dummy_entry_def stored_entry_of)

lemma log_store_new_rep: "log_store_new = log_rep 1 dummy_entry []"
  by (simp add: log_store_new_def log_rep_def)

lemma log_inv_new: "log_inv log_store_new"
  unfolding log_store_new_rep by (subst log_inv_rep) simp_all

lemma log_inv_compact:
  assumes "log_inv s" "log_start s \<le> Suc (unat i)" "Suc (unat i) < 2 ^ 64"
  shows "\<exists>t. compact i s = (Inr True, t) \<and> log_inv t \<and> log_start t = Suc (unat i) \<and>
             log_list t = drop (Suc (unat i) - log_start s) (log_list s)"
  using assms
  by (elim log_invE) (auto simp: compact_rep log_inv_rep list_all_iff dest: in_set_dropD)

end
