(* ===== verification/Application.thy ===== *)
theory Application
  imports Messages Log_Store
begin

text \<open>
  The two objects of \<^verbatim>\<open>app_impl\<close> a server is given besides the log store: the echo state
  machine (\<^verbatim>\<open>echo_state_machine.hxx\<close>) and the manager of the persistent state
  (\<^verbatim>\<open>in_memory_state_mgr.hxx\<close>). What the state machine prints is its observable behaviour
  and is kept as a trace of events.
\<close>

section \<open>The echo state machine\<close>

datatype sm_event =
    Pre_commit ulong cstring
  | Commit ulong cstring
  | Rollback ulong cstring
  | Save_snapshot_data ulong cstring
  | Apply_snapshot ulong
  | Create_snapshot ulong

record echo_state_machine =
  em_last_committed_idx :: ulong
  em_last_snapshot :: "snapshot option"
  em_trace :: "sm_event list"

type_synonym 'a machine_op = "(echo_state_machine, 'a) sx"

definition echo_state_machine_new :: echo_state_machine where
  "echo_state_machine_new =
     \<lparr>em_last_committed_idx = 0, em_last_snapshot = None, em_trace = []\<rparr>"

definition sm_print :: "sm_event \<Rightarrow> unit machine_op" where
  "sm_print e = modM (\<lambda>m. m\<lparr>em_trace := em_trace m @ [e]\<rparr>)"

text \<open>
  The message is read with \<^verbatim>\<open>get_str\<close> and cut after 64 bytes. A payload with no terminating
  zero, or an empty message, makes \<^verbatim>\<open>get_str\<close> return a null pointer, from which no
  \<^verbatim>\<open>std::string\<close> can be built.
\<close>

definition sm_pre_commit :: "ulong \<Rightarrow> buffer \<Rightarrow> unit machine_op" where
  "sm_pre_commit log_idx data =
     bindM (liftR (get_string data)) (\<lambda>(msg, _).
     sm_print (Pre_commit log_idx (take 64 msg)))"

definition sm_commit :: "ulong \<Rightarrow> buffer \<Rightarrow> unit machine_op" where
  "sm_commit log_idx data =
     bindM (liftR (get_string data)) (\<lambda>(msg, _).
     bindM (sm_print (Commit log_idx (take 64 msg))) (\<lambda>_.
     modM (\<lambda>m. m\<lparr>em_last_committed_idx := log_idx\<rparr>)))"

definition sm_rollback :: "ulong \<Rightarrow> buffer \<Rightarrow> unit machine_op" where
  "sm_rollback log_idx data =
     bindM (liftR (get_string data)) (\<lambda>(msg, _). sm_print (Rollback log_idx msg))"

definition sm_save_snapshot_data :: "snapshot \<Rightarrow> ulong \<Rightarrow> buffer \<Rightarrow> unit machine_op" where
  "sm_save_snapshot_data s offset data =
     bindM (liftR (get_string data)) (\<lambda>(msg, _). sm_print (Save_snapshot_data offset msg))"

text \<open>The snapshot is cloned through its serialized form.\<close>

definition clone_snapshot :: "snapshot \<Rightarrow> snapshot res" where
  "clone_snapshot s =
     rbind (snapshot_serialize s) (\<lambda>snp_buf.
     rbind (snapshot_deserialize snp_buf) (\<lambda>(s', _). Inr s'))"

definition sm_apply_snapshot :: "snapshot \<Rightarrow> bool machine_op" where
  "sm_apply_snapshot s =
     bindM (sm_print (Apply_snapshot (sn_last_log_term s))) (\<lambda>_.
     bindM (liftR (clone_snapshot s)) (\<lambda>s'.
     bindM (modM (\<lambda>m. m\<lparr>em_last_snapshot := Some s'\<rparr>)) (\<lambda>_.
     ret True)))"

definition sm_read_snapshot_data :: "snapshot \<Rightarrow> ulong \<Rightarrow> buffer \<Rightarrow> int32" where
  "sm_read_snapshot_data s offset data = 0"

definition sm_last_snapshot :: "echo_state_machine \<Rightarrow> snapshot option" where
  "sm_last_snapshot m = em_last_snapshot m"

definition sm_last_commit_index :: "echo_state_machine \<Rightarrow> ulong" where
  "sm_last_commit_index m = em_last_committed_idx m"

text \<open>\<^verbatim>\<open>create_snapshot\<close> up to the call of \<^verbatim>\<open>when_done(true, nullptr)\<close>, which the server makes.\<close>

definition sm_create_snapshot :: "snapshot \<Rightarrow> unit machine_op" where
  "sm_create_snapshot s =
     bindM (sm_print (Create_snapshot (sn_last_log_term s))) (\<lambda>_.
     bindM (liftR (clone_snapshot s)) (\<lambda>s'.
     modM (\<lambda>m. m\<lparr>em_last_snapshot := Some s'\<rparr>)))"

section \<open>The state manager\<close>

record state_mgr =
  mg_my_id :: int32
  mg_my_endpoint :: cstring
  mg_my_srv_config :: srv_config
  mg_saved_config :: cluster_config
  mg_saved_state :: "srv_state option"

type_synonym 'a mgr_op = "(state_mgr, 'a) sx"

definition state_mgr_new :: "int32 \<Rightarrow> cstring \<Rightarrow> state_mgr" where
  "state_mgr_new srv_id endpoint =
     (let my_srv_config = \<lparr>sc_id = srv_id, sc_endpoint = endpoint\<rparr> in
      \<lparr>mg_my_id = srv_id, mg_my_endpoint = endpoint, mg_my_srv_config = my_srv_config,
       mg_saved_config = (cluster_config_new 0 0)\<lparr>cc_servers := [my_srv_config]\<rparr>,
       mg_saved_state = None\<rparr>)"

definition load_config :: "state_mgr \<Rightarrow> cluster_config" where
  "load_config m = mg_saved_config m"

definition save_config :: "cluster_config \<Rightarrow> unit mgr_op" where
  "save_config config =
     bindM (liftR (rbind (cluster_config_serialize config) (\<lambda>buf.
                   rbind (cluster_config_deserialize buf) (\<lambda>(c, _). Inr c)))) (\<lambda>c.
     modM (\<lambda>m. m\<lparr>mg_saved_config := c\<rparr>))"

definition save_state :: "srv_state \<Rightarrow> unit mgr_op" where
  "save_state st =
     bindM (liftR (rbind (srv_state_serialize st) (\<lambda>buf.
                   rbind (srv_state_deserialize buf) (\<lambda>(st', _). Inr st')))) (\<lambda>st'.
     modM (\<lambda>m. m\<lparr>mg_saved_state := Some st'\<rparr>))"

definition read_state :: "state_mgr \<Rightarrow> srv_state option" where
  "read_state m = mg_saved_state m"

definition server_id :: "state_mgr \<Rightarrow> int32" where
  "server_id m = mg_my_id m"

section \<open>What is saved is what is loaded\<close>

lemma save_state_run: "save_state st m = (Inr (), m\<lparr>mg_saved_state := Some st\<rparr>)"
proof -
  have "srv_state_serialize st = Inr (fresh_buf (srv_state_bytes st))"
    by (intro srv_state_codec.ser_enc) (simp add: srv_state_bytes_def)
  then show ?thesis
    by (simp add: save_state_def run_simps srv_state_codec.dec_fresh)
qed

lemma save_config_run:
  assumes "cluster_config_ok c" "length (cluster_config_bytes c) < 0x80000000"
  shows "save_config c m = (Inr (), m\<lparr>mg_saved_config := c\<rparr>)"
  using assms
  by (simp add: save_config_def run_simps cluster_config_codec.ser_enc cluster_config_codec.dec_fresh)

lemma clone_snapshot_eq:
  "snapshot_ok s \<Longrightarrow> length (snapshot_bytes s) < 0x80000000 \<Longrightarrow> clone_snapshot s = Inr s"
  by (simp add: clone_snapshot_def snapshot_codec.ser_enc snapshot_codec.dec_fresh)

end
