(* ===== verification/Server.thy ===== *)
theory Server
  imports Peer Application
begin

text \<open>
  The server object of \<^verbatim>\<open>raft_server.hxx\<close> and the operations of \<^verbatim>\<open>raft_server.cxx\<close> the message
  and timer handlers are built from. All handlers run under the server's recursive lock,
  so an operation is a function on the whole server state. Sends, timers, the wake-up of
  the commit thread and requests to stop the process are appended to an outbox; the values
  the random generator draws are an input. Logging is left out.
\<close>

section \<open>The server object\<close>

datatype srv_role = follower | candidate | leader

text \<open>Which of the server's handlers a call's result goes to.\<close>

datatype rpc_handler = Resp_handler | Ex_resp_handler

text \<open>Timers and calls refer to peer objects by their identity.\<close>

datatype effect =
    Send nat req_msg rpc_handler
  | Send_client int32 req_msg
  | Schedule_election int32
  | Cancel_election
  | Schedule_hb nat int32
  | Cancel_hb nat
  | Schedule_retry nat req_msg int32
  | Notify_commit
  | System_exit int32

text \<open>
  The fields of the class in their order, without locks, condition variables and the bound
  handlers. \<open>sv_config_shared\<close> says that \<^verbatim>\<open>config_\<close> and the saved configuration of the state
  manager are one object, as they are after construction, so that an update in place is
  seen by both; a snapshot holds its configuration by value. \<open>sv_quorum_elapsed\<close> is the
  static variable of \<^verbatim>\<open>handle_cli_req\<close>; \<open>sv_rand\<close> and \<open>sv_draws\<close> give the values of
  \<^verbatim>\<open>rand_timeout_\<close> in the order of its calls; \<open>sv_next_uid\<close> numbers the peer objects.
\<close>

record raft_server =
  sv_leader :: int32
  sv_id :: int32
  sv_votes_granted :: int32
  sv_quick_commit_idx :: ulong
  sv_sm_commit_index :: ulong
  sv_election_completed :: bool
  sv_config_changing :: bool
  sv_catching_up :: bool
  sv_stopping :: bool
  sv_steps_to_down :: int32
  sv_snp_in_progress :: bool
  sv_params :: raft_params
  sv_state_mgr :: state_mgr
  sv_election_task :: bool
  sv_peers :: "(int32 \<times> peer) list"
  sv_rpc_clients :: "(int32 \<times> cstring) list"
  sv_role :: srv_role
  sv_state :: srv_state
  sv_log_store :: log_store
  sv_state_machine :: echo_state_machine
  sv_config :: cluster_config
  sv_config_shared :: bool
  sv_srv_to_join :: "peer option"
  sv_conf_to_add :: "srv_config option"
  sv_last_snapshot :: "snapshot option"
  sv_voted_servers :: "int32 list"
  sv_quorum_elapsed :: int32
  sv_rand :: "nat \<Rightarrow> int32"
  sv_draws :: nat
  sv_next_uid :: nat
  sv_outbox :: "effect list"

type_synonym 'a server_op = "(raft_server, 'a) sx"

abbreviation sv_term :: "raft_server \<Rightarrow> ulong" where
  "sv_term s \<equiv> st_term (sv_state s)"

abbreviation sv_voted_for :: "raft_server \<Rightarrow> int32" where
  "sv_voted_for s \<equiv> st_voted_for (sv_state s)"

abbreviation sv_next_slot :: "raft_server \<Rightarrow> ulong" where
  "sv_next_slot s \<equiv> next_slot (sv_log_store s)"

abbreviation sv_start_index :: "raft_server \<Rightarrow> ulong" where
  "sv_start_index s \<equiv> start_index (sv_log_store s)"

section \<open>Parts of the server\<close>

definition emit :: "effect \<Rightarrow> unit server_op" where
  "emit x = modM (\<lambda>s. s\<lparr>sv_outbox := sv_outbox s @ [x]\<rparr>)"

definition on_log :: "'a log_op \<Rightarrow> 'a server_op" where
  "on_log = zoomM sv_log_store (\<lambda>l s. s\<lparr>sv_log_store := l\<rparr>)"

definition on_machine :: "'a machine_op \<Rightarrow> 'a server_op" where
  "on_machine = zoomM sv_state_machine (\<lambda>m s. s\<lparr>sv_state_machine := m\<rparr>)"

definition on_mgr :: "'a mgr_op \<Rightarrow> 'a server_op" where
  "on_mgr = zoomM sv_state_mgr (\<lambda>m s. s\<lparr>sv_state_mgr := m\<rparr>)"

definition read_log :: "(log_store \<Rightarrow> 'a res) \<Rightarrow> 'a server_op" where
  "read_log f = bindM (getM sv_log_store) (\<lambda>l. liftR (f l))"

text \<open>\<^verbatim>\<open>ctx_->state_mgr_->system_exit(-1); throw raft_exception(line);\<close>\<close>

definition exit_throw :: "'a server_op" where
  "exit_throw = bindM (emit (System_exit (- 1))) (\<lambda>_. throwM Raft_exception)"

definition save_state_op :: "unit server_op" where
  "save_state_op = bindM (getM sv_state) (\<lambda>st. on_mgr (save_state st))"

text \<open>A saved configuration is a new object.\<close>

definition save_config_op :: "cluster_config \<Rightarrow> unit server_op" where
  "save_config_op c =
     bindM (on_mgr (save_config c)) (\<lambda>_. modM (\<lambda>s. s\<lparr>sv_config_shared := False\<rparr>))"

text \<open>An update of the object \<^verbatim>\<open>config_\<close> points to.\<close>

definition update_config :: "(cluster_config \<Rightarrow> cluster_config) \<Rightarrow> unit server_op" where
  "update_config f =
     modM (\<lambda>s. s\<lparr>sv_config := f (sv_config s),
                 sv_state_mgr := (if sv_config_shared s
                   then (sv_state_mgr s)\<lparr>mg_saved_config := f (mg_saved_config (sv_state_mgr s))\<rparr>
                   else sv_state_mgr s)\<rparr>)"

section \<open>Peers of the server\<close>

definition peer_objects :: "raft_server \<Rightarrow> peer list" where
  "peer_objects s =
     map snd (sv_peers s) @ (case sv_srv_to_join s of None \<Rightarrow> [] | Some p \<Rightarrow> [p])"

text \<open>A reference to a peer object the server has dropped dangles.\<close>

definition get_peer :: "nat \<Rightarrow> peer server_op" where
  "get_peer u =
     bindM (getM (\<lambda>s. List.find (\<lambda>p. pr_uid p = u) (peer_objects s))) (\<lambda>p.
     case p of None \<Rightarrow> throwM Undefined_behaviour | Some p \<Rightarrow> ret p)"

definition map_peer :: "nat \<Rightarrow> (peer \<Rightarrow> peer) \<Rightarrow> raft_server \<Rightarrow> raft_server" where
  "map_peer u f s =
     s\<lparr>sv_peers := map (\<lambda>(i, p). (i, if pr_uid p = u then f p else p)) (sv_peers s),
       sv_srv_to_join := map_option (\<lambda>p. if pr_uid p = u then f p else p) (sv_srv_to_join s)\<rparr>"

definition upd_peer :: "nat \<Rightarrow> (peer \<Rightarrow> peer) \<Rightarrow> unit server_op" where
  "upd_peer u f = modM (map_peer u f)"

definition peer_uids :: "raft_server \<Rightarrow> nat list" where
  "peer_uids s = map (\<lambda>(_, p). pr_uid p) (sv_peers s)"

text \<open>\<^verbatim>\<open>for (it = peers_.begin(); ...)\<close>: the body never adds or removes a peer.\<close>

definition for_peers :: "(nat \<Rightarrow> unit server_op) \<Rightarrow> unit server_op" where
  "for_peers f = bindM (getM peer_uids) (\<lambda>us. forM us f)"

definition send_req :: "nat \<Rightarrow> req_msg \<Rightarrow> rpc_handler \<Rightarrow> unit server_op" where
  "send_req u req handler = emit (Send u req handler)"

definition enable_hb :: "nat \<Rightarrow> bool \<Rightarrow> unit server_op" where
  "enable_hb u enable =
     bindM (upd_peer u (\<lambda>p. p\<lparr>pr_hb_enabled := enable\<rparr>)) (\<lambda>_.
     whenM (\<not> enable) (emit (Cancel_hb u)))"

definition enable_hb_for_peer :: "nat \<Rightarrow> unit server_op" where
  "enable_hb_for_peer u =
     bindM (enable_hb u True) (\<lambda>_.
     bindM (upd_peer u resume_hb_speed) (\<lambda>_.
     bindM (get_peer u) (\<lambda>p.
     emit (Schedule_hb u (pr_current_hb_interval p)))))"

section \<open>Election timer\<close>

definition rand_timeout :: "int32 server_op" where
  "rand_timeout =
     bindM (getM (\<lambda>s. sv_rand s (sv_draws s))) (\<lambda>t.
     bindM (modM (\<lambda>s. s\<lparr>sv_draws := Suc (sv_draws s)\<rparr>)) (\<lambda>_.
     ret t))"

definition restart_election_timer :: "unit server_op" where
  "restart_election_timer =
     bindM (getM sv_catching_up) (\<lambda>catching_up.
     if catching_up then ret ()
     else
       bindM (getM sv_election_task) (\<lambda>election_task.
       bindM (if election_task then emit Cancel_election
              else modM (\<lambda>s. s\<lparr>sv_election_task := True\<rparr>)) (\<lambda>_.
       bindM rand_timeout (\<lambda>timeout.
       emit (Schedule_election timeout)))))"

definition stop_election_timer :: "unit server_op" where
  "stop_election_timer =
     bindM (getM sv_election_task) (\<lambda>election_task.
     whenM election_task (emit Cancel_election))"

section \<open>Replication requests\<close>

definition term_for_log :: "ulong \<Rightarrow> ulong server_op" where
  "term_for_log log_idx =
     (if log_idx = 0 then ret 0
      else
        bindM (getM sv_start_index) (\<lambda>start.
        if log_idx \<ge> start then read_log (term_at log_idx)
        else
          bindM (getM (\<lambda>s. sm_last_snapshot (sv_state_machine s))) (\<lambda>last_snapshot.
          case last_snapshot of
            None \<Rightarrow> exit_throw
          | Some snp \<Rightarrow>
              if log_idx \<noteq> sn_last_log_idx snp then exit_throw
              else ret (sn_last_log_term snp))))"

definition default_snapshot_sync_block_size :: int32 where
  "default_snapshot_sync_block_size = 4 * 1024"

definition get_snapshot_sync_block_size :: "raft_server \<Rightarrow> int32" where
  "get_snapshot_sync_block_size s =
     (let block_size = pa_snapshot_block_size (sv_params s)
      in if block_size = 0 then default_snapshot_sync_block_size else block_size)"

text \<open>
  The snapshot a peer is sent: the one in transfer, unless a newer one exists. The message
  of the first error reads through the null snapshot pointer it reports.
\<close>

definition select_snapshot :: "nat \<Rightarrow> ulong \<Rightarrow> snapshot server_op" where
  "select_snapshot u last_log_idx =
     bindM (get_peer u) (\<lambda>p.
     bindM (getM sv_last_snapshot) (\<lambda>last_snapshot.
     case (map_option sx_snapshot (pr_snp_sync_ctx p), last_snapshot) of
       (Some snp, None) \<Rightarrow> ret snp
     | (None, None) \<Rightarrow> throwM Undefined_behaviour
     | (cur, Some latest) \<Rightarrow>
         if (case cur of None \<Rightarrow> True | Some snp \<Rightarrow> sn_last_log_idx latest > sn_last_log_idx snp) then
           if last_log_idx > sn_last_log_idx latest then exit_throw
           else if sn_size latest < 1 then exit_throw
           else bindM (upd_peer u (set_snapshot_in_sync (Some latest))) (\<lambda>_. ret latest)
         else (case cur of None \<Rightarrow> throwM Undefined_behaviour | Some snp \<Rightarrow> ret snp)))"

definition create_sync_snapshot_req ::
  "nat \<Rightarrow> ulong \<Rightarrow> ulong \<Rightarrow> ulong \<Rightarrow> req_msg server_op" where
  "create_sync_snapshot_req u last_log_idx term commit_idx =
     bindM (select_snapshot u last_log_idx) (\<lambda>snp.
     bindM (get_peer u) (\<lambda>p.
     case pr_snp_sync_ctx p of
       None \<Rightarrow> throwM Undefined_behaviour
     | Some sync_ctx \<Rightarrow>
         bindM (getM get_snapshot_sync_block_size) (\<lambda>blk_sz.
         let offset = sx_offset sync_ctx;
             sz_left = ulong_to_int32 (sn_size snp - offset) in
         bindM (liftR (alloc (int32_to_size (int32_min blk_sz sz_left)))) (\<lambda>data.
         let sz_rd = sm_read_snapshot_data snp offset data in
         if int32_to_size sz_rd < bsize data then exit_throw
         else
           let done = (offset + of_nat (bsize data) \<ge> sn_size snp);
               sync_req = \<lparr>sr_snapshot = snp, sr_offset = offset, sr_data = data, sr_done = done\<rparr> in
           bindM (liftR (snapshot_sync_req_serialize sync_req)) (\<lambda>buf.
           bindM (getM sv_id) (\<lambda>my_id.
           ret ((req_msg_new term install_snapshot_request my_id (pr_id p)
                  (sn_last_log_term snp) (sn_last_log_idx snp) commit_idx)
                \<lparr>rq_log_entries := [log_entry_new term buf snp_sync_req]\<rparr>)))))))"

definition create_append_entries_req :: "nat \<Rightarrow> req_msg server_op" where
  "create_append_entries_req u =
     bindM (getM sv_start_index) (\<lambda>starting_idx.
     bindM (getM sv_next_slot) (\<lambda>cur_nxt_idx.
     bindM (getM sv_quick_commit_idx) (\<lambda>commit_idx.
     bindM (getM sv_term) (\<lambda>term.
     bindM (get_peer u) (\<lambda>p.
     bindM (whenM (pr_next_log_idx p = 0)
              (upd_peer u (\<lambda>p. p\<lparr>pr_next_log_idx := cur_nxt_idx\<rparr>))) (\<lambda>_.
     bindM (get_peer u) (\<lambda>p.
     let last_log_idx = pr_next_log_idx p - 1 in
     if last_log_idx \<ge> cur_nxt_idx then exit_throw
     else if last_log_idx > 0 \<and> last_log_idx < starting_idx - 1 then
       create_sync_snapshot_req u last_log_idx term commit_idx
     else
       bindM (term_for_log last_log_idx) (\<lambda>last_log_term.
       bindM (getM (\<lambda>s. min cur_nxt_idx
                (last_log_idx + 1 + int32_to_ulong (pa_max_append_size (sv_params s))))) (\<lambda>end_idx.
       bindM (if last_log_idx + 1 \<ge> cur_nxt_idx then ret []
              else read_log (log_entries (last_log_idx + 1) end_idx)) (\<lambda>entries.
       bindM (getM sv_id) (\<lambda>my_id.
       ret ((req_msg_new term append_entries_request my_id (pr_id p) last_log_term last_log_idx
              commit_idx)\<lparr>rq_log_entries := entries\<rparr>))))))))))))"

definition request_append_entries_to :: "nat \<Rightarrow> bool server_op" where
  "request_append_entries_to u =
     bindM (get_peer u) (\<lambda>p.
     if fst (make_busy p) then
       bindM (upd_peer u (\<lambda>p. snd (make_busy p))) (\<lambda>_.
       bindM (create_append_entries_req u) (\<lambda>msg.
       bindM (send_req u msg Resp_handler) (\<lambda>_.
       ret True)))
     else ret False)"

definition commit :: "ulong \<Rightarrow> unit server_op" where
  "commit target_idx =
     bindM (getM sv_quick_commit_idx) (\<lambda>quick_commit_idx.
     bindM (whenM (target_idx > quick_commit_idx)
       (bindM (modM (\<lambda>s. s\<lparr>sv_quick_commit_idx := target_idx\<rparr>)) (\<lambda>_.
        bindM (getM sv_role) (\<lambda>role.
        whenM (role = leader)
          (for_peers (\<lambda>u.
             bindM (request_append_entries_to u) (\<lambda>sent.
             whenM (\<not> sent) (upd_peer u set_pending_commit))))))) ) (\<lambda>_.
     bindM (getM (\<lambda>s. sv_next_slot s - 1 > sv_sm_commit_index s \<and>
                      sv_quick_commit_idx s > sv_sm_commit_index s)) (\<lambda>pending.
     whenM pending (emit Notify_commit))))"

definition request_append_entries :: "unit server_op" where
  "request_append_entries =
     bindM (getM (\<lambda>s. sv_peers s = [])) (\<lambda>alone.
     if alone then bindM (getM (\<lambda>s. sv_next_slot s - 1)) commit
     else for_peers (\<lambda>u. bindM (request_append_entries_to u) (\<lambda>_. ret ())))"

section \<open>Roles and terms\<close>

definition append_conf :: "cluster_config \<Rightarrow> unit server_op" where
  "append_conf c =
     bindM (liftR (cluster_config_serialize c)) (\<lambda>conf_buf.
     bindM (getM sv_term) (\<lambda>term.
     bindM (on_log (append_log (log_entry_new term conf_buf conf))) (\<lambda>_.
     ret ())))"

definition set_config_changing :: "bool \<Rightarrow> unit server_op" where
  "set_config_changing b = modM (\<lambda>s. s\<lparr>sv_config_changing := b\<rparr>)"

definition become_leader :: "unit server_op" where
  "become_leader =
     blockM
       [stop_election_timer,
        modM (\<lambda>s. s\<lparr>sv_role := leader, sv_leader := sv_id s, sv_srv_to_join := None\<rparr>),
        for_peers (\<lambda>u. blockM
          [bindM (getM sv_next_slot) (\<lambda>nxt. upd_peer u (\<lambda>p. p\<lparr>pr_next_log_idx := nxt\<rparr>)),
           upd_peer u (set_snapshot_in_sync None),
           upd_peer u set_free,
           enable_hb_for_peer u]),
        bindM (getM (\<lambda>s. cc_log_idx (sv_config s) = 0)) (\<lambda>initial.
        whenM initial (blockM
          [bindM (getM sv_next_slot) (\<lambda>nxt. update_config (set_log_idx nxt)),
           bindM (getM sv_config) append_conf,
           set_config_changing True])),
        request_append_entries]"

definition become_follower :: "unit server_op" where
  "become_follower =
     blockM
       [for_peers (\<lambda>u. enable_hb u False),
        modM (\<lambda>s. s\<lparr>sv_srv_to_join := None, sv_role := follower\<rparr>),
        restart_election_timer]"

definition update_term :: "ulong \<Rightarrow> bool server_op" where
  "update_term term =
     bindM (getM sv_term) (\<lambda>current.
     if term > current then
       bindM (modM (\<lambda>s. s\<lparr>sv_state := \<lparr>st_term = term, st_voted_for = - 1\<rparr>,
                          sv_election_completed := False, sv_votes_granted := 0,
                          sv_voted_servers := []\<rparr>)) (\<lambda>_.
       bindM save_state_op (\<lambda>_.
       bindM become_follower (\<lambda>_.
       ret True)))
     else ret False)"

text \<open>The vote request to one peer; the peer's id is the key it is stored under.\<close>

definition send_vote_req :: "nat \<Rightarrow> unit server_op" where
  "send_vote_req u =
     bindM (get_peer u) (\<lambda>p.
     bindM (getM sv_next_slot) (\<lambda>nxt.
     bindM (term_for_log (nxt - 1)) (\<lambda>last_log_term.
     bindM (getM (\<lambda>s. req_msg_new (sv_term s) request_vote_request (sv_id s) (pr_id p)
                        last_log_term (nxt - 1) (sv_quick_commit_idx s))) (\<lambda>req.
     send_req u req Resp_handler))))"

definition request_vote :: "unit server_op" where
  "request_vote =
     blockM
       [modM (\<lambda>s. s\<lparr>sv_state := (sv_state s)\<lparr>st_voted_for := sv_id s\<rparr>\<rparr>),
        save_state_op,
        modM (\<lambda>s. s\<lparr>sv_votes_granted := sv_votes_granted s + 1,
                    sv_voted_servers := List.insert (sv_id s) (sv_voted_servers s)\<rparr>),
        bindM (getM (\<lambda>s. sint (sv_votes_granted s) >
                         sint (of_nat (length (sv_peers s) + 1) :: int32) sdiv 2)) (\<lambda>only_server.
        if only_server then blockM
          [modM (\<lambda>s. s\<lparr>sv_election_completed := True\<rparr>),
           become_leader]
        else for_peers send_vote_req)]"

end
