(* ===== verification/Membership.thy ===== *)
theory Membership
  imports Server
begin

text \<open>
  The operations of \<^verbatim>\<open>raft_server.cxx\<close> that change the set of servers: applying a
  configuration, bringing a new server up to date, inviting it, and removing one.
\<close>

section \<open>Applying a configuration\<close>

text \<open>
  One round of the loop that adds servers. The new object is inserted under its id and
  then updated through the same pointer; \<^verbatim>\<open>insert\<close> has no effect when the id is there
  already, and the object is dropped at the end of the round.
\<close>

definition add_peer :: "srv_config \<Rightarrow> unit server_op" where
  "add_peer srv_added =
     bindM (getM (\<lambda>s. (peer_new (sv_next_uid s) srv_added (sv_params s))
                       \<lparr>pr_next_log_idx := sv_next_slot s\<rparr>)) (\<lambda>p.
     bindM (modM (\<lambda>s. s\<lparr>sv_next_uid := Suc (sv_next_uid s),
                        sv_peers := umap_insert (sc_id srv_added) p (sv_peers s)\<rparr>)) (\<lambda>_.
     bindM (getM sv_role) (\<lambda>role.
     whenM (role = leader)
       (blockM
         [upd_peer (pr_uid p) (\<lambda>p. resume_hb_speed (p\<lparr>pr_hb_enabled := True\<rparr>)),
          emit (Schedule_hb (pr_uid p) (pr_hb_interval p)),
          bindM (getM sv_srv_to_join) (\<lambda>srv_to_join.
          case srv_to_join of
            None \<Rightarrow> ret ()
          | Some j \<Rightarrow>
              whenM (pr_id j = pr_id p)
                (blockM
                  [upd_peer (pr_uid p) (\<lambda>p. p\<lparr>pr_next_log_idx := pr_next_log_idx j\<rparr>),
                   modM (\<lambda>s. s\<lparr>sv_srv_to_join := None\<rparr>)]))]))))"

definition remove_peer :: "int32 \<Rightarrow> unit server_op" where
  "remove_peer i =
     bindM (getM (\<lambda>s. map_of (sv_peers s) i)) (\<lambda>pit.
     case pit of
       None \<Rightarrow> ret ()
     | Some p \<Rightarrow>
         bindM (enable_hb (pr_uid p) False) (\<lambda>_.
         modM (\<lambda>s. s\<lparr>sv_peers := map_erase i (sv_peers s)\<rparr>)))"

text \<open>
  The loop that removes servers, and the assignment of \<^verbatim>\<open>config_\<close> after it, which the
  early return of a server that is removed itself skips.
\<close>

primrec remove_servers :: "int32 list \<Rightarrow> cluster_config \<Rightarrow> unit server_op" where
  "remove_servers [] new_config =
     modM (\<lambda>s. s\<lparr>sv_config := new_config, sv_config_shared := False\<rparr>)"
| "remove_servers (srv_removed # srvs) new_config =
     bindM (getM (\<lambda>s. srv_removed = sv_id s \<and> \<not> sv_catching_up s)) (\<lambda>myself.
     if myself then
       bindM (save_config_op new_config) (\<lambda>_. emit (System_exit 0))
     else
       bindM (remove_peer srv_removed) (\<lambda>_. remove_servers srvs new_config))"

definition srvs_added :: "raft_server \<Rightarrow> cluster_config \<Rightarrow> srv_config list" where
  "srvs_added s new_config =
     filter (\<lambda>srv. map_of (sv_peers s) (sc_id srv) = None \<and> sv_id s \<noteq> sc_id srv)
       (cc_servers new_config)"

definition srvs_removed :: "raft_server \<Rightarrow> cluster_config \<Rightarrow> int32 list" where
  "srvs_removed s new_config =
     filter (\<lambda>i. get_server new_config i = None) (map fst (sv_peers s)) @
     (if get_server new_config (sv_id s) = None then [sv_id s] else [])"

definition reconfigure :: "cluster_config \<Rightarrow> unit server_op" where
  "reconfigure new_config =
     bindM (getM (\<lambda>s. srvs_added s new_config)) (\<lambda>added.
     bindM (getM (\<lambda>s. srvs_removed s new_config)) (\<lambda>removed.
     bindM (forM added add_peer) (\<lambda>_.
     remove_servers removed new_config)))"

section \<open>A server that joins or leaves\<close>

definition joining_peer :: "peer server_op" where
  "joining_peer =
     bindM (getM sv_srv_to_join) (\<lambda>p.
     case p of None \<Rightarrow> throwM Undefined_behaviour | Some p \<Rightarrow> ret p)"

definition on_retryable_req_err :: "nat \<Rightarrow> req_msg \<Rightarrow> unit server_op" where
  "on_retryable_req_err u req = send_req u req Ex_resp_handler"

text \<open>The configuration with the new server, appended to the log at the index it carries.\<close>

definition put_joining_server :: "unit server_op" where
  "put_joining_server =
     bindM (getM (\<lambda>s. cluster_config_new (sv_next_slot s) (cc_log_idx (sv_config s)))) (\<lambda>new_conf.
     bindM (getM (\<lambda>s. cc_servers (sv_config s))) (\<lambda>srvs.
     bindM (getM sv_conf_to_add) (\<lambda>conf_to_add.
     case conf_to_add of
       None \<Rightarrow> throwM Undefined_behaviour
     | Some srv \<Rightarrow>
         blockM
           [append_conf (new_conf\<lparr>cc_servers := srvs @ [srv]\<rparr>),
            set_config_changing True,
            request_append_entries])))"

definition sync_log_to_new_srv :: "ulong \<Rightarrow> unit server_op" where
  "sync_log_to_new_srv start_idx =
     bindM joining_peer (\<lambda>p.
     bindM (getM (\<lambda>s. ulong_to_int32 (sv_quick_commit_idx s - start_idx))) (\<lambda>gap.
     bindM (getM (\<lambda>s. pa_log_sync_stop_gap (sv_params s))) (\<lambda>stop_gap.
     if sint gap < sint stop_gap then put_joining_server
     else
       bindM (getM sv_start_index) (\<lambda>start.
       bindM (getM sv_term) (\<lambda>term.
       bindM (getM sv_quick_commit_idx) (\<lambda>commit_idx.
       bindM
         (if start_idx > 0 \<and> start_idx < start then
            create_sync_snapshot_req (pr_uid p) start_idx term commit_idx
          else
            bindM (getM (\<lambda>s. int32_min gap (pa_log_sync_batch_size (sv_params s)))) (\<lambda>size_to_sync.
            bindM (on_log (pack start_idx size_to_sync)) (\<lambda>pk.
            bindM (getM sv_id) (\<lambda>my_id.
            ret ((req_msg_new term sync_log_request my_id (pr_id p) 0 (start_idx - 1) commit_idx)
                 \<lparr>rq_log_entries := [log_entry_new term pk log_pack]\<rparr>))))) (\<lambda>req.
       send_req (pr_uid p) req Ex_resp_handler)))))))"

definition invite_srv_to_join_cluster :: "unit server_op" where
  "invite_srv_to_join_cluster =
     bindM joining_peer (\<lambda>p.
     bindM (getM (\<lambda>s. req_msg_new (sv_term s) join_cluster_request (sv_id s) (pr_id p) 0
                        (sv_next_slot s - 1) (sv_quick_commit_idx s))) (\<lambda>req.
     bindM (getM sv_config) (\<lambda>config.
     bindM (liftR (cluster_config_serialize config)) (\<lambda>buf.
     bindM (getM sv_term) (\<lambda>term.
     send_req (pr_uid p) (req\<lparr>rq_log_entries := [log_entry_new term buf conf]\<rparr>) Ex_resp_handler)))))"

definition rm_srv_from_cluster :: "int32 \<Rightarrow> unit server_op" where
  "rm_srv_from_cluster srv_id =
     bindM (getM (\<lambda>s. (cluster_config_new (sv_next_slot s) (cc_log_idx (sv_config s)))
                       \<lparr>cc_servers := filter (\<lambda>srv. sc_id srv \<noteq> srv_id) (cc_servers (sv_config s))\<rparr>)) (\<lambda>new_conf.
     blockM
       [set_config_changing True,
        append_conf new_conf,
        request_append_entries])"

end
