(* ===== verification/Request_Handlers.thy ===== *)
theory Request_Handlers
  imports Membership
begin

text \<open>
  The handlers of requests, \<^verbatim>\<open>raft_server_handle_req.cxx\<close>, and \<^verbatim>\<open>process_req\<close> of
  \<^verbatim>\<open>raft_server_public.cxx\<close>, which dispatches to them. The time the enclave obtains from
  outside is an argument.
\<close>

section \<open>Append entries\<close>

text \<open>The first loop: the entries the log has already, by index and term.\<close>

primrec skip_matching ::
  "log_store \<Rightarrow> log_entry list \<Rightarrow> ulong \<Rightarrow> (ulong \<times> log_entry list) res" where
  "skip_matching l [] idx = Inr (idx, [])"
| "skip_matching l (e # es) idx =
     (if idx < next_slot l then
        rbind (term_at idx l) (\<lambda>t.
        if t = le_term e then skip_matching l es (idx + 1) else Inr (idx, e # es))
      else Inr (idx, e # es))"

definition pre_commit_entry :: "ulong \<Rightarrow> log_entry \<Rightarrow> unit server_op" where
  "pre_commit_entry idx entry =
     (if le_val_type entry = app_log then
        bindM (liftR (get_buf entry)) (\<lambda>buf. on_machine (sm_pre_commit idx buf))
      else if le_val_type entry = conf then set_config_changing True
      else ret ())"

text \<open>One round of the second loop: an entry with another term is overwritten.\<close>

definition overwrite_entry :: "ulong \<Rightarrow> log_entry \<Rightarrow> unit server_op" where
  "overwrite_entry idx entry =
     bindM (read_log (entry_at idx)) (\<lambda>old_entry.
     blockM
       [if le_val_type old_entry = app_log then
          bindM (liftR (get_buf old_entry)) (\<lambda>buf. on_machine (sm_rollback idx buf))
        else if le_val_type old_entry = conf then set_config_changing False
        else ret (),
        on_log (write_at idx entry),
        pre_commit_entry idx entry])"

primrec overwrite_entries :: "log_entry list \<Rightarrow> ulong \<Rightarrow> log_entry list server_op" where
  "overwrite_entries [] idx = ret []"
| "overwrite_entries (e # es) idx =
     bindM (getM sv_next_slot) (\<lambda>nxt.
     if idx < nxt then bindM (overwrite_entry idx e) (\<lambda>_. overwrite_entries es (idx + 1))
     else ret (e # es))"

definition append_entry :: "log_entry \<Rightarrow> unit server_op" where
  "append_entry entry =
     bindM (on_log (append_log entry)) (\<lambda>idx_for_entry. pre_commit_entry idx_for_entry entry)"

definition store_entries :: "ulong \<Rightarrow> log_entry list \<Rightarrow> unit server_op" where
  "store_entries last_log_idx entries =
     bindM (read_log (\<lambda>l. skip_matching l entries (last_log_idx + 1))) (\<lambda>(idx, rest).
     bindM (overwrite_entries rest idx) (\<lambda>rest.
     forM rest append_entry))"

text \<open>A message of a leader of the same term, as append and snapshot requests check it.\<close>

definition hear_leader :: "unit server_op" where
  "hear_leader =
     bindM (getM sv_role) (\<lambda>role.
     if role = candidate then become_follower
     else if role = leader then exit_throw
     else restart_election_timer)"

definition log_okay_for :: "req_msg \<Rightarrow> bool server_op" where
  "log_okay_for req =
     bindM (getM sv_next_slot) (\<lambda>nxt.
     if rq_last_log_idx req = 0 then ret True
     else if rq_last_log_idx req < nxt then
       bindM (term_for_log (rq_last_log_idx req)) (\<lambda>t. ret (rq_last_log_term req = t))
     else ret False)"

definition handle_append_entries :: "req_msg \<Rightarrow> resp_msg server_op" where
  "handle_append_entries req =
     bindM (getM (\<lambda>s. rq_term req = sv_term s)) (\<lambda>same_term.
     bindM (whenM same_term hear_leader) (\<lambda>_.
     bindM (getM (\<lambda>s. resp_msg_new (sv_term s) append_entries_response (sv_id s) (rq_src req)
                        (sv_next_slot s))) (\<lambda>resp.
     bindM (log_okay_for req) (\<lambda>log_okay.
     bindM (getM (\<lambda>s. rq_term req < sv_term s)) (\<lambda>stale.
     if stale \<or> \<not> log_okay then ret resp
     else
       bindM (whenM (rq_log_entries req \<noteq> [])
                (store_entries (rq_last_log_idx req) (rq_log_entries req))) (\<lambda>_.
       bindM (modM (\<lambda>s. s\<lparr>sv_leader := rq_src req\<rparr>)) (\<lambda>_.
       bindM (commit (rq_commit_idx req)) (\<lambda>_.
       ret (accept (rq_last_log_idx req + of_nat (length (rq_log_entries req)) + 1) resp)))))))))"

section \<open>Votes\<close>

definition handle_vote_req :: "req_msg \<Rightarrow> resp_msg server_op" where
  "handle_vote_req req =
     bindM (getM (\<lambda>s. resp_msg_new (sv_term s) request_vote_response (sv_id s) (rq_src req) 0)) (\<lambda>resp.
     bindM (read_log last_entry) (\<lambda>last_entry.
     bindM (getM (\<lambda>s.
       let log_okay = rq_last_log_term req > le_term last_entry \<or>
                      (rq_last_log_term req = le_term last_entry \<and>
                       sv_next_slot s - 1 \<le> rq_last_log_idx req)
       in rq_term req = sv_term s \<and> log_okay \<and>
          (sv_voted_for s = rq_src req \<or> sv_voted_for s = - 1))) (\<lambda>grant.
     if grant then
       bindM (getM sv_next_slot) (\<lambda>nxt.
       bindM (modM (\<lambda>s. s\<lparr>sv_state := (sv_state s)\<lparr>st_voted_for := rq_src req\<rparr>\<rparr>)) (\<lambda>_.
       bindM save_state_op (\<lambda>_.
       ret (accept nxt resp))))
     else ret resp)))"

section \<open>Client requests\<close>

text \<open>
  The check that a quorum has answered recently. The static variable starts at the largest
  \<^verbatim>\<open>int32\<close> and is set only here. Times are signed.
\<close>

definition quorum_elapsed :: "time_point \<Rightarrow> raft_server \<Rightarrow> int32" where
  "quorum_elapsed now s =
     ucast (now - sort_key sint (map (\<lambda>(_, p). pr_last_resp p) (sv_peers s)) ! (length (sv_peers s) div 2))"

definition leader_expired :: "time_point \<Rightarrow> bool server_op" where
  "leader_expired now =
     bindM (getM (\<lambda>s. pa_election_timeout_upper_bound (sv_params s) * 2)) (\<lambda>limit.
     bindM (getM (\<lambda>s. sv_role s = leader \<and> sv_peers s \<noteq> [] \<and>
                      sint (sv_quorum_elapsed s) > sint limit)) (\<lambda>check.
     if check then
       bindM (modM (\<lambda>s. s\<lparr>sv_quorum_elapsed := quorum_elapsed now s\<rparr>)) (\<lambda>_.
       getM (\<lambda>s. sint (sv_quorum_elapsed s) > sint limit))
     else ret False))"

definition append_client_entry :: "log_entry \<Rightarrow> unit server_op" where
  "append_client_entry entry =
     bindM (getM (\<lambda>s. entry\<lparr>le_term := sv_term s\<rparr>)) (\<lambda>entry.
     bindM (on_log (append_log entry)) (\<lambda>_.
     bindM (getM (\<lambda>s. sv_next_slot s - 1)) (\<lambda>idx.
     bindM (liftR (get_buf entry)) (\<lambda>buf.
     on_machine (sm_pre_commit idx buf)))))"

definition handle_cli_req :: "time_point \<Rightarrow> req_msg \<Rightarrow> resp_msg server_op" where
  "handle_cli_req now req =
     bindM (leader_expired now) (\<lambda>expired.
     if expired then
       getM (\<lambda>s. resp_msg_new (sv_term s) append_entries_response (sv_id s) (- 1) 0)
     else
       bindM (getM (\<lambda>s. resp_msg_new (sv_term s) append_entries_response (sv_id s) (sv_leader s) 0)) (\<lambda>resp.
       bindM (getM sv_role) (\<lambda>role.
       if role \<noteq> leader then ret resp
       else
         bindM (forM (rq_log_entries req) append_client_entry) (\<lambda>_.
         bindM request_append_entries (\<lambda>_.
         bindM (getM sv_next_slot) (\<lambda>nxt.
         ret (accept nxt resp)))))))"

section \<open>Membership requests\<close>

definition accept_at_next_slot :: "resp_msg \<Rightarrow> resp_msg server_op" where
  "accept_at_next_slot resp = bindM (getM sv_next_slot) (\<lambda>nxt. ret (accept nxt resp))"

definition handle_add_srv_req :: "req_msg \<Rightarrow> resp_msg server_op" where
  "handle_add_srv_req req =
     bindM (getM (\<lambda>s. resp_msg_new (sv_term s) add_server_response (sv_id s) (sv_leader s) 0)) (\<lambda>resp.
     case rq_log_entries req of
       [entry] \<Rightarrow>
         bindM (getM sv_role) (\<lambda>role.
         if le_val_type entry \<noteq> cluster_server \<or> role \<noteq> leader then ret resp
         else
           bindM (liftR (rbind (get_buf entry) srv_config_deserialize)) (\<lambda>(srv_conf, _).
           bindM (getM (\<lambda>s. map_of (sv_peers s) (sc_id srv_conf) \<noteq> None \<or> sv_id s = sc_id srv_conf)) (\<lambda>known.
           bindM (getM sv_config_changing) (\<lambda>config_changing.
           if known \<or> config_changing then ret resp
           else
             bindM (modM (\<lambda>s. s\<lparr>sv_conf_to_add := Some srv_conf,
                                sv_srv_to_join := Some (peer_new (sv_next_uid s) srv_conf (sv_params s)),
                                sv_next_uid := Suc (sv_next_uid s)\<rparr>)) (\<lambda>_.
             bindM invite_srv_to_join_cluster (\<lambda>_.
             accept_at_next_slot resp))))))
     | _ \<Rightarrow> ret resp)"

definition handle_rm_srv_req :: "req_msg \<Rightarrow> resp_msg server_op" where
  "handle_rm_srv_req req =
     bindM (getM (\<lambda>s. resp_msg_new (sv_term s) remove_server_response (sv_id s) (sv_leader s) 0)) (\<lambda>resp.
     case rq_log_entries req of
       [entry] \<Rightarrow>
         bindM (liftR (get_buf entry)) (\<lambda>buf.
         bindM (getM sv_role) (\<lambda>role.
         bindM (getM sv_config_changing) (\<lambda>config_changing.
         if bsize buf \<noteq> 4 \<or> role \<noteq> leader \<or> config_changing then ret resp
         else
           bindM (liftR (get_int buf)) (\<lambda>(srv_id, _).
           bindM (getM sv_id) (\<lambda>my_id.
           bindM (getM (\<lambda>s. map_of (sv_peers s) srv_id)) (\<lambda>pit.
           case pit of
             None \<Rightarrow> ret resp
           | Some p \<Rightarrow>
               if srv_id = my_id then ret resp
               else
                 bindM (getM (\<lambda>s. req_msg_new (sv_term s) leave_cluster_request my_id srv_id 0
                                    (sv_next_slot s - 1) (sv_quick_commit_idx s))) (\<lambda>leave_req.
                 bindM (send_req (pr_uid p) leave_req Ex_resp_handler) (\<lambda>_.
                 accept_at_next_slot resp))))))))
     | _ \<Rightarrow> ret resp)"

definition handle_log_sync_req :: "req_msg \<Rightarrow> resp_msg server_op" where
  "handle_log_sync_req req =
     bindM (getM (\<lambda>s. resp_msg_new (sv_term s) sync_log_response (sv_id s) (rq_src req) 0)) (\<lambda>resp.
     bindM (getM sv_catching_up) (\<lambda>catching_up.
     case rq_log_entries req of
       [entry] \<Rightarrow>
         if le_val_type entry \<noteq> log_pack \<or> \<not> catching_up then ret resp
         else
           bindM (liftR (get_buf entry)) (\<lambda>buf.
           bindM (on_log (apply_pack (rq_last_log_idx req + 1) buf)) (\<lambda>_.
           bindM (bindM (getM (\<lambda>s. sv_next_slot s - 1)) commit) (\<lambda>_.
           accept_at_next_slot resp)))
     | _ \<Rightarrow> ret resp))"

definition handle_join_cluster_req :: "req_msg \<Rightarrow> resp_msg server_op" where
  "handle_join_cluster_req req =
     bindM (getM (\<lambda>s. resp_msg_new (sv_term s) join_cluster_response (sv_id s) (rq_src req) 0)) (\<lambda>resp.
     bindM (getM sv_catching_up) (\<lambda>catching_up.
     case rq_log_entries req of
       [entry] \<Rightarrow>
         if le_val_type entry \<noteq> conf \<or> catching_up then ret resp
         else
           bindM (modM (\<lambda>s. s\<lparr>sv_catching_up := True, sv_role := follower, sv_leader := rq_src req,
                              sv_sm_commit_index := 0, sv_quick_commit_idx := 0,
                              sv_state := \<lparr>st_term = rq_term req, st_voted_for = - 1\<rparr>\<rparr>)) (\<lambda>_.
           bindM save_state_op (\<lambda>_.
           bindM (liftR (rbind (get_buf entry) cluster_config_deserialize)) (\<lambda>(new_config, _).
           bindM (reconfigure new_config) (\<lambda>_.
           accept_at_next_slot resp))))
     | _ \<Rightarrow> ret resp))"

definition handle_leave_cluster_req :: "req_msg \<Rightarrow> resp_msg server_op" where
  "handle_leave_cluster_req req =
     bindM (getM (\<lambda>s. resp_msg_new (sv_term s) leave_cluster_response (sv_id s) (rq_src req) 0)) (\<lambda>resp.
     bindM (getM sv_config_changing) (\<lambda>config_changing.
     if config_changing then ret resp
     else
       bindM (modM (\<lambda>s. s\<lparr>sv_steps_to_down := 2\<rparr>)) (\<lambda>_.
       accept_at_next_slot resp)))"

section \<open>Snapshots from the leader\<close>

definition install_snapshot :: "snapshot_sync_req \<Rightarrow> bool server_op" where
  "install_snapshot req =
     (let snp = sr_snapshot req in
      bindM (on_machine (sm_save_snapshot_data snp (sr_offset req) (sr_data req))) (\<lambda>_.
      if \<not> sr_done req then ret True
      else
        bindM (getM sv_role) (\<lambda>role.
        if role \<noteq> follower then exit_throw
        else
          bindM (on_log (compact (sn_last_log_idx snp))) (\<lambda>compacted.
          if \<not> compacted then ret False
          else
            bindM stop_election_timer (\<lambda>_.
            bindM (on_machine (sm_apply_snapshot snp)) (\<lambda>applied.
            if \<not> applied then exit_throw
            else
              bindM (reconfigure (sn_last_config snp)) (\<lambda>_.
              bindM (bindM (getM sv_config) save_config_op) (\<lambda>_.
              bindM (modM (\<lambda>s. s\<lparr>sv_sm_commit_index := sn_last_log_idx snp,
                                 sv_quick_commit_idx := sn_last_log_idx snp\<rparr>)) (\<lambda>_.
              bindM save_state_op (\<lambda>_.
              bindM (modM (\<lambda>s. s\<lparr>sv_last_snapshot := Some (snapshot_new (sn_last_log_idx snp)
                                   (sn_last_log_term snp) (sv_config s) (sn_size snp))\<rparr>)) (\<lambda>_.
              bindM restart_election_timer (\<lambda>_.
              ret True))))))))))))"

definition handle_snapshot_sync_req :: "snapshot_sync_req \<Rightarrow> bool server_op" where
  "handle_snapshot_sync_req req = catchM (install_snapshot req) (\<lambda>_. exit_throw)"

definition handle_install_snapshot_req :: "req_msg \<Rightarrow> resp_msg server_op" where
  "handle_install_snapshot_req req =
     bindM (getM (\<lambda>s. rq_term req = sv_term s \<and> \<not> sv_catching_up s)) (\<lambda>check.
     bindM (whenM check hear_leader) (\<lambda>_.
     bindM (getM (\<lambda>s. resp_msg_new (sv_term s) install_snapshot_response (sv_id s) (rq_src req) 0)) (\<lambda>resp.
     bindM (getM (\<lambda>s. \<not> sv_catching_up s \<and> rq_term req < sv_term s)) (\<lambda>stale.
     if stale then ret resp
     else
       (case rq_log_entries req of
          [entry] \<Rightarrow>
            if le_val_type entry \<noteq> snp_sync_req then ret resp
            else
              bindM (liftR (rbind (get_buf entry) snapshot_sync_req_deserialize)) (\<lambda>sync_req.
              bindM (getM (\<lambda>s. sn_last_log_idx (sr_snapshot sync_req) \<le> sv_sm_commit_index s)) (\<lambda>old.
              if old then ret resp
              else
                bindM (handle_snapshot_sync_req sync_req) (\<lambda>done.
                if done then ret (accept (sr_offset sync_req + of_nat (bsize (sr_data sync_req))) resp)
                else ret resp)))
        | _ \<Rightarrow> ret resp)))))"

section \<open>Dispatch\<close>

definition handle_extended_msg :: "req_msg \<Rightarrow> resp_msg server_op" where
  "handle_extended_msg req =
     (case rq_type req of
        add_server_request \<Rightarrow> handle_add_srv_req req
      | remove_server_request \<Rightarrow> handle_rm_srv_req req
      | sync_log_request \<Rightarrow> handle_log_sync_req req
      | join_cluster_request \<Rightarrow> handle_join_cluster_req req
      | leave_cluster_request \<Rightarrow> handle_leave_cluster_req req
      | install_snapshot_request \<Rightarrow> handle_install_snapshot_req req
      | _ \<Rightarrow> exit_throw)"

definition process_req :: "time_point \<Rightarrow> req_msg \<Rightarrow> resp_msg server_op" where
  "process_req now req =
     bindM (whenM (rq_type req \<in> {append_entries_request, request_vote_request, install_snapshot_request})
       (bindM (update_term (rq_term req)) (\<lambda>_.
        modM (\<lambda>s. if sint (sv_steps_to_down s) > 0 then s\<lparr>sv_steps_to_down := 2\<rparr> else s)))) (\<lambda>_.
     if rq_type req = append_entries_request then handle_append_entries req
     else if rq_type req = request_vote_request then handle_vote_req req
     else if rq_type req = client_request then handle_cli_req now req
     else handle_extended_msg req)"

end
