(* ===== verification/Response_Handlers.thy ===== *)
theory Response_Handlers
  imports Request_Handlers
begin

text \<open>
  The handlers of responses (\<^verbatim>\<open>raft_server_handle_resp.cxx\<close>) and of timers
  (\<^verbatim>\<open>raft_server_handle_timeout.cxx\<close>), the calls of the embedding program
  (\<^verbatim>\<open>raft_server_public.cxx\<close>) and the construction of a server (\<^verbatim>\<open>raft_server.hxx\<close>).
\<close>

section \<open>Responses of peers\<close>

definition handle_voting_resp :: "resp_msg \<Rightarrow> unit server_op" where
  "handle_voting_resp resp =
     bindM (getM (\<lambda>s. rs_term resp \<noteq> sv_term s \<or> sv_election_completed s \<or>
                      rs_src resp \<in> set (sv_voted_servers s))) (\<lambda>ignore.
     if ignore then ret ()
     else blockM
       [modM (\<lambda>s. s\<lparr>sv_voted_servers := List.insert (rs_src resp) (sv_voted_servers s)\<rparr>),
        whenM (rs_accepted resp)
          (modM (\<lambda>s. s\<lparr>sv_votes_granted := sv_votes_granted s + 1\<rparr>)),
        modM (\<lambda>s. if length (sv_voted_servers s) \<ge> length (sv_peers s) + 1
                  then s\<lparr>sv_election_completed := True\<rparr> else s),
        bindM (getM (\<lambda>s. sint (sv_votes_granted s) >
                         sint (of_nat ((length (sv_peers s) + 1) div 2) :: int32))) (\<lambda>elected.
        whenM elected (blockM
          [modM (\<lambda>s. s\<lparr>sv_election_completed := True\<rparr>),
           become_leader]))])"

text \<open>The index the majority has: the matched indexes in descending order, read in the middle.\<close>

definition matched_indexes :: "raft_server \<Rightarrow> ulong list" where
  "matched_indexes s =
     rev (sort ((sv_next_slot s - 1) # map (\<lambda>(_, p). pr_matched_idx p) (sv_peers s)))"

definition majority_index :: "raft_server \<Rightarrow> ulong" where
  "majority_index s = matched_indexes s ! ((length (sv_peers s) + 1) div 2)"

definition clear_pending :: "nat \<Rightarrow> bool server_op" where
  "clear_pending u =
     bindM (get_peer u) (\<lambda>p.
     bindM (upd_peer u (\<lambda>p. snd (clear_pending_commit p))) (\<lambda>_.
     ret (fst (clear_pending_commit p))))"

definition catch_up_peer :: "nat \<Rightarrow> bool \<Rightarrow> unit server_op" where
  "catch_up_peer u need_to_catchup =
     bindM (getM sv_role) (\<lambda>role.
     whenM (role = leader \<and> need_to_catchup)
       (bindM (request_append_entries_to u) (\<lambda>_. ret ())))"

definition handle_append_entries_resp :: "resp_msg \<Rightarrow> unit server_op" where
  "handle_append_entries_resp resp =
     bindM (getM (\<lambda>s. map_of (sv_peers s) (rs_src resp))) (\<lambda>it.
     case it of
       None \<Rightarrow> ret ()
     | Some p \<Rightarrow>
         let u = pr_uid p in
         bindM
           (if rs_accepted resp then
              bindM (upd_peer u (\<lambda>p. p\<lparr>pr_next_log_idx := rs_next_idx resp,
                                       pr_matched_idx := rs_next_idx resp - 1\<rparr>)) (\<lambda>_.
              bindM (getM majority_index) (\<lambda>idx.
              bindM (commit idx) (\<lambda>_.
              bindM (clear_pending u) (\<lambda>was_pending.
              getM (\<lambda>s. was_pending \<or> rs_next_idx resp < sv_next_slot s)))))
            else
              bindM (upd_peer u (\<lambda>p.
                if rs_next_idx resp > 0 \<and> pr_next_log_idx p > rs_next_idx resp
                then p\<lparr>pr_next_log_idx := rs_next_idx resp\<rparr>
                else p\<lparr>pr_next_log_idx := pr_next_log_idx p - 1\<rparr>)) (\<lambda>_.
              ret True)) (\<lambda>need_to_catchup.
         catch_up_peer u need_to_catchup))"

definition handle_install_snapshot_resp :: "resp_msg \<Rightarrow> unit server_op" where
  "handle_install_snapshot_resp resp =
     bindM (getM (\<lambda>s. map_of (sv_peers s) (rs_src resp))) (\<lambda>it.
     case it of
       None \<Rightarrow> ret ()
     | Some p \<Rightarrow>
         let u = pr_uid p in
         bindM
           (if rs_accepted resp then
              (case pr_snp_sync_ctx p of
                 None \<Rightarrow> ret False
               | Some sync_ctx \<Rightarrow>
                   let snp = sx_snapshot sync_ctx in
                   if rs_next_idx resp \<ge> sn_size snp then
                     bindM (upd_peer u (\<lambda>p. set_snapshot_in_sync None
                              (p\<lparr>pr_next_log_idx := sn_last_log_idx snp + 1,
                                 pr_matched_idx := sn_last_log_idx snp\<rparr>))) (\<lambda>_.
                     bindM (clear_pending u) (\<lambda>was_pending.
                     getM (\<lambda>s. was_pending \<or> rs_next_idx resp < sv_next_slot s)))
                   else
                     bindM (upd_peer u (\<lambda>p. p\<lparr>pr_snp_sync_ctx :=
                              Some (sync_ctx\<lparr>sx_offset := rs_next_idx resp\<rparr>)\<rparr>)) (\<lambda>_.
                     ret True))
            else ret True) (\<lambda>need_to_catchup.
         catch_up_peer u need_to_catchup))"

definition handle_peer_resp :: "time_point \<Rightarrow> resp_msg \<Rightarrow> unit server_op" where
  "handle_peer_resp now resp =
     bindM (getM (\<lambda>s. map_of (sv_peers s) (rs_src resp))) (\<lambda>peer.
     bindM (case peer of
              None \<Rightarrow> ret ()
            | Some p \<Rightarrow> upd_peer (pr_uid p) (\<lambda>p. p\<lparr>pr_last_resp := now\<rparr>)) (\<lambda>_.
     bindM (update_term (rs_term resp)) (\<lambda>updated.
     if updated then ret ()
     else
       (case rs_type resp of
          request_vote_response \<Rightarrow> handle_voting_resp resp
        | append_entries_response \<Rightarrow> handle_append_entries_resp resp
        | install_snapshot_response \<Rightarrow> handle_install_snapshot_resp resp
        | _ \<Rightarrow> exit_throw))))"

section \<open>Responses of servers that join or leave\<close>

definition handle_ext_install_snapshot_resp :: "resp_msg \<Rightarrow> unit server_op" where
  "handle_ext_install_snapshot_resp resp =
     bindM (getM sv_srv_to_join) (\<lambda>srv_to_join.
     case srv_to_join of
       None \<Rightarrow> ret ()
     | Some j \<Rightarrow>
         if \<not> rs_accepted resp then ret ()
         else
           (case pr_snp_sync_ctx j of
              None \<Rightarrow> exit_throw
            | Some sync_ctx \<Rightarrow>
                let snp = sx_snapshot sync_ctx in
                bindM
                  (if rs_next_idx resp \<ge> sn_size snp then
                     upd_peer (pr_uid j) (\<lambda>p. (set_snapshot_in_sync None p)
                       \<lparr>pr_next_log_idx := sn_last_log_idx snp + 1,
                        pr_matched_idx := sn_last_log_idx snp\<rparr>)
                   else
                     upd_peer (pr_uid j) (\<lambda>p. p\<lparr>pr_snp_sync_ctx :=
                       Some (sync_ctx\<lparr>sx_offset := rs_next_idx resp\<rparr>)\<rparr>)) (\<lambda>_.
                bindM joining_peer (\<lambda>j.
                sync_log_to_new_srv (pr_next_log_idx j)))))"

definition handle_ext_resp :: "resp_msg \<Rightarrow> unit server_op" where
  "handle_ext_resp resp =
     (case rs_type resp of
        sync_log_response \<Rightarrow>
          bindM (getM sv_srv_to_join) (\<lambda>srv_to_join.
          case srv_to_join of
            None \<Rightarrow> ret ()
          | Some j \<Rightarrow>
              bindM (upd_peer (pr_uid j) (\<lambda>p. (resume_hb_speed p)
                       \<lparr>pr_next_log_idx := rs_next_idx resp,
                        pr_matched_idx := rs_next_idx resp - 1\<rparr>)) (\<lambda>_.
              sync_log_to_new_srv (rs_next_idx resp)))
      | join_cluster_response \<Rightarrow>
          bindM (getM sv_srv_to_join) (\<lambda>srv_to_join.
          whenM (srv_to_join \<noteq> None \<and> rs_accepted resp)
            (sync_log_to_new_srv (rs_next_idx resp)))
      | leave_cluster_response \<Rightarrow>
          whenM (rs_accepted resp) (rm_srv_from_cluster (rs_src resp))
      | install_snapshot_response \<Rightarrow> handle_ext_install_snapshot_resp resp
      | _ \<Rightarrow> exit_throw)"

text \<open>The exception carries the request that failed.\<close>

definition handle_ext_resp_err :: "req_msg \<Rightarrow> unit server_op" where
  "handle_ext_resp_err req =
     whenM (rq_type req \<in> {sync_log_request, join_cluster_request, leave_cluster_request})
       (bindM (getM (\<lambda>s. if rq_type req = leave_cluster_request
                         then map_of (sv_peers s) (rq_dst req) else sv_srv_to_join s)) (\<lambda>p.
        case p of
          None \<Rightarrow> ret ()
        | Some p \<Rightarrow>
            bindM (getM (\<lambda>s. sint (pr_current_hb_interval p) \<ge> sint (max_hb_interval (sv_params s)))) (\<lambda>give_up.
            if give_up then
              if rq_type req = leave_cluster_request then
                bindM (bindM (getM (\<lambda>s. length (sv_peers s) = 1)) (\<lambda>two_servers.
                       whenM two_servers (remove_peer (pr_id p)))) (\<lambda>_.
                rm_srv_from_cluster (pr_id p))
              else modM (\<lambda>s. s\<lparr>sv_config_changing := False, sv_srv_to_join := None\<rparr>)
            else
              bindM (upd_peer (pr_uid p) slow_down_hb) (\<lambda>_.
              emit (Schedule_retry (pr_uid p) req (pr_current_hb_interval (slow_down_hb p)))))))"

text \<open>
  The result of a call: \<^verbatim>\<open>peer::handle_rpc_result\<close>, bound to the peer it was sent to, then the
  handler it was sent with. An error is the request that failed.
\<close>

definition on_rpc_result ::
  "time_point \<Rightarrow> nat \<Rightarrow> req_msg \<Rightarrow> rpc_handler \<Rightarrow> req_msg + resp_msg \<Rightarrow> unit server_op" where
  "on_rpc_result now u req handler result =
     bindM (get_peer u) (\<lambda>_.
     bindM (upd_peer u (rpc_done req (isl result))) (\<lambda>_.
     case (handler, result) of
       (Resp_handler, Inl _) \<Rightarrow> ret ()
     | (Resp_handler, Inr resp) \<Rightarrow> handle_peer_resp now resp
     | (Ex_resp_handler, Inl err) \<Rightarrow> handle_ext_resp_err err
     | (Ex_resp_handler, Inr resp) \<Rightarrow> handle_ext_resp resp))"

section \<open>Timers\<close>

primrec erase_server :: "int32 \<Rightarrow> srv_config list \<Rightarrow> srv_config list" where
  "erase_server i [] = []"
| "erase_server i (srv # srvs) = (if sc_id srv = i then srvs else srv # erase_server i srvs)"

definition step_down :: "unit server_op" where
  "step_down =
     bindM (getM (\<lambda>s. get_server (sv_config s) (sv_id s) \<noteq> None)) (\<lambda>member.
     bindM (whenM member (blockM
       [bindM (getM sv_id) (\<lambda>i. update_config (\<lambda>c. c\<lparr>cc_servers := erase_server i (cc_servers c)\<rparr>)),
        bindM (getM sv_config) save_config_op])) (\<lambda>_.
     exit_throw))"

definition start_election :: "unit server_op" where
  "start_election =
     blockM
       [modM (\<lambda>s. s\<lparr>sv_state := \<lparr>st_term = sv_term s + 1, st_voted_for = - 1\<rparr>,
                    sv_role := candidate, sv_votes_granted := 0, sv_voted_servers := [],
                    sv_election_completed := False\<rparr>),
        save_state_op,
        request_vote,
        bindM (getM sv_role) (\<lambda>role. whenM (role \<noteq> leader) restart_election_timer)]"

definition handle_election_timeout :: "unit server_op" where
  "handle_election_timeout =
     bindM (getM (\<lambda>s. sint (sv_steps_to_down s) > 0)) (\<lambda>stepping_down.
     if stepping_down then
       bindM (modM (\<lambda>s. s\<lparr>sv_steps_to_down := sv_steps_to_down s - 1\<rparr>)) (\<lambda>_.
       bindM (getM sv_steps_to_down) (\<lambda>steps.
       if steps = 0 then step_down else restart_election_timer))
     else
       bindM (getM sv_catching_up) (\<lambda>catching_up.
       if catching_up then restart_election_timer
       else
         bindM (getM sv_role) (\<lambda>role.
         if role = leader then exit_throw else start_election)))"

definition handle_hb_timeout :: "nat \<Rightarrow> unit server_op" where
  "handle_hb_timeout u =
     bindM (getM sv_role) (\<lambda>role.
     whenM (role = leader)
       (bindM (request_append_entries_to u) (\<lambda>_.
        bindM (get_peer u) (\<lambda>p.
        whenM (pr_hb_enabled p) (emit (Schedule_hb u (pr_current_hb_interval p)))))))"

section \<open>Calls of the embedding program\<close>

text \<open>An \<^verbatim>\<open>async_result<bool>\<close>: known at once, or left to a call in flight.\<close>

datatype async_result = Ready bool | Pending

definition send_msg_to_leader :: "time_point \<Rightarrow> req_msg \<Rightarrow> async_result server_op" where
  "send_msg_to_leader now req =
     bindM (getM sv_leader) (\<lambda>leader_id.
     bindM (getM sv_id) (\<lambda>my_id.
     if leader_id = - 1 then ret (Ready False)
     else if leader_id = my_id then
       bindM (process_req now req) (\<lambda>resp. ret (Ready (rs_accepted resp)))
     else
       bindM (getM (\<lambda>s. map_of (sv_rpc_clients s) leader_id)) (\<lambda>itor.
       bindM (getM (\<lambda>s. get_server (sv_config s) leader_id)) (\<lambda>srv_conf.
       case (itor, srv_conf) of
         (None, None) \<Rightarrow> ret (Ready False)
       | (None, Some srv) \<Rightarrow>
           bindM (modM (\<lambda>s. s\<lparr>sv_rpc_clients :=
                    umap_insert leader_id (sc_endpoint srv) (sv_rpc_clients s)\<rparr>)) (\<lambda>_.
           bindM (emit (Send_client leader_id req)) (\<lambda>_. ret Pending))
       | (Some _, _) \<Rightarrow> bindM (emit (Send_client leader_id req)) (\<lambda>_. ret Pending)))))"

definition add_srv :: "time_point \<Rightarrow> srv_config \<Rightarrow> async_result server_op" where
  "add_srv now srv =
     bindM (liftR (srv_config_serialize srv)) (\<lambda>buf.
     send_msg_to_leader now ((req_msg_new 0 add_server_request 0 0 0 0 0)
       \<lparr>rq_log_entries := [log_entry_new 0 buf cluster_server]\<rparr>))"

definition append_entries :: "time_point \<Rightarrow> buffer list \<Rightarrow> async_result server_op" where
  "append_entries now logs =
     (if logs = [] then ret (Ready False)
      else send_msg_to_leader now ((req_msg_new 0 client_request 0 0 0 0 0)
        \<lparr>rq_log_entries := map (\<lambda>item. log_entry_new 0 item app_log) logs\<rparr>))"

definition remove_srv :: "time_point \<Rightarrow> int32 \<Rightarrow> async_result server_op" where
  "remove_srv now srv_id =
     bindM (liftR (rbind (alloc 4) (\<lambda>buf. rbind (put_int srv_id buf) (\<lambda>buf. Inr (set_pos 0 buf))))) (\<lambda>buf.
     send_msg_to_leader now ((req_msg_new 0 remove_server_request 0 0 0 0 0)
       \<lparr>rq_log_entries := [log_entry_new 0 buf cluster_server]\<rparr>))"

section \<open>Construction\<close>

definition uncommitted_conf :: "ulong list \<Rightarrow> log_store \<Rightarrow> bool res" where
  "uncommitted_conf is l =
     foldR (\<lambda>i found. if found then Inr True
                       else rbind (entry_at i l) (\<lambda>e. Inr (le_val_type e = conf))) is False"

definition initial_peers :: "int32 \<Rightarrow> raft_params \<Rightarrow> srv_config list \<Rightarrow> (int32 \<times> peer) list" where
  "initial_peers my_id params srvs =
     fold (\<lambda>(u, srv) m. umap_insert (sc_id srv) (peer_new u srv params) m)
       (enumerate 0 (filter (\<lambda>srv. sc_id srv \<noteq> my_id) srvs)) []"

definition raft_server_fields ::
  "raft_params \<Rightarrow> state_mgr \<Rightarrow> echo_state_machine \<Rightarrow> log_store \<Rightarrow> (nat \<Rightarrow> int32) \<Rightarrow> raft_server" where
  "raft_server_fields params mgr machine logs rand =
     \<lparr>sv_leader = - 1, sv_id = server_id mgr, sv_votes_granted = 0,
      sv_quick_commit_idx = sm_last_commit_index machine,
      sv_sm_commit_index = sm_last_commit_index machine,
      sv_election_completed = True, sv_config_changing = False, sv_catching_up = False,
      sv_stopping = False, sv_steps_to_down = 0, sv_snp_in_progress = False,
      sv_params = params, sv_state_mgr = mgr, sv_election_task = False, sv_peers = [],
      sv_rpc_clients = [], sv_role = follower,
      sv_state = (case read_state mgr of
                    None \<Rightarrow> \<lparr>st_term = 0, st_voted_for = - 1\<rparr> | Some st \<Rightarrow> st),
      sv_log_store = logs, sv_state_machine = machine, sv_config = load_config mgr,
      sv_config_shared = True, sv_srv_to_join = None, sv_conf_to_add = None,
      sv_last_snapshot = sm_last_snapshot machine, sv_voted_servers = [],
      sv_quorum_elapsed = 0x7FFFFFFF, sv_rand = rand, sv_draws = 0, sv_next_uid = 0,
      sv_outbox = []\<rparr>"

definition raft_server_init :: "unit server_op" where
  "raft_server_init =
     blockM
       [bindM (getM (\<lambda>s. ulong_range (max (sv_sm_commit_index s + 1) (sv_start_index s)) (sv_next_slot s))) (\<lambda>is.
        bindM (read_log (uncommitted_conf is)) (\<lambda>found.
        whenM found (set_config_changing True))),
        modM (\<lambda>s. s\<lparr>sv_peers := initial_peers (sv_id s) (sv_params s) (cc_servers (sv_config s)),
                    sv_next_uid := length (cc_servers (sv_config s))\<rparr>),
        restart_election_timer]"

definition raft_server_new ::
  "raft_params \<Rightarrow> state_mgr \<Rightarrow> echo_state_machine \<Rightarrow> log_store \<Rightarrow> (nat \<Rightarrow> int32) \<Rightarrow> unit res \<times> raft_server" where
  "raft_server_new params mgr machine logs rand =
     raft_server_init (raft_server_fields params mgr machine logs rand)"

end
