(* ===== verification/Commit_Thread.thy ===== *)
theory Commit_Thread
  imports Membership
begin

text \<open>
  The thread that hands committed entries to the state machine (\<^verbatim>\<open>commit_in_bg\<close>), with the
  snapshots and the compaction of the log it triggers.
\<close>

section \<open>Snapshots\<close>

text \<open>
  The loop that walks back to the configuration in force at an index. It follows the
  chain of previous configurations stored in the log and ends for every log whose
  configurations point strictly backwards.
\<close>

partial_function (option) find_conf ::
  "log_store \<Rightarrow> ulong \<Rightarrow> cluster_config \<Rightarrow> cluster_config res option" where
  "find_conf l committed_idx cfg =
     (if cc_log_idx cfg > committed_idx \<and> cc_prev_log_idx cfg \<ge> start_index l then
        (case rbind (entry_at (cc_prev_log_idx cfg) l) (\<lambda>conf_log.
              rbind (get_buf conf_log) (\<lambda>buf.
              rbind (cluster_config_deserialize buf) (\<lambda>(c, _). Inr c))) of
           Inl e \<Rightarrow> Some (Inl e)
         | Inr c \<Rightarrow> find_conf l committed_idx c)
      else Some (Inr cfg))"

declare find_conf.simps [code]

definition on_snapshot_completed :: "snapshot \<Rightarrow> bool \<Rightarrow> bool \<Rightarrow> unit server_op" where
  "on_snapshot_completed snp result failed =
     blockM
       [whenM (\<not> failed \<and> result)
          (blockM
            [modM (\<lambda>s. s\<lparr>sv_last_snapshot := Some snp\<rparr>),
             bindM (getM (\<lambda>s. int32_to_ulong (pa_reserved_log_items (sv_params s)))) (\<lambda>reserved.
             whenM (sn_last_log_idx snp > reserved)
               (bindM (on_log (compact (sn_last_log_idx snp - reserved))) (\<lambda>_. ret ())))]),
        modM (\<lambda>s. s\<lparr>sv_snp_in_progress := False\<rparr>)]"

text \<open>The part of \<^verbatim>\<open>snapshot_and_compact\<close> that runs with \<^verbatim>\<open>snp_in_progress_\<close> set.\<close>

definition create_snapshot :: "ulong \<Rightarrow> unit server_op" where
  "create_snapshot committed_idx =
     bindM (getM sv_config) (\<lambda>config.
     bindM (read_log (\<lambda>l. case find_conf l committed_idx config of
                            None \<Rightarrow> Inl Diverges | Some r \<Rightarrow> r)) (\<lambda>conf.
     bindM (getM sv_start_index) (\<lambda>start.
     bindM
       (if cc_log_idx conf > committed_idx \<and> cc_prev_log_idx conf > 0 \<and>
           cc_prev_log_idx conf < start then
          bindM (getM sv_last_snapshot) (\<lambda>last_snapshot.
          case last_snapshot of
            None \<Rightarrow> exit_throw
          | Some snp \<Rightarrow> ret (sn_last_config snp))
        else if cc_log_idx conf > committed_idx \<and> cc_prev_log_idx conf = 0 then exit_throw
        else ret conf) (\<lambda>conf.
     bindM (read_log (term_at committed_idx)) (\<lambda>log_term_to_compact.
     let new_snapshot = snapshot_new committed_idx log_term_to_compact conf 0 in
     bindM (on_machine (sm_create_snapshot new_snapshot)) (\<lambda>_.
     on_snapshot_completed new_snapshot True False))))))"

definition snapshot_and_compact :: "ulong \<Rightarrow> unit server_op" where
  "snapshot_and_compact committed_idx =
     bindM (getM (\<lambda>s. pa_snapshot_distance (sv_params s) = 0 \<or>
              committed_idx - sv_start_index s < int32_to_ulong (pa_snapshot_distance (sv_params s)))) (\<lambda>skip.
     if skip then ret ()
     else
       bindM (getM (\<lambda>s.
         (case sv_last_snapshot s of
            None \<Rightarrow> True
          | Some snp \<Rightarrow> committed_idx - sn_last_log_idx snp \<ge>
                         int32_to_ulong (pa_snapshot_distance (sv_params s))) \<and>
         \<not> sv_snp_in_progress s)) (\<lambda>due.
       whenM due
         (bindM (modM (\<lambda>s. s\<lparr>sv_snp_in_progress := True\<rparr>)) (\<lambda>_.
          catchM (create_snapshot committed_idx)
            (\<lambda>_. modM (\<lambda>s. s\<lparr>sv_snp_in_progress := False\<rparr>))))))"

section \<open>Committing\<close>

text \<open>One round of the inner loop: the next committed entry is applied.\<close>

definition commit_conf :: "buffer \<Rightarrow> unit server_op" where
  "commit_conf buf =
     bindM (liftR (rbind (cluster_config_deserialize (set_pos 0 buf)) (\<lambda>(c, _). Inr c))) (\<lambda>new_conf.
     blockM
       [save_config_op new_conf,
        set_config_changing False,
        bindM (getM (\<lambda>s. cc_log_idx (sv_config s) < cc_log_idx new_conf)) (\<lambda>newer.
        whenM newer (reconfigure new_conf)),
        bindM (getM (\<lambda>s. sv_catching_up s \<and> get_server new_conf (sv_id s) \<noteq> None)) (\<lambda>joined.
        whenM joined (modM (\<lambda>s. s\<lparr>sv_catching_up := False\<rparr>)))])"

definition commit_one :: "unit server_op" where
  "commit_one =
     bindM (modM (\<lambda>s. s\<lparr>sv_sm_commit_index := sv_sm_commit_index s + 1\<rparr>)) (\<lambda>_.
     bindM (getM sv_sm_commit_index) (\<lambda>idx.
     bindM (read_log (entry_at idx)) (\<lambda>entry.
     bindM
       (if le_val_type entry = app_log then
          bindM (liftR (get_buf entry)) (\<lambda>buf. on_machine (sm_commit idx buf))
        else if le_val_type entry = conf then
          bindM (liftR (get_buf entry)) commit_conf
        else ret ()) (\<lambda>_.
     snapshot_and_compact idx))))"

definition commit_pending :: "raft_server \<Rightarrow> bool" where
  "commit_pending s \<longleftrightarrow>
     sv_sm_commit_index s < sv_quick_commit_idx s \<and> sv_sm_commit_index s < sv_next_slot s - 1"

end
