(* ===== verification/Server_Frames.thy ===== *)
theory Server_Frames
  imports Response_Handlers Commit_Thread
begin

text \<open>
  What the operations of a server keep. A view is a reflexive and transitive relation
  between states, such as the equality of some fields or an invariant that carries over;
  each locale states that updates of some fields stay within the relation, and proves that
  the operations which make only such updates do, however they end. The views the
  development uses (the vote, the log, the commit indexes, what is persisted) are
  interpretations.
\<close>

section \<open>Sends, timers and the contents of peers\<close>

locale peer_view = step_order R for R :: "raft_server \<Rightarrow> raft_server \<Rightarrow> bool" +
  assumes f_outbox: "R s (s\<lparr>sv_outbox := x\<rparr>)"
    and f_draws: "R s (s\<lparr>sv_draws := n\<rparr>)"
    and f_task: "R s (s\<lparr>sv_election_task := b\<rparr>)"
    and f_peer: "R s (map_peer u g s)"
begin

lemmas intros = keeps_intros keeps_modM

lemma keeps_save_state_op:
  assumes "\<And>s. R s (s\<lparr>sv_state_mgr := (sv_state_mgr s)\<lparr>mg_saved_state := Some (sv_state s)\<rparr>\<rparr>)"
  shows "keeps R save_state_op"
  using assms by (simp add: keeps_def save_state_op_def on_mgr_def run_simps save_state_run)

lemma keeps_emit: "keeps R (emit x)"
  unfolding emit_def by (intro intros) (simp add: f_outbox)

lemma keeps_upd_peer: "keeps R (upd_peer u g)"
  unfolding upd_peer_def by (intro intros) (simp add: f_peer)

lemma keeps_exit_throw: "keeps R exit_throw"
  unfolding exit_throw_def by (intro intros keeps_emit)

lemma keeps_get_peer: "keeps R (get_peer u)"
  unfolding get_peer_def by (intro intros)

lemma keeps_for_peers: "(\<And>u. keeps R (g u)) \<Longrightarrow> keeps R (for_peers g)"
  unfolding for_peers_def by (intro intros)

lemma keeps_read_log: "keeps R (read_log g)"
  unfolding read_log_def by (intro intros)

lemma keeps_send_req: "keeps R (send_req u req h)"
  unfolding send_req_def by (rule keeps_emit)

lemmas basic_intros =
  intros keeps_emit keeps_upd_peer keeps_exit_throw keeps_get_peer keeps_for_peers keeps_read_log
  keeps_send_req

lemma keeps_enable_hb: "keeps R (enable_hb u b)"
  unfolding enable_hb_def by (intro basic_intros)

lemma keeps_enable_hb_for_peer: "keeps R (enable_hb_for_peer u)"
  unfolding enable_hb_for_peer_def by (intro basic_intros keeps_enable_hb)

lemma keeps_restart_election_timer: "keeps R restart_election_timer"
  unfolding restart_election_timer_def rand_timeout_def
  by (intro basic_intros) (simp_all add: f_draws f_task)

lemma keeps_stop_election_timer: "keeps R stop_election_timer"
  unfolding stop_election_timer_def by (intro basic_intros)

lemma keeps_term_for_log: "keeps R (term_for_log i)"
  unfolding term_for_log_def by (intro basic_intros)

lemma keeps_select_snapshot: "keeps R (select_snapshot u i)"
  unfolding select_snapshot_def by (intro basic_intros)

lemma keeps_create_sync_snapshot_req: "keeps R (create_sync_snapshot_req u i t c)"
  unfolding create_sync_snapshot_req_def Let_def by (intro basic_intros keeps_select_snapshot)

lemma keeps_create_append_entries_req: "keeps R (create_append_entries_req u)"
  unfolding create_append_entries_req_def Let_def
  by (intro basic_intros keeps_create_sync_snapshot_req keeps_term_for_log)

lemma keeps_request_append_entries_to: "keeps R (request_append_entries_to u)"
  unfolding request_append_entries_to_def
  by (intro basic_intros keeps_create_append_entries_req)

end

section \<open>The commit index\<close>

locale commit_view = peer_view +
  assumes f_quick: "R s (s\<lparr>sv_quick_commit_idx := i\<rparr>)"
begin

lemma keeps_commit: "keeps R (commit i)"
  unfolding commit_def
  by (intro basic_intros keeps_request_append_entries_to) (simp add: f_quick)

lemma keeps_request_append_entries: "keeps R request_append_entries"
  unfolding request_append_entries_def
  by (intro basic_intros keeps_request_append_entries_to keeps_commit)

end

section \<open>The role\<close>

text \<open>Views that do not see the role: a server that steps back to follower keeps them.\<close>

locale follower_view = peer_view +
  assumes f_follower: "R s (s\<lparr>sv_srv_to_join := None, sv_role := follower\<rparr>)"
begin

lemma keeps_become_follower: "keeps R become_follower"
  unfolding become_follower_def blockM.simps
  by (intro basic_intros keeps_enable_hb keeps_restart_election_timer) (simp add: f_follower)

end

text \<open>Views that see neither the term nor the vote.\<close>

locale term_view = follower_view +
  assumes f_term: "R s (s\<lparr>sv_state := st, sv_election_completed := b, sv_votes_granted := n, sv_voted_servers := v\<rparr>)"
    and f_saved: "R s (s\<lparr>sv_state_mgr := (sv_state_mgr s)\<lparr>mg_saved_state := Some (sv_state s)\<rparr>\<rparr>)"
begin

lemma keeps_update_term: "keeps R (update_term t)"
  unfolding update_term_def
  by (intro basic_intros keeps_become_follower keeps_save_state_op f_saved) (rule f_term)

end

section \<open>Log entries and the state machine\<close>

locale changing_view = peer_view +
  assumes f_changing: "R s (s\<lparr>sv_config_changing := b\<rparr>)"
begin

lemma keeps_set_config_changing: "keeps R (set_config_changing b)"
  unfolding set_config_changing_def by (intro intros) (simp add: f_changing)

end

locale entry_view = changing_view +
  assumes f_log: "R s (s\<lparr>sv_log_store := l\<rparr>)"
    and f_machine: "R s (s\<lparr>sv_state_machine := m\<rparr>)"
begin

lemma keeps_on_log: "keeps R (on_log m)"
  unfolding on_log_def by (rule keeps_zoomM) (simp add: f_log)

lemma keeps_on_machine: "keeps R (on_machine m)"
  unfolding on_machine_def by (rule keeps_zoomM) (simp add: f_machine)

lemmas entry_intros = basic_intros keeps_on_log keeps_on_machine keeps_set_config_changing

lemma keeps_append_conf: "keeps R (append_conf c)"
  unfolding append_conf_def by (intro entry_intros)

lemma keeps_pre_commit_entry: "keeps R (pre_commit_entry i e)"
  unfolding pre_commit_entry_def by (intro entry_intros)

lemma keeps_overwrite_entry: "keeps R (overwrite_entry i e)"
  unfolding overwrite_entry_def blockM.simps by (intro entry_intros keeps_pre_commit_entry)

lemma keeps_overwrite_entries: "keeps R (overwrite_entries es i)"
  by (induction es arbitrary: i) (auto intro!: entry_intros keeps_overwrite_entry)

lemma keeps_store_entries: "keeps R (store_entries i es)"
  unfolding store_entries_def append_entry_def
  by (intro entry_intros keeps_overwrite_entries keeps_pre_commit_entry)

lemma keeps_append_client_entry: "keeps R (append_client_entry e)"
  unfolding append_client_entry_def by (intro entry_intros)

end

section \<open>Configurations\<close>

locale config_view = changing_view +
  assumes f_saved: "R s (s\<lparr>sv_state_mgr := (sv_state_mgr s)\<lparr>mg_saved_state := Some (sv_state s)\<rparr>\<rparr>)"
    and f_mgr: "R s (s\<lparr>sv_state_mgr := (sv_state_mgr s)\<lparr>mg_saved_config := c\<rparr>\<rparr>)"
    and f_config: "R s (s\<lparr>sv_config := c\<rparr>)"
    and f_shared: "R s (s\<lparr>sv_config_shared := b\<rparr>)"
    and f_peers: "R s (s\<lparr>sv_peers := ps\<rparr>)"
    and f_uid: "R s (s\<lparr>sv_next_uid := n\<rparr>)"
    and f_join: "R s (s\<lparr>sv_srv_to_join := j\<rparr>)"
    and f_catching_up: "R s (s\<lparr>sv_catching_up := b\<rparr>)"
begin

lemma f_config_mgr:
  "R s (s\<lparr>sv_config := c, sv_state_mgr := (sv_state_mgr s)\<lparr>mg_saved_config := d\<rparr>\<rparr>)"
  using R_trans [OF f_config [of s c] f_mgr [of "s\<lparr>sv_config := c\<rparr>" d]] by simp

lemma f_config_shared: "R s (s\<lparr>sv_config := c, sv_config_shared := b\<rparr>)"
  by (rule R_trans [OF f_config f_shared])

lemma f_uid_peers: "R s (s\<lparr>sv_next_uid := n, sv_peers := ps\<rparr>)"
  by (rule R_trans [OF f_uid f_peers])

lemma keeps_save_state: "keeps R save_state_op"
  by (rule keeps_save_state_op) (rule f_saved)

lemma keeps_on_mgr_config: "keeps R (on_mgr (save_config c))"
proof (rule keepsI)
  fix s :: raft_server
  obtain r m where m: "save_config c (sv_state_mgr s) = (r, m)" by fastforce
  then have "m = sv_state_mgr s \<or> (\<exists>c. m = (sv_state_mgr s)\<lparr>mg_saved_config := c\<rparr>)"
    by (auto simp: save_config_def run_simps split: sum.splits)
  with m show "R s (snd (on_mgr (save_config c) s))"
    by (auto simp: on_mgr_def run_simps f_mgr R_refl)
qed

lemma keeps_save_config_op: "keeps R (save_config_op c)"
  unfolding save_config_op_def by (intro basic_intros keeps_on_mgr_config) (simp add: f_shared)

lemma keeps_update_config: "keeps R (update_config g)"
  unfolding update_config_def
  by (intro intros) (auto intro: f_config f_config_mgr)

lemmas config_intros =
  basic_intros keeps_set_config_changing keeps_save_state keeps_save_config_op keeps_update_config

lemma keeps_add_peer: "keeps R (add_peer srv)"
  unfolding add_peer_def blockM.simps
  by (intro config_intros) (simp_all add: f_uid_peers f_join)

lemma keeps_remove_peer: "keeps R (remove_peer i)"
  unfolding remove_peer_def by (intro config_intros keeps_enable_hb) (simp add: f_peers)

lemma keeps_remove_servers: "keeps R (remove_servers is c)"
proof (induction "is")
  case Nil
  show ?case
    by (simp, intro config_intros) (rule f_config_shared)
next
  case (Cons i "is")
  then show ?case
    by (simp, intro config_intros keeps_remove_peer)
qed

lemma keeps_reconfigure: "keeps R (reconfigure c)"
  unfolding reconfigure_def by (intro config_intros keeps_add_peer keeps_remove_servers)

lemma keeps_commit_conf: "keeps R (commit_conf b)"
  unfolding commit_conf_def blockM.simps
  by (intro config_intros keeps_reconfigure) (simp_all add: f_catching_up)

end

section \<open>Applying entries\<close>

locale apply_view = config_view R + entry_view R for R +
  assumes f_snapshot: "R s (s\<lparr>sv_last_snapshot := snp\<rparr>)"
    and f_snp: "R s (s\<lparr>sv_snp_in_progress := b\<rparr>)"
begin

lemmas apply_intros = config_intros keeps_on_log keeps_on_machine

lemma keeps_on_snapshot_completed: "keeps R (on_snapshot_completed snp b c)"
  unfolding on_snapshot_completed_def blockM.simps
  by (intro apply_intros) (simp_all add: f_snapshot f_snp)

lemma keeps_create_snapshot: "keeps R (create_snapshot i)"
  unfolding create_snapshot_def Let_def by (intro apply_intros keeps_on_snapshot_completed)

lemma keeps_snapshot_and_compact: "keeps R (snapshot_and_compact i)"
  unfolding snapshot_and_compact_def
  by (intro apply_intros keeps_create_snapshot) (simp_all add: f_snp)

end

section \<open>Everything but roles and votes\<close>

locale server_view = commit_view R + apply_view R for R +
  assumes f_leader: "R s (s\<lparr>sv_leader := i\<rparr>)"
    and f_add: "R s (s\<lparr>sv_conf_to_add := srv\<rparr>)"
    and f_sm: "R s (s\<lparr>sv_sm_commit_index := k\<rparr>)"
    and f_steps: "R s (s\<lparr>sv_steps_to_down := n\<rparr>)"
    and f_clients: "R s (s\<lparr>sv_rpc_clients := cs\<rparr>)"
    and f_elapsed: "R s (s\<lparr>sv_quorum_elapsed := e\<rparr>)"
begin

lemma f_add_join: "R s (s\<lparr>sv_conf_to_add := srv, sv_srv_to_join := j, sv_next_uid := n\<rparr>)"
  by (rule R_trans [OF R_trans [OF f_add f_join] f_uid])

lemma f_changing_join: "R s (s\<lparr>sv_config_changing := b, sv_srv_to_join := j\<rparr>)"
  by (rule R_trans [OF f_changing f_join])

lemma f_sm_quick: "R s (s\<lparr>sv_sm_commit_index := i, sv_quick_commit_idx := k\<rparr>)"
  by (rule R_trans [OF f_sm f_quick])

lemmas f_simps =
  f_quick f_leader f_add f_snapshot f_snp f_sm f_steps f_catching_up f_clients f_elapsed
  f_join f_uid f_peers f_config f_shared f_mgr f_changing f_add_join f_changing_join f_sm_quick R_refl

lemmas server_intros =
  config_intros keeps_on_log keeps_on_machine keeps_commit keeps_request_append_entries keeps_request_append_entries_to
  keeps_append_conf keeps_create_sync_snapshot_req keeps_enable_hb keeps_restart_election_timer
  keeps_stop_election_timer keeps_reconfigure keeps_remove_peer keeps_term_for_log
  keeps_store_entries

lemma keeps_joining_peer: "keeps R joining_peer"
  unfolding joining_peer_def by (intro server_intros)

lemma keeps_put_joining_server: "keeps R put_joining_server"
  unfolding put_joining_server_def blockM.simps by (intro server_intros)

lemma keeps_sync_log_to_new_srv: "keeps R (sync_log_to_new_srv i)"
  unfolding sync_log_to_new_srv_def
  by (intro server_intros keeps_joining_peer keeps_put_joining_server)

lemma keeps_invite: "keeps R invite_srv_to_join_cluster"
  unfolding invite_srv_to_join_cluster_def by (intro server_intros keeps_joining_peer)

lemma keeps_rm_srv_from_cluster: "keeps R (rm_srv_from_cluster i)"
  unfolding rm_srv_from_cluster_def blockM.simps by (intro server_intros)

lemma keeps_commit_one: "keeps R commit_one"
  unfolding commit_one_def
  by (intro server_intros keeps_commit_conf keeps_snapshot_and_compact) (simp_all add: f_simps)

lemma keeps_leader_expired: "keeps R (leader_expired now)"
  unfolding leader_expired_def by (intro server_intros) (simp_all add: f_simps)

lemma keeps_handle_cli_req: "keeps R (handle_cli_req now req)"
  unfolding handle_cli_req_def
  by (intro server_intros keeps_leader_expired keeps_append_client_entry)

lemma keeps_accept_at_next_slot: "keeps R (accept_at_next_slot resp)"
  unfolding accept_at_next_slot_def by (intro server_intros)

lemma keeps_handle_add_srv_req: "keeps R (handle_add_srv_req req)"
  unfolding handle_add_srv_req_def
  by (intro server_intros keeps_invite keeps_accept_at_next_slot) (simp_all add: f_simps)

lemma keeps_handle_rm_srv_req: "keeps R (handle_rm_srv_req req)"
  unfolding handle_rm_srv_req_def by (intro server_intros keeps_accept_at_next_slot)

lemma keeps_handle_log_sync_req: "keeps R (handle_log_sync_req req)"
  unfolding handle_log_sync_req_def by (intro server_intros keeps_accept_at_next_slot)

lemma keeps_handle_leave_cluster_req: "keeps R (handle_leave_cluster_req req)"
  unfolding handle_leave_cluster_req_def
  by (intro server_intros keeps_accept_at_next_slot) (simp_all add: f_simps)

lemma keeps_handle_snapshot_sync_req: "keeps R (handle_snapshot_sync_req req)"
  unfolding handle_snapshot_sync_req_def install_snapshot_def Let_def
  by (intro server_intros) (simp_all add: f_simps)

lemma keeps_clear_pending: "keeps R (clear_pending u)"
  unfolding clear_pending_def by (intro server_intros)

lemma keeps_catch_up_peer: "keeps R (catch_up_peer u b)"
  unfolding catch_up_peer_def by (intro server_intros)

lemma keeps_handle_append_entries_resp: "keeps R (handle_append_entries_resp resp)"
  unfolding handle_append_entries_resp_def Let_def
  by (intro server_intros keeps_clear_pending keeps_catch_up_peer)

lemma keeps_handle_install_snapshot_resp: "keeps R (handle_install_snapshot_resp resp)"
  unfolding handle_install_snapshot_resp_def Let_def
  by (intro server_intros keeps_clear_pending keeps_catch_up_peer)

lemma keeps_handle_ext_install_snapshot_resp:
  "keeps R (handle_ext_install_snapshot_resp resp)"
  unfolding handle_ext_install_snapshot_resp_def Let_def
  by (intro server_intros keeps_joining_peer keeps_sync_log_to_new_srv)

lemma keeps_handle_ext_resp: "keeps R (handle_ext_resp resp)"
  unfolding handle_ext_resp_def
  by (cases "rs_type resp")
     (simp_all, (intro server_intros keeps_sync_log_to_new_srv keeps_rm_srv_from_cluster
        keeps_handle_ext_install_snapshot_resp)+)

lemma keeps_handle_ext_resp_err: "keeps R (handle_ext_resp_err req)"
  unfolding handle_ext_resp_err_def
  by (intro server_intros keeps_rm_srv_from_cluster) (simp_all add: f_simps)

lemma keeps_handle_hb_timeout: "keeps R (handle_hb_timeout u)"
  unfolding handle_hb_timeout_def by (intro server_intros)

lemma keeps_step_down: "keeps R step_down"
  unfolding step_down_def blockM.simps by (intro server_intros)

lemma keeps_log_okay_for: "keeps R (log_okay_for req)"
  unfolding log_okay_for_def by (intro server_intros)

end

end
