(* ===== verification/Voting.thy ===== *)
theory Voting
  imports Server_Frames
begin

text \<open>
  How the handlers change what an election depends on: the term and the vote, the role, and
  the tally of votes. Almost every operation leaves these alone or only adopts a newer term
  as a follower without a vote (\<open>ballot_order\<close>); the exceptions are the vote request, the
  response to it and the election timeout, described exactly here.
\<close>

section \<open>The ballot of a server\<close>

definition ballot_view :: "raft_server \<Rightarrow> int32 \<times> srv_state \<times> srv_role \<times> int32 \<times> int32 list" where
  "ballot_view s = (sv_id s, sv_state s, sv_role s, sv_votes_granted s, sv_voted_servers s)"

interpretation ballot: server_view "same ballot_view"
  by unfold_locales (simp_all add: ballot_view_def map_peer_def)

definition ballot_order :: "raft_server \<Rightarrow> raft_server \<Rightarrow> bool" where
  "ballot_order s t \<longleftrightarrow>
     sv_id t = sv_id s \<and>
     (sv_state t = sv_state s \<and> sv_votes_granted t = sv_votes_granted s \<and>
      sv_voted_servers t = sv_voted_servers s \<and> (sv_role t = sv_role s \<or> sv_role t = follower) \<or>
      sv_term s < sv_term t \<and> sv_voted_for t = - 1 \<and> sv_votes_granted t = 0 \<and>
      sv_voted_servers t = [] \<and> sv_role t = follower)"

interpretation ballots: step_order ballot_order
  by unfold_locales (auto simp: ballot_order_def)

lemma keeps_ballot: "keeps (same ballot_view) m \<Longrightarrow> keeps ballot_order m"
  by (auto simp: keeps_def ballot_view_def ballot_order_def)

lemma nothrow_save_state [nothrow_intros]: "nothrow (save_state st)"
  by (simp add: nothrow_def save_state_run)

lemma nothrow_emit [nothrow_intros]: "nothrow (emit x)"
  unfolding emit_def by (intro nothrow_intros)

lemma nothrow_upd_peer [nothrow_intros]: "nothrow (upd_peer u g)"
  unfolding upd_peer_def by (intro nothrow_intros)

lemma nothrow_enable_hb [nothrow_intros]: "nothrow (enable_hb u b)"
  unfolding enable_hb_def by (intro nothrow_intros)

lemma nothrow_for_peers [nothrow_intros]: "(\<And>u. nothrow (g u)) \<Longrightarrow> nothrow (for_peers g)"
  unfolding for_peers_def by (intro nothrow_intros)

lemma nothrow_restart_election_timer [nothrow_intros]: "nothrow restart_election_timer"
  unfolding restart_election_timer_def rand_timeout_def by (intro nothrow_intros)

lemma nothrow_stop_election_timer [nothrow_intros]: "nothrow stop_election_timer"
  unfolding stop_election_timer_def by (intro nothrow_intros)

lemma nothrow_save_state_op [nothrow_intros]: "nothrow save_state_op"
  unfolding save_state_op_def on_mgr_def by (intro nothrow_intros)

lemma nothrow_become_follower [nothrow_intros]: "nothrow become_follower"
  unfolding become_follower_def blockM.simps by (intro nothrow_intros)

lemma become_follower_ballot:
  "ballot_view (snd (become_follower s)) = ballot_view (s\<lparr>sv_role := follower\<rparr>)"
proof -
  let ?a = "for_peers (\<lambda>u. enable_hb u False)"
  let ?f = "\<lambda>s. s\<lparr>sv_srv_to_join := None, sv_role := follower\<rparr>"
  have "nothrow ?a" by (intro nothrow_intros)
  then obtain t where t: "?a s = (Inr (), t)" by (rule nothrowE [of _ s]) simp
  have "nothrow restart_election_timer" by (intro nothrow_intros)
  then obtain u where u: "restart_election_timer (?f t) = (Inr (), u)"
    by (rule nothrowE [of _ "?f t"]) simp
  have "keeps (same ballot_view) ?a"
    by (intro ballot.keeps_for_peers ballot.keeps_enable_hb)
  from sameD [OF this, of s] t have "ballot_view t = ballot_view s" by simp
  moreover from sameD [OF ballot.keeps_restart_election_timer, of "?f t"] u
  have "ballot_view u = ballot_view (?f t)" by simp
  moreover have "become_follower s = (Inr (), u)"
    by (simp add: become_follower_def run_simps t u)
  ultimately show ?thesis
    by (simp add: ballot_view_def)
qed

lemma ballot_become_follower: "keeps ballot_order become_follower"
  using become_follower_ballot by (auto simp: keeps_def ballot_view_def ballot_order_def)

lemma save_state_op_run:
  "save_state_op s = (Inr (), s\<lparr>sv_state_mgr := (sv_state_mgr s)\<lparr>mg_saved_state := Some (sv_state s)\<rparr>\<rparr>)"
  by (simp add: save_state_op_def on_mgr_def run_simps save_state_run)

text \<open>A newer term is adopted with no vote and the role of a follower; otherwise nothing happens.\<close>

lemma update_term_older: "t \<le> sv_term s \<Longrightarrow> update_term t s = (Inr False, s)"
  by (simp add: update_term_def run_simps leD)

lemma update_term_newer:
  assumes "sv_term s < t"
  shows "fst (update_term t s) = Inr True"
    and "ballot_view (snd (update_term t s)) =
           (sv_id s, \<lparr>st_term = t, st_voted_for = - 1\<rparr>, follower, 0, [])"
proof -
  let ?s = "s\<lparr>sv_state := \<lparr>st_term = t, st_voted_for = - 1\<rparr>, sv_election_completed := False,
              sv_votes_granted := 0, sv_voted_servers := [],
              sv_state_mgr := (sv_state_mgr s)\<lparr>mg_saved_state := Some \<lparr>st_term = t, st_voted_for = - 1\<rparr>\<rparr>\<rparr>"
  obtain x u where u: "become_follower ?s = (Inr x, u)"
    by (rule nothrowE [OF nothrow_become_follower])
  then have run: "update_term t s = (Inr True, u)"
    using assms by (simp add: update_term_def run_simps save_state_op_run)
  show "fst (update_term t s) = Inr True" using run by simp
  show "ballot_view (snd (update_term t s)) =
           (sv_id s, \<lparr>st_term = t, st_voted_for = - 1\<rparr>, follower, 0, [])"
    using run u become_follower_ballot [of ?s] by (simp add: ballot_view_def)
qed

lemma ballot_update_term: "keeps ballot_order (update_term t)"
proof (rule keepsI)
  fix s :: raft_server
  show "ballot_order s (snd (update_term t s))"
    using update_term_newer(2) [of s t] update_term_older [of t s]
    by (cases "sv_term s < t") (auto simp: ballot_order_def ballot_view_def)
qed


section \<open>Handlers that do not vote\<close>

lemma ballot_hear_leader: "keeps ballot_order hear_leader"
  unfolding hear_leader_def
  by (intro ballots.keeps_intros ballot_become_follower ballot.keeps_exit_throw [THEN keeps_ballot]
      ballot.keeps_restart_election_timer [THEN keeps_ballot])

lemma ballot_set_leader: "keeps ballot_order (modM (\<lambda>s. s\<lparr>sv_leader := i\<rparr>))"
  by (rule keeps_modM) (simp add: ballot_order_def)

lemma ballot_handle_append_entries: "keeps ballot_order (handle_append_entries req)"
  unfolding handle_append_entries_def
  by (intro ballots.keeps_intros ballot_hear_leader ballot_set_leader
      ballot.keeps_log_okay_for [THEN keeps_ballot] ballot.keeps_store_entries [THEN keeps_ballot]
      ballot.keeps_commit [THEN keeps_ballot])

lemma ballot_handle_install_snapshot_req: "keeps ballot_order (handle_install_snapshot_req req)"
  unfolding handle_install_snapshot_req_def
  by (intro ballots.keeps_intros ballot_hear_leader
      ballot.keeps_handle_snapshot_sync_req [THEN keeps_ballot])

lemma ballot_handle_extended_msg:
  "rq_type req \<noteq> join_cluster_request \<Longrightarrow> keeps ballot_order (handle_extended_msg req)"
  unfolding handle_extended_msg_def
  by (cases "rq_type req")
     (simp_all add: ballot_handle_install_snapshot_req
       ballot.keeps_handle_add_srv_req [THEN keeps_ballot] ballot.keeps_handle_rm_srv_req [THEN keeps_ballot]
       ballot.keeps_handle_log_sync_req [THEN keeps_ballot] ballot.keeps_exit_throw [THEN keeps_ballot]
       ballot.keeps_handle_leave_cluster_req [THEN keeps_ballot])

lemma ballot_steps_to_down:
  "keeps ballot_order (modM (\<lambda>s. if b s then s\<lparr>sv_steps_to_down := 2\<rparr> else s))"
  by (rule keeps_modM) (simp add: ballot_order_def)

lemma ballot_process_req:
  assumes "rq_type req \<noteq> request_vote_request" "rq_type req \<noteq> join_cluster_request"
  shows "keeps ballot_order (process_req now req)"
  using assms unfolding process_req_def
  by (auto intro!: ballots.keeps_intros ballot_update_term ballot_steps_to_down
      ballot_handle_append_entries ballot.keeps_handle_cli_req [THEN keeps_ballot]
      ballot_handle_extended_msg)

lemma ballot_upd_peer: "keeps ballot_order (upd_peer u g)"
  by (rule keeps_ballot) (rule ballot.keeps_upd_peer)

lemma ballot_handle_peer_resp:
  assumes "rs_type resp \<noteq> request_vote_response"
  shows "keeps ballot_order (handle_peer_resp now resp)"
proof -
  have "keeps ballot_order
      (case rs_type resp of
          request_vote_response \<Rightarrow> handle_voting_resp resp
        | append_entries_response \<Rightarrow> handle_append_entries_resp resp
        | install_snapshot_response \<Rightarrow> handle_install_snapshot_resp resp
        | _ \<Rightarrow> exit_throw)"
    using assms
    by (cases "rs_type resp")
       (simp_all add: ballot.keeps_exit_throw [THEN keeps_ballot]
         ballot.keeps_handle_append_entries_resp [THEN keeps_ballot]
         ballot.keeps_handle_install_snapshot_resp [THEN keeps_ballot])
  then show ?thesis
    unfolding handle_peer_resp_def
    by (intro ballots.keeps_intros ballot_upd_peer ballot_update_term)
qed

section \<open>Voting\<close>

lemma handle_vote_req_ballot:
  assumes "handle_vote_req req s = (r, t)"
  shows "sv_id t = sv_id s" "sv_role t = sv_role s" "sv_votes_granted t = sv_votes_granted s"
    "sv_voted_servers t = sv_voted_servers s" "sv_term t = sv_term s"
    and "sv_voted_for t = sv_voted_for s \<or>
         sv_voted_for t = rq_src req \<and> (sv_voted_for s = - 1 \<or> sv_voted_for s = rq_src req)"
    and "r = Inr resp \<Longrightarrow> rs_type resp = request_vote_response \<and> rs_src resp = sv_id s \<and>
           rs_dst resp = rq_src req \<and> rs_term resp = sv_term s \<and>
           (rs_accepted resp \<longrightarrow> sv_voted_for t = rq_src req)"
  using assms
  by (auto simp: handle_vote_req_def run_simps read_log_def save_state_op_run accept_def resp_msg_new_def
      Let_def split: sum.splits prod.splits if_splits)

lemma become_leader_ballot:
  "ballot_view (snd (become_leader s)) = ballot_view (s\<lparr>sv_role := leader\<rparr>)"
proof -
  let ?f = "\<lambda>s. s\<lparr>sv_role := leader, sv_leader := sv_id s, sv_srv_to_join := None\<rparr>"
  define rest where "rest = blockM
       [for_peers (\<lambda>u. blockM
          [bindM (getM sv_next_slot) (\<lambda>nxt. upd_peer u (\<lambda>p. p\<lparr>pr_next_log_idx := nxt\<rparr>)),
           upd_peer u (set_snapshot_in_sync None),
           upd_peer u set_free,
           enable_hb_for_peer u]),
        bindM (getM (\<lambda>s. cc_log_idx (sv_config s) = 0)) (\<lambda>initial.
        whenM initial (blockM
          [bindM (getM sv_next_slot) (\<lambda>nxt. update_config (set_log_idx nxt)),
           bindM (getM sv_config) append_conf,
           set_config_changing True])),
        request_append_entries]"
  have "nothrow stop_election_timer" by (intro nothrow_intros)
  then obtain t where t: "stop_election_timer s = (Inr (), t)" by (rule nothrowE [of _ s]) simp
  from sameD [OF ballot.keeps_stop_election_timer, of s] t have "ballot_view t = ballot_view s" by simp
  moreover have "keeps (same ballot_view) rest"
    unfolding rest_def blockM.simps
    by (intro ballot.server_intros ballot.keeps_enable_hb_for_peer)
  from sameD [OF this] have "ballot_view (snd (rest (?f t))) = ballot_view (?f t)" .
  moreover have "become_leader s = rest (?f t)"
    by (simp add: become_leader_def rest_def t run_bindM run_modM)
  ultimately show ?thesis
    by (simp add: ballot_view_def)
qed


text \<open>A vote that counts: the answer is of the current term and the first one of its sender.\<close>

lemma handle_voting_resp_ballot:
  fixes s resp
  defines "t \<equiv> snd (handle_voting_resp resp s)"
    and "votes \<equiv> sv_votes_granted s + (if rs_accepted resp then 1 else 0)"
  shows "ballot_view t = ballot_view s \<or>
    rs_term resp = sv_term s \<and> rs_src resp \<notin> set (sv_voted_servers s) \<and>
    (\<exists>role. ballot_view t = (sv_id s, sv_state s, role, votes, rs_src resp # sv_voted_servers s) \<and>
       (role = sv_role s \<or>
        role = leader \<and> sint votes > sint (of_nat ((length (sv_peers s) + 1) div 2) :: int32)))"
proof (cases "rs_term resp \<noteq> sv_term s \<or> sv_election_completed s \<or>
                      rs_src resp \<in> set (sv_voted_servers s)")
  case True
  then show ?thesis by (simp add: t_def handle_voting_resp_def run_simps)
next
  case False
  define u where "u = s\<lparr>sv_voted_servers := rs_src resp # sv_voted_servers s, sv_votes_granted := votes,
    sv_election_completed := (Suc (length (sv_voted_servers s)) \<ge> length (sv_peers s) + 1)\<rparr>"
  have fields: "sv_votes_granted u = votes" "sv_peers u = sv_peers s"
    "ballot_view u = (sv_id s, sv_state s, sv_role s, votes, rs_src resp # sv_voted_servers s)"
    by (simp_all add: u_def ballot_view_def)
  have run: "handle_voting_resp resp s =
    bindM (getM (\<lambda>s. sint (sv_votes_granted s) >
                         sint (of_nat ((length (sv_peers s) + 1) div 2) :: int32))) (\<lambda>elected.
        whenM elected (blockM
          [modM (\<lambda>s. s\<lparr>sv_election_completed := True\<rparr>),
           become_leader])) u"
    using False unfolding handle_voting_resp_def bind_steps
    by (simp add: blockM.simps bind_steps u_def votes_def run_simps)
  show ?thesis
  proof (cases "sint votes > sint (of_nat ((length (sv_peers s) + 1) div 2) :: int32)")
    case True
    then have "t = snd (become_leader (u\<lparr>sv_election_completed := True\<rparr>))"
      unfolding t_def run by (simp add: run_simps fields split: prod.split sum.split)
    then show ?thesis
      using True False fields(3) become_leader_ballot [of "u\<lparr>sv_election_completed := True\<rparr>"]
      by (simp add: ballot_view_def)
  next
    case elected: False
    then have "t = u"
      unfolding t_def run by (simp add: run_simps fields)
    then show ?thesis using False fields(3) by simp
  qed
qed

lemma request_vote_ballot:
  fixes s
  defines "t \<equiv> snd (request_vote s)"
  shows "\<exists>role. ballot_view t =
      (sv_id s, (sv_state s)\<lparr>st_voted_for := sv_id s\<rparr>, role, sv_votes_granted s + 1,
       List.insert (sv_id s) (sv_voted_servers s)) \<and>
      (role = sv_role s \<or>
       role = leader \<and> sint (sv_votes_granted s + 1) > sint (of_nat (length (sv_peers s) + 1) :: int32) sdiv 2)"
proof -
  have vote: "keeps (same ballot_view) (for_peers send_vote_req)"
    unfolding send_vote_req_def by (intro ballot.server_intros)
  let ?u = "s\<lparr>sv_state := (sv_state s)\<lparr>st_voted_for := sv_id s\<rparr>,
     sv_state_mgr := (sv_state_mgr s)\<lparr>mg_saved_state := Some ((sv_state s)\<lparr>st_voted_for := sv_id s\<rparr>)\<rparr>,
     sv_votes_granted := sv_votes_granted s + 1,
     sv_voted_servers := List.insert (sv_id s) (sv_voted_servers s)\<rparr>"
  show ?thesis
  proof (cases "sint (sv_votes_granted s + 1) > sint (of_nat (length (sv_peers s) + 1) :: int32) sdiv 2")
    case True
    have "t = snd (become_leader (?u\<lparr>sv_election_completed := True\<rparr>))"
      using True by (simp add: t_def request_vote_def run_simps save_state_op_run)
    with become_leader_ballot [of "?u\<lparr>sv_election_completed := True\<rparr>"] True show ?thesis
      by (simp add: ballot_view_def)
  next
    case False
    have "t = snd (for_peers send_vote_req ?u)"
      using False by (simp add: t_def request_vote_def run_simps save_state_op_run)
    with sameD [OF vote, of ?u] show ?thesis
      by (simp add: ballot_view_def)
  qed
qed

lemma start_election_ballot:
  fixes s
  defines "t \<equiv> snd (start_election s)"
  shows "\<exists>role. ballot_view t =
      (sv_id s, \<lparr>st_term = sv_term s + 1, st_voted_for = sv_id s\<rparr>, role, 1, [sv_id s]) \<and>
      (role = candidate \<or>
       role = leader \<and> sint (1 :: int32) > sint (of_nat (length (sv_peers s) + 1) :: int32) sdiv 2)"
proof -
  let ?u = "s\<lparr>sv_state := \<lparr>st_term = sv_term s + 1, st_voted_for = - 1\<rparr>,
     sv_role := candidate, sv_votes_granted := 0, sv_voted_servers := [], sv_election_completed := False,
     sv_state_mgr := (sv_state_mgr s)\<lparr>mg_saved_state := Some \<lparr>st_term = sv_term s + 1, st_voted_for = - 1\<rparr>\<rparr>\<rparr>"
  let ?tail = "\<lambda>_. blockM [bindM (getM sv_role) (\<lambda>role. whenM (role \<noteq> leader) restart_election_timer)]"
  have "keeps (same ballot_view) (?tail x)" for x :: unit
    unfolding blockM.simps by (intro ballot.server_intros)
  then have "ballot_view (snd (bindM request_vote ?tail ?u)) = ballot_view (snd (request_vote ?u))"
    by (rule same_tail)
  moreover have "t = snd (bindM request_vote ?tail ?u)"
    unfolding t_def start_election_def blockM.simps bind_steps
    by (simp add: bindM_run [OF save_state_op_run])
  ultimately show ?thesis
    using request_vote_ballot [of ?u] by (simp add: ballot_view_def)
qed

end
