(* ===== verification/Events.thy ===== *)
theory Events
  imports Voting
begin

text \<open>
  Everything that can happen to a server as one type of events, each run by the code that
  handles it, and the central fact about votes: on every event but a join request, the term
  never falls and a vote given in a term is never changed in that term.
\<close>

section \<open>Everything that can happen to a server\<close>

datatype event =
    Request time_point req_msg
  | Add_srv time_point srv_config
  | Append_entries time_point "buffer list"
  | Remove_srv time_point int32
  | Rpc_result time_point nat req_msg rpc_handler "req_msg + resp_msg"
  | Election_timeout
  | Hb_timeout nat
  | Retry nat req_msg
  | Commit_entry

definition no_response :: "'a server_op \<Rightarrow> resp_msg option server_op" where
  "no_response m = bindM m (\<lambda>_. ret None)"

fun run_event :: "event \<Rightarrow> resp_msg option server_op" where
  "run_event (Request now req) = bindM (process_req now req) (\<lambda>resp. ret (Some resp))"
| "run_event (Add_srv now srv) = no_response (add_srv now srv)"
| "run_event (Append_entries now logs) = no_response (append_entries now logs)"
| "run_event (Remove_srv now i) = no_response (remove_srv now i)"
| "run_event (Rpc_result now u req handler result) = no_response (on_rpc_result now u req handler result)"
| "run_event Election_timeout = no_response handle_election_timeout"
| "run_event (Hb_timeout u) = no_response (handle_hb_timeout u)"
| "run_event (Retry u req) = no_response (on_retryable_req_err u req)"
| "run_event Commit_entry =
     no_response (bindM (getM commit_pending) (\<lambda>pending. whenM pending commit_one))"

fun joins :: "event \<Rightarrow> bool" where
  "joins (Request _ req) = (rq_type req = join_cluster_request)"
| "joins _ = False"

fun is_vote_request :: "event \<Rightarrow> bool" where
  "is_vote_request (Request _ req) = (rq_type req = request_vote_request)"
| "is_vote_request _ = False"

fun is_vote_response :: "event \<Rightarrow> bool" where
  "is_vote_response (Rpc_result _ _ _ Resp_handler (Inr resp)) = (rs_type resp = request_vote_response)"
| "is_vote_response _ = False"

lemma ballot_send_msg_to_leader:
  assumes "rq_type req \<noteq> request_vote_request" "rq_type req \<noteq> join_cluster_request"
  shows "keeps ballot_order (send_msg_to_leader now req)"
  unfolding send_msg_to_leader_def
  by (intro ballots.keeps_intros ballot_process_req assms ballot.keeps_emit [THEN keeps_ballot] keeps_modM)
     (simp_all add: ballot_order_def)

lemma ballot_calls:
  "keeps ballot_order (add_srv now srv)" "keeps ballot_order (append_entries now logs)"
  "keeps ballot_order (remove_srv now i)"
  unfolding add_srv_def append_entries_def remove_srv_def
  by (intro ballots.keeps_intros ballot_send_msg_to_leader; simp add: req_msg_new_def)+

lemma ballot_commit_one: "keeps ballot_order commit_one"
  by (rule keeps_ballot) (rule ballot.keeps_commit_one)

lemma ballot_on_rpc_result:
  assumes "\<not> is_vote_response (Rpc_result now u req handler result)"
  shows "keeps ballot_order (on_rpc_result now u req handler result)"
proof -
  have "keeps ballot_order (case (handler, result) of
       (Resp_handler, Inl _) \<Rightarrow> ret ()
     | (Resp_handler, Inr resp) \<Rightarrow> handle_peer_resp now resp
     | (Ex_resp_handler, Inl err) \<Rightarrow> handle_ext_resp_err err
     | (Ex_resp_handler, Inr resp) \<Rightarrow> handle_ext_resp resp)"
    using assms
    by (cases handler; cases result)
       (simp_all add: ballots.keeps_ret ballot_handle_peer_resp
         ballot.keeps_handle_ext_resp_err [THEN keeps_ballot] ballot.keeps_handle_ext_resp [THEN keeps_ballot])
  then show ?thesis
    unfolding on_rpc_result_def
    by (intro ballots.keeps_bindM ballot_upd_peer ballot.keeps_get_peer [THEN keeps_ballot])
qed

lemma ballot_event:
  assumes "\<not> joins e" "\<not> is_vote_request e" "\<not> is_vote_response e" "e \<noteq> Election_timeout"
  shows "keeps ballot_order (run_event e)"
proof (cases e)
  case (Rpc_result now u req handler result)
  then show ?thesis
    using assms ballot_on_rpc_result [of now u req handler result]
    by (simp add: no_response_def ballots.keeps_bindM ballots.keeps_ret)
next
  case (Hb_timeout u)
  then show ?thesis
    using ballot.keeps_handle_hb_timeout [THEN keeps_ballot, of u]
    by (simp add: no_response_def ballots.keeps_bindM ballots.keeps_ret)
next
  case (Retry u req)
  then show ?thesis
    using ballot.keeps_send_req [THEN keeps_ballot, of u req]
    by (simp add: no_response_def on_retryable_req_err_def ballots.keeps_bindM ballots.keeps_ret)
next
  case Commit_entry
  then show ?thesis
    by (auto simp: no_response_def intro!: ballots.keeps_intros ballot_commit_one)
qed (use assms in \<open>auto simp: no_response_def intro!: ballots.keeps_intros ballot_process_req
       ballot_calls\<close>)

text \<open>An election timeout steps down, waits, or opens a new term with a vote for oneself.\<close>

lemma election_timeout_ballot:
  "ballot_view (snd (handle_election_timeout s)) = ballot_view s \<or>
   ballot_view (snd (handle_election_timeout s)) = ballot_view (snd (start_election s))"
proof -
  have waits: "ballot_view (snd (restart_election_timer s')) = ballot_view s'"
    "ballot_view (snd (step_down s')) = ballot_view s'"
    "ballot_view (snd (exit_throw s' :: unit res \<times> raft_server)) = ballot_view s'" for s'
    by (rule sameD [OF ballot.keeps_restart_election_timer], rule sameD [OF ballot.keeps_step_down],
        rule sameD [OF ballot.keeps_exit_throw])
  have dec: "ballot_view (s\<lparr>sv_steps_to_down := n\<rparr>) = ballot_view s" for n
    by (simp add: ballot_view_def)
  show ?thesis
    unfolding handle_election_timeout_def bind_steps
    by (simp add: bind_steps waits dec)
qed


section \<open>The vote is kept\<close>

text \<open>Within a term a vote once given is never changed, and the term never falls.\<close>

definition vote_kept :: "raft_server \<Rightarrow> raft_server \<Rightarrow> bool" where
  "vote_kept s t \<longleftrightarrow>
     sv_id t = sv_id s \<and>
     (sv_term s < sv_term t \<or>
      sv_term t = sv_term s \<and> (sv_voted_for s = - 1 \<or> sv_voted_for t = sv_voted_for s))"

lemma vote_kept_trans: "vote_kept s t \<Longrightarrow> vote_kept t u \<Longrightarrow> vote_kept s u"
  by (auto simp: vote_kept_def)

lemma ballot_order_vote_kept: "ballot_order s t \<Longrightarrow> vote_kept s t"
  by (auto simp: ballot_order_def vote_kept_def)

lemma ballot_view_vote_kept: "ballot_view t = ballot_view s \<Longrightarrow> vote_kept s t"
  by (simp add: ballot_view_def vote_kept_def)

text \<open>
  A vote request: the term is adopted first, which leaves the state \<open>u\<close>, then the vote is
  considered there. What \<^verbatim>\<open>process_req\<close> does to \<open>steps_to_down\<close> does not matter.
\<close>

lemma process_vote_req:
  assumes "rq_type req = request_vote_request"
  obtains u where "ballot_order s u" "process_req now req s = handle_vote_req req u"
proof -
  define pre where "pre = bindM (update_term (rq_term req)) (\<lambda>_.
        modM (\<lambda>s. if sint (sv_steps_to_down s) > 0 then s\<lparr>sv_steps_to_down := 2\<rparr> else s))"
  have "nothrow pre"
    unfolding pre_def update_term_def by (intro nothrow_intros)
  then obtain u where u: "pre s = (Inr (), u)" by (rule nothrowE [of _ s]) simp
  have "keeps ballot_order pre"
    unfolding pre_def by (intro ballots.keeps_bindM ballot_update_term ballot_steps_to_down)
  then have "ballot_order s (snd (pre s))" by (simp only: keeps_def)
  with u have "ballot_order s u" by simp
  moreover have "process_req now req s = handle_vote_req req u"
    unfolding process_req_def using assms
    by (simp add: bindM_run [of pre s "()" u, OF u] whenM_def flip: pre_def)
  ultimately show ?thesis by (rule that)
qed

lemma vote_kept_handle_vote_req: "vote_kept s (snd (handle_vote_req req s))"
proof -
  obtain r t where "handle_vote_req req s = (r, t)" by fastforce
  from handle_vote_req_ballot [OF this] this show ?thesis
    by (auto simp: vote_kept_def)
qed

lemma vote_kept_process_req:
  assumes "rq_type req \<noteq> join_cluster_request"
  shows "vote_kept s (snd (process_req now req s))"
proof (cases "rq_type req = request_vote_request")
  case True
  then obtain u where "ballot_order s u" "process_req now req s = handle_vote_req req u"
    by (rule process_vote_req)
  then show ?thesis
    using vote_kept_handle_vote_req [of u req] ballot_order_vote_kept vote_kept_trans by metis
next
  case False
  with assms ballot_process_req have "keeps ballot_order (process_req now req)" by blast
  then show ?thesis by (simp add: keeps_def ballot_order_vote_kept)
qed


interpretation votes: step_order vote_kept
  by unfold_locales (auto simp: vote_kept_def)

lemma keeps_vote: "keeps ballot_order m \<Longrightarrow> keeps vote_kept m"
  by (simp add: keeps_def ballot_order_vote_kept)

lemma vote_kept_handle_voting_resp: "keeps vote_kept (handle_voting_resp resp)"
proof (rule keepsI)
  fix s
  show "vote_kept s (snd (handle_voting_resp resp s))"
    using handle_voting_resp_ballot [of resp s] by (auto simp: ballot_view_def vote_kept_def)
qed

lemma vote_kept_handle_peer_resp: "keeps vote_kept (handle_peer_resp now resp)"
proof (cases "rs_type resp = request_vote_response")
  case True
  show ?thesis
    unfolding handle_peer_resp_def True msg_type.case
    by (intro votes.keeps_intros vote_kept_handle_voting_resp ballot_upd_peer [THEN keeps_vote]
        ballot_update_term [THEN keeps_vote])
qed (simp add: ballot_handle_peer_resp keeps_vote)

lemma vote_kept_on_rpc_result: "keeps vote_kept (on_rpc_result now u req handler result)"
proof (cases "is_vote_response (Rpc_result now u req handler result)")
  case True
  then obtain resp where "handler = Resp_handler" "result = Inr resp"
    by (cases handler; cases result) auto
  then show ?thesis
    unfolding on_rpc_result_def
    by (simp, intro votes.keeps_bindM vote_kept_handle_peer_resp ballot_upd_peer [THEN keeps_vote]
        ballot.keeps_get_peer [THEN keeps_ballot, THEN keeps_vote])
qed (simp add: ballot_on_rpc_result keeps_vote)

lemma vote_kept_election_timeout:
  assumes "sv_term s \<noteq> - 1"
  shows "vote_kept s (snd (handle_election_timeout s))"
proof -
  have "sv_term s < sv_term s + 1"
    using assms unat_Suc_less [of "sv_term s" "- 1"]
    by (simp add: word_less_nat_alt [of _ "_ + 1"] word_order.not_eq_extremum)
  then have "vote_kept s (snd (start_election s))"
    using start_election_ballot [of s] by (auto simp: ballot_view_def vote_kept_def)
  then show ?thesis
    using election_timeout_ballot [of s] by (auto simp: ballot_view_def vote_kept_def)
qed

lemma vote_kept_event:
  assumes "\<not> joins e" "e = Election_timeout \<Longrightarrow> sv_term s \<noteq> - 1"
  shows "vote_kept s (snd (run_event e s))"
proof (cases e)
  case (Request now req)
  have "keeps vote_kept (process_req now req)"
    using assms Request by (intro keepsI vote_kept_process_req) simp
  then have "keeps vote_kept (run_event e)"
    using Request by (auto intro!: votes.keeps_intros)
  then show ?thesis by (simp add: keeps_def)
next
  case (Rpc_result now u req handler result)
  have "keeps vote_kept (run_event e)"
    using Rpc_result by (auto simp: no_response_def intro!: votes.keeps_intros vote_kept_on_rpc_result)
  then show ?thesis by (simp add: keeps_def)
next
  case Election_timeout
  have "snd (run_event e s) = snd (handle_election_timeout s)"
    by (simp add: Election_timeout no_response_def run_simps split: prod.split sum.split)
  then show ?thesis
    using vote_kept_election_timeout assms Election_timeout by simp
qed (use ballot_event [of e] in \<open>simp_all add: keeps_def ballot_order_vote_kept\<close>)

end
