(* ===== verification/Persistence.thy ===== *)
theory Persistence
  imports Events
begin

text \<open>
  Crash recovery: whatever a server handles and however the handler ends, the term and the
  vote that a restarted server would read from the state manager are those of the server.
\<close>

section \<open>What is persisted\<close>

definition restart_state :: "state_mgr \<Rightarrow> srv_state" where
  "restart_state m =
     (case read_state m of None \<Rightarrow> \<lparr>st_term = 0, st_voted_for = - 1\<rparr> | Some st \<Rightarrow> st)"

definition persisted :: "raft_server \<Rightarrow> bool" where
  "persisted s \<longleftrightarrow> restart_state (sv_state_mgr s) = sv_state s"

definition persist_order :: "raft_server \<Rightarrow> raft_server \<Rightarrow> bool" where
  "persist_order s t \<longleftrightarrow> (persisted s \<longrightarrow> persisted t)"

lemma persist_orderI:
  "sv_state t = sv_state s \<Longrightarrow> restart_state (sv_state_mgr t) = restart_state (sv_state_mgr s) \<Longrightarrow>
   persist_order s t"
  by (simp add: persist_order_def persisted_def)

lemma restart_state_config [simp]: "restart_state (m\<lparr>mg_saved_config := c\<rparr>) = restart_state m"
  by (simp add: restart_state_def read_state_def)

lemma restart_state_saved [simp]: "restart_state (m\<lparr>mg_saved_state := Some st\<rparr>) = st"
  by (simp add: restart_state_def read_state_def)

interpretation persist: server_view persist_order
  by unfold_locales (auto simp: persist_order_def persisted_def map_peer_def)

interpretation persist: follower_view persist_order
  by unfold_locales (auto simp: persist_order_def persisted_def)

text \<open>A change of the state that is saved at once.\<close>

lemma save_state_persisted: "persisted (snd (save_state_op s))"
  by (simp add: save_state_op_run persisted_def)

lemma persist_set_save:
  assumes "\<And>x. keeps persist_order (g x)"
  shows "keeps persist_order (bindM (modM f) (\<lambda>_. bindM save_state_op g))"
proof (rule keepsI)
  fix s
  let ?t = "snd (save_state_op (f s))"
  have "bindM (modM f) (\<lambda>_. bindM save_state_op g) s = g () ?t"
    by (simp add: run_simps save_state_op_run)
  moreover have "persist_order ?t (snd (g () ?t))"
    using assms by (simp add: keeps_def)
  ultimately show "persist_order s (snd (bindM (modM f) (\<lambda>_. bindM save_state_op g) s))"
    using save_state_persisted by (simp add: persist_order_def)
qed

lemmas persist_intros =
  persist_set_save persist.server_intros persist.keeps_become_follower

lemma persist_role: "keeps persist_order (modM (\<lambda>s. s\<lparr>sv_role := r, sv_leader := f s, sv_srv_to_join := j\<rparr>))"
  by (rule keeps_modM) (simp add: persist_orderI)

section \<open>Handlers\<close>

lemma persist_update_term: "keeps persist_order (update_term t)"
  unfolding update_term_def by (intro persist_intros)

lemma persist_become_leader: "keeps persist_order become_leader"
  unfolding become_leader_def blockM.simps
  by (intro persist_intros persist_role persist.keeps_enable_hb_for_peer)

lemma persist_request_vote: "keeps persist_order request_vote"
  unfolding request_vote_def blockM.simps send_vote_req_def
  by (intro persist_intros persist_become_leader) (simp_all add: persist_orderI)

lemma persist_election_timeout: "keeps persist_order handle_election_timeout"
  unfolding handle_election_timeout_def start_election_def blockM.simps
  by (intro persist_intros persist_request_vote persist.keeps_step_down) (simp_all add: persist_orderI)

lemma persist_hear_leader: "keeps persist_order hear_leader"
  unfolding hear_leader_def by (intro persist_intros)

lemma persist_handle_append_entries: "keeps persist_order (handle_append_entries req)"
  unfolding handle_append_entries_def
  by (intro persist_intros persist_hear_leader persist.keeps_log_okay_for) (simp add: persist_orderI)

lemma persist_handle_vote_req: "keeps persist_order (handle_vote_req req)"
  unfolding handle_vote_req_def by (intro persist_intros)

lemma persist_handle_install_snapshot_req: "keeps persist_order (handle_install_snapshot_req req)"
  unfolding handle_install_snapshot_req_def
  by (intro persist_intros persist_hear_leader persist.keeps_handle_snapshot_sync_req)

lemma persist_handle_join_cluster_req: "keeps persist_order (handle_join_cluster_req req)"
  unfolding handle_join_cluster_req_def
  by (intro persist_intros persist.keeps_accept_at_next_slot)

lemma persist_handle_extended_msg: "keeps persist_order (handle_extended_msg req)"
  unfolding handle_extended_msg_def
  by (cases "rq_type req")
     (simp_all add: persist_handle_install_snapshot_req persist_handle_join_cluster_req
       persist.keeps_handle_add_srv_req persist.keeps_handle_rm_srv_req persist.keeps_handle_log_sync_req
       persist.keeps_exit_throw persist.keeps_handle_leave_cluster_req)

lemma persist_process_req: "keeps persist_order (process_req now req)"
  unfolding process_req_def
  by (intro persist_intros persist_update_term persist_handle_append_entries persist_handle_vote_req
      persist.keeps_handle_cli_req persist_handle_extended_msg) (simp add: persist_orderI)

lemma persist_handle_voting_resp: "keeps persist_order (handle_voting_resp resp)"
  unfolding handle_voting_resp_def blockM.simps
  by (intro persist_intros persist_become_leader) (simp_all add: persist_orderI)

lemma persist_handle_peer_resp: "keeps persist_order (handle_peer_resp now resp)"
proof -
  have "keeps persist_order
      (case rs_type resp of
          request_vote_response \<Rightarrow> handle_voting_resp resp
        | append_entries_response \<Rightarrow> handle_append_entries_resp resp
        | install_snapshot_response \<Rightarrow> handle_install_snapshot_resp resp
        | _ \<Rightarrow> exit_throw)"
    by (cases "rs_type resp")
       (simp_all add: persist.keeps_exit_throw persist_handle_voting_resp
         persist.keeps_handle_append_entries_resp persist.keeps_handle_install_snapshot_resp)
  then show ?thesis
    unfolding handle_peer_resp_def by (intro persist_intros persist_update_term)
qed

lemma persist_on_rpc_result: "keeps persist_order (on_rpc_result now u req handler result)"
proof -
  have "keeps persist_order (case (handler, result) of
       (Resp_handler, Inl _) \<Rightarrow> ret ()
     | (Resp_handler, Inr resp) \<Rightarrow> handle_peer_resp now resp
     | (Ex_resp_handler, Inl err) \<Rightarrow> handle_ext_resp_err err
     | (Ex_resp_handler, Inr resp) \<Rightarrow> handle_ext_resp resp)"
    by (cases handler; cases result)
       (simp_all add: persist.keeps_ret persist_handle_peer_resp
         persist.keeps_handle_ext_resp_err persist.keeps_handle_ext_resp)
  then show ?thesis
    unfolding on_rpc_result_def
    by (intro persist.keeps_bindM persist.keeps_upd_peer persist.keeps_get_peer)
qed

lemma persist_calls:
  "keeps persist_order (send_msg_to_leader now req)"
  "keeps persist_order (add_srv now srv)" "keeps persist_order (append_entries now logs)"
  "keeps persist_order (remove_srv now i)"
proof -
  show send: "keeps persist_order (send_msg_to_leader now req)" for req
    unfolding send_msg_to_leader_def
    by (intro persist_intros persist_process_req) (simp add: persist_orderI)
  show "keeps persist_order (add_srv now srv)" "keeps persist_order (append_entries now logs)"
    "keeps persist_order (remove_srv now i)"
    unfolding add_srv_def append_entries_def remove_srv_def
    by (intro persist_intros send)+
qed

lemma persist_event: "keeps persist_order (run_event e)"
  by (cases e)
     (auto simp: no_response_def on_retryable_req_err_def intro!: persist_intros persist_process_req persist_calls
       persist_on_rpc_result persist_election_timeout persist.keeps_handle_hb_timeout persist.keeps_commit_one)

end
