(* ===== verification/Tasks.thy ===== *)
theory Tasks
  imports Std_Map
begin

text \<open>
  The two ways in which work is put off: results that are set by another thread
  (\<^verbatim>\<open>rpc/async_result.hxx\<close>) and delayed tasks (\<^verbatim>\<open>async_task/\<close>) scheduled through
  \<^verbatim>\<open>port/service_port\<close> inside the enclave and the timers of \<^verbatim>\<open>raft_app/port/asio_task_scheduler.cxx\<close>
  outside it. Threads meet at the sections under a lock, so the methods of \<^verbatim>\<open>async_result\<close> are
  sequences of such sections and the facts about them hold for every interleaving.
\<close>

section \<open>Results set by another thread\<close>

text \<open>
  The members of \<^verbatim>\<open>async_result\<close>. \<open>as_copied\<close> is the local variable \<^verbatim>\<open>handler\<close> of \<^verbatim>\<open>set_result\<close>;
  \<open>as_calls\<close> records the calls of handlers, with the values they are given.
\<close>

record ('h, 'a) async_cell =
  as_result :: 'a
  as_err :: "error option"
  as_has_result :: bool
  as_handler :: "'h option"
  as_copied :: "'h option"
  as_calls :: "('h \<times> 'a \<times> error option) list"

text \<open>The constructors; the value of an uninitialised \<^verbatim>\<open>result_\<close> is an argument.\<close>

definition async_new :: "'a \<Rightarrow> ('h, 'a) async_cell" where
  "async_new junk =
     \<lparr>as_result = junk, as_err = None, as_has_result = False, as_handler = None, as_copied = None,
      as_calls = []\<rparr>"

definition async_of_result :: "'a \<Rightarrow> ('h, 'a) async_cell" where
  "async_of_result r = (async_new r)\<lparr>as_has_result := True\<rparr>"

definition async_of_handler :: "'a \<Rightarrow> 'h \<Rightarrow> ('h, 'a) async_cell" where
  "async_of_handler junk h = (async_new junk)\<lparr>as_has_result := True, as_handler := Some h\<rparr>"

definition call_handler :: "'h option \<Rightarrow> ('h, 'a) async_cell \<Rightarrow> ('h, 'a) async_cell" where
  "call_handler h c =
     (case h of None \<Rightarrow> c | Some h \<Rightarrow> c\<lparr>as_calls := as_calls c @ [(h, as_result c, as_err c)]\<rparr>)"

text \<open>The sections of the methods: what is done under the lock, and what follows it.\<close>

datatype ('h, 'a) locked_step =
    Store_handler 'h
  | Call_if_result
  | Store_result 'a "error option"
  | Call_copied

fun run_locked :: "('h, 'a) locked_step \<Rightarrow> ('h, 'a) async_cell \<Rightarrow> ('h, 'a) async_cell" where
  "run_locked (Store_handler h) c = c\<lparr>as_handler := Some h\<rparr>"
| "run_locked Call_if_result c = (if as_has_result c then call_handler (as_handler c) c else c)"
| "run_locked (Store_result r e) c =
     c\<lparr>as_result := r, as_err := e, as_has_result := True, as_copied := as_handler c\<rparr>"
| "run_locked Call_copied c = call_handler (as_copied c) c"

definition when_ready :: "'h \<Rightarrow> ('h, 'a) locked_step list" where
  "when_ready h = [Store_handler h, Call_if_result]"

definition set_result :: "'a \<Rightarrow> error option \<Rightarrow> ('h, 'a) locked_step list" where
  "set_result r e = [Store_result r e, Call_copied]"

text \<open>
  \<^verbatim>\<open>get\<close>: what it gives when the result is there, and otherwise whatever the members hold when
  the wait ends.
\<close>

definition async_value :: "('h, 'a) async_cell \<Rightarrow> error option + 'a" where
  "async_value c = (if as_err c = None then Inr (as_result c) else Inl (as_err c))"

definition async_get :: "('h, 'a) async_cell \<Rightarrow> ('h, 'a) async_cell \<Rightarrow> error option + 'a" where
  "async_get c woken = (if as_has_result c then async_value c else async_value woken)"

lemma shuffles_two:
  "shuffles [a, b] [c, d] =
     {[a, b, c, d], [a, c, b, d], [a, c, d, b], [c, a, b, d], [c, a, d, b], [c, d, a, b]}"
  by auto

text \<open>In every interleaving the handler is called, and only with the result.\<close>

lemma handler_called:
  assumes "steps \<in> shuffles (when_ready h) (set_result r e)"
  shows "as_calls (fold run_locked steps (async_new junk)) \<in> {[(h, r, e)], [(h, r, e), (h, r, e)]}"
  using assms
  by (auto simp: when_ready_def set_result_def shuffles_two async_new_def call_handler_def)

section \<open>Delayed tasks\<close>

text \<open>A \<^verbatim>\<open>timer_task\<close>: the flag, the number the scheduler gave it, and whether it has a function.\<close>

record delayed_task =
  dt_cancelled :: bool
  dt_impl_ctx :: "ulong option"
  dt_exec :: bool

definition timer_task_new :: "bool \<Rightarrow> delayed_task" where
  "timer_task_new e = \<lparr>dt_cancelled = False, dt_impl_ctx = None, dt_exec = e\<rparr>"

text \<open>
  The scheduler inside the enclave (\<^verbatim>\<open>ServicePort\<close> and its pool of callbacks) and the timers
  outside. Task objects have an identity; \<open>sp_executed\<close> lists the runs of task functions. A
  timer outside is waited for once: \<open>tm_waits\<close> holds for every such wait the timer, the number
  of its task, and whether it will end by expiry or, after a cancellation, with an error.
\<close>

record service =
  sp_tasks :: "nat \<Rightarrow> delayed_task"
  sp_last_task_uid :: ulong
  sp_task_pool :: "(ulong \<times> nat) list"
  sp_executed :: "nat list"
  tm_pool :: "(ulong \<times> nat) list"
  tm_waits :: "(nat \<times> ulong \<times> bool) list"
  tm_next :: nat

definition service_new :: "(nat \<Rightarrow> bool) \<Rightarrow> service" where
  "service_new e =
     \<lparr>sp_tasks = \<lambda>t. timer_task_new (e t), sp_last_task_uid = 0, sp_task_pool = [], sp_executed = [],
      tm_pool = [], tm_waits = [], tm_next = 0\<rparr>"

definition upd_task :: "nat \<Rightarrow> (delayed_task \<Rightarrow> delayed_task) \<Rightarrow> service \<Rightarrow> service" where
  "upd_task t f s = s\<lparr>sp_tasks := (sp_tasks s)(t := f (sp_tasks s t))\<rparr>"

subsection \<open>The task\<close>

definition task_exec :: "nat \<Rightarrow> service \<Rightarrow> service" where
  "task_exec t s = (if dt_exec (sp_tasks s t) then s\<lparr>sp_executed := sp_executed s @ [t]\<rparr> else s)"

definition task_execute :: "nat \<Rightarrow> service \<Rightarrow> service" where
  "task_execute t s = (if \<not> dt_cancelled (sp_tasks s t) then task_exec t s else s)"

definition task_cancel :: "nat \<Rightarrow> service \<Rightarrow> service" where
  "task_cancel t = upd_task t (\<lambda>d. d\<lparr>dt_cancelled := True\<rparr>)"

definition task_reset :: "nat \<Rightarrow> service \<Rightarrow> service" where
  "task_reset t = upd_task t (\<lambda>d. d\<lparr>dt_cancelled := False\<rparr>)"

definition set_impl_context :: "nat \<Rightarrow> ulong \<Rightarrow> service \<Rightarrow> service" where
  "set_impl_context t uid = upd_task t (\<lambda>d. d\<lparr>dt_impl_ctx := Some uid\<rparr>)"

subsection \<open>The timers outside the enclave\<close>

text \<open>The wait on a timer that is cancelled or destroyed ends with an error.\<close>

definition abort_wait :: "nat \<Rightarrow> (nat \<times> ulong \<times> bool) list \<Rightarrow> (nat \<times> ulong \<times> bool) list" where
  "abort_wait t = map (\<lambda>(t', uid, ok). (t', uid, ok \<and> t' \<noteq> t))"

text \<open>
  The new timer takes the place of the task's earlier one in the pool, which is thereby
  destroyed.
\<close>

definition ocall_schedule_delayed_task :: "ulong \<Rightarrow> int32 \<Rightarrow> service \<Rightarrow> service" where
  "ocall_schedule_delayed_task uid milliseconds s =
     (let timer = tm_next s;
          waits = (case map_of (tm_pool s) uid of None \<Rightarrow> tm_waits s
                   | Some old \<Rightarrow> abort_wait old (tm_waits s))
      in s\<lparr>tm_next := timer + 1, tm_waits := waits @ [(timer, uid, True)],
           tm_pool := map_put uid timer (tm_pool s)\<rparr>)"

definition ocall_cancel_delayed_task :: "ulong \<Rightarrow> service \<Rightarrow> service" where
  "ocall_cancel_delayed_task uid s =
     (case map_of (tm_pool s) uid of None \<Rightarrow> s
      | Some timer \<Rightarrow> s\<lparr>tm_waits := abort_wait timer (tm_waits s)\<rparr>)"

subsection \<open>The scheduler\<close>

text \<open>\<^verbatim>\<open>_timer_handler_\<close>\<close>

definition timer_handler :: "nat \<Rightarrow> bool \<Rightarrow> service \<Rightarrow> service" where
  "timer_handler task success s = (if success then task_execute task s else s)"

definition ecall_timer_expired_callback :: "ulong \<Rightarrow> bool \<Rightarrow> service \<Rightarrow> service" where
  "ecall_timer_expired_callback uid success s =
     (case map_of (sp_task_pool s) uid of None \<Rightarrow> s | Some task \<Rightarrow> timer_handler task success s)"

definition schedule :: "nat \<Rightarrow> int32 \<Rightarrow> service \<Rightarrow> service" where
  "schedule task milliseconds s =
     (let s = (if dt_impl_ctx (sp_tasks s task) = None
               then set_impl_context task (sp_last_task_uid s + 1)
                      (s\<lparr>sp_last_task_uid := sp_last_task_uid s + 1\<rparr>)
               else s);
          s = task_reset task s
      in case dt_impl_ctx (sp_tasks s task) of
           None \<Rightarrow> s
         | Some uid \<Rightarrow>
             ocall_schedule_delayed_task uid milliseconds
               (s\<lparr>sp_task_pool := map_put uid task (sp_task_pool s)\<rparr>))"

definition cancel_impl :: "nat \<Rightarrow> service \<Rightarrow> service" where
  "cancel_impl task s =
     (case dt_impl_ctx (sp_tasks s task) of None \<Rightarrow> s | Some uid \<Rightarrow> ocall_cancel_delayed_task uid s)"

text \<open>\<^verbatim>\<open>delayed_task_scheduler::cancel\<close>\<close>

definition cancel :: "nat \<Rightarrow> service \<Rightarrow> service" where
  "cancel task s = task_cancel task (cancel_impl task s)"

text \<open>
  What happens in some order: tasks are scheduled and cancelled, and the waits outside end,
  in any order. The argument of \<open>Wait_ends\<close> is the position of the wait.
\<close>

datatype timer_event = Schedule nat int32 | Cancel nat | Wait_ends nat

fun run_timer :: "timer_event \<Rightarrow> service \<Rightarrow> service" where
  "run_timer (Schedule t ms) s = schedule t ms s"
| "run_timer (Cancel t) s = cancel t s"
| "run_timer (Wait_ends i) s =
     (if i < length (tm_waits s) then
        (case tm_waits s ! i of (_, uid, ok) \<Rightarrow>
           ecall_timer_expired_callback uid ok
             (s\<lparr>tm_waits := take i (tm_waits s) @ drop (Suc i) (tm_waits s)\<rparr>))
      else s)"


section \<open>What the scheduler guarantees\<close>

text \<open>
  Task numbers: every number belongs to one task, the pool of callbacks knows exactly the
  numbers given out, and only these are waited for.
\<close>

definition timers_ok :: "service \<Rightarrow> bool" where
  "timers_ok s \<longleftrightarrow>
     map_sorted (sp_task_pool s) \<and>
     (\<forall>t uid. dt_impl_ctx (sp_tasks s t) = Some uid \<longleftrightarrow> map_of (sp_task_pool s) uid = Some t) \<and>
     (\<forall>uid \<in> dom (map_of (sp_task_pool s)). uid \<le> sp_last_task_uid s) \<and>
     (\<forall>(_, uid, _) \<in> set (tm_waits s). uid \<in> dom (map_of (sp_task_pool s)))"

text \<open>The waits that will end by the expiry of a timer of the task.\<close>

definition live_waits :: "nat \<Rightarrow> service \<Rightarrow> nat" where
  "live_waits t s =
     length (filter (\<lambda>(_, uid, ok). ok \<and> map_of (sp_task_pool s) uid = Some t) (tm_waits s))"

fun schedules :: "nat \<Rightarrow> timer_event \<Rightarrow> bool" where
  "schedules t (Schedule t' _) = (t' = t)"
| "schedules t _ = False"

text \<open>A task that was cancelled stays so, and does not run, until it is scheduled again.\<close>

lemma not_executed_step:
  assumes "dt_cancelled (sp_tasks s t)" "\<not> schedules t e"
  shows "dt_cancelled (sp_tasks (run_timer e s) t) \<and>
    count_list (sp_executed (run_timer e s)) t = count_list (sp_executed s) t"
  using assms
  by (cases e)
     (auto simp: schedule_def cancel_def cancel_impl_def task_cancel_def task_reset_def upd_task_def
       set_impl_context_def ocall_schedule_delayed_task_def ocall_cancel_delayed_task_def Let_def
       ecall_timer_expired_callback_def timer_handler_def task_execute_def task_exec_def
       split: option.splits prod.splits)

lemma not_executed:
  assumes "dt_cancelled (sp_tasks s t)" "list_all (\<lambda>e. \<not> schedules t e) es"
  shows "count_list (sp_executed (fold run_timer es s)) t = count_list (sp_executed s) t"
  using assms
  by (induction es arbitrary: s) (simp_all add: not_executed_step)

lemma cancel_cancels:
  "dt_cancelled (sp_tasks (cancel t s) t)" "sp_executed (cancel t s) = sp_executed s"
  by (simp_all add: cancel_def task_cancel_def upd_task_def cancel_impl_def
      ocall_cancel_delayed_task_def split: option.split)

lemma ulong_less_Suc: "x \<noteq> - 1 \<Longrightarrow> x < x + (1 :: ulong)"
  by (simp add: word_less_nat_alt unatSuc add.commute add_eq_0_iff)

text \<open>What scheduling does to the numbers and the waits.\<close>

definition scheduled_as ::
  "nat \<Rightarrow> service \<Rightarrow> service \<Rightarrow> ulong \<Rightarrow> (nat \<times> ulong \<times> bool) list \<Rightarrow> bool" where
  "scheduled_as t s s' uid waits \<longleftrightarrow>
     (dt_impl_ctx (sp_tasks s t) = None \<and> map_of (sp_task_pool s) uid = None \<and>
        uid = sp_last_task_uid s + 1 \<and> sp_last_task_uid s' = uid \<or>
      map_of (sp_task_pool s) uid = Some t \<and> sp_last_task_uid s' = sp_last_task_uid s) \<and>
     sp_task_pool s' = map_put uid t (sp_task_pool s) \<and>
     dt_impl_ctx (sp_tasks s' t) = Some uid \<and>
     (\<forall>t'. t' \<noteq> t \<longrightarrow> sp_tasks s' t' = sp_tasks s t') \<and>
     sp_executed s' = sp_executed s \<and>
     tm_waits s' = waits @ [(tm_next s, uid, True)] \<and>
     (waits = tm_waits s \<or> (\<exists>old. waits = abort_wait old (tm_waits s)))"

lemma scheduled_asD:
  assumes "scheduled_as t s s' uid waits"
  shows "dt_impl_ctx (sp_tasks s t) = None \<and> map_of (sp_task_pool s) uid = None \<and>
        uid = sp_last_task_uid s + 1 \<and> sp_last_task_uid s' = uid \<or>
      map_of (sp_task_pool s) uid = Some t \<and> sp_last_task_uid s' = sp_last_task_uid s"
    "sp_task_pool s' = map_put uid t (sp_task_pool s)"
    "dt_impl_ctx (sp_tasks s' t) = Some uid"
    "t' \<noteq> t \<Longrightarrow> sp_tasks s' t' = sp_tasks s t'"
    "sp_executed s' = sp_executed s"
    "tm_waits s' = waits @ [(tm_next s, uid, True)]"
    "waits = tm_waits s \<or> (\<exists>old. waits = abort_wait old (tm_waits s))"
  using assms by (simp_all add: scheduled_as_def)

lemma schedule_state:
  assumes "timers_ok s" "sp_last_task_uid s \<noteq> - 1"
  obtains uid waits where "scheduled_as t s (schedule t ms s) uid waits"
proof -
  let ?uid = "case dt_impl_ctx (sp_tasks s t) of None \<Rightarrow> sp_last_task_uid s + 1 | Some uid \<Rightarrow> uid"
  have fresh: "map_of (sp_task_pool s) (sp_last_task_uid s + 1) = None"
  proof (rule ccontr)
    assume "map_of (sp_task_pool s) (sp_last_task_uid s + 1) \<noteq> None"
    then have "sp_last_task_uid s + 1 \<le> sp_last_task_uid s"
      using assms(1) by (auto simp: timers_ok_def)
    with ulong_less_Suc [OF assms(2)] show False by simp
  qed
  have known: "map_of (sp_task_pool s) uid = Some t" if "dt_impl_ctx (sp_tasks s t) = Some uid" for uid
    using assms(1) that by (simp add: timers_ok_def)
  show ?thesis
    by (rule that [of ?uid
          "case map_of (tm_pool s) ?uid of None \<Rightarrow> tm_waits s | Some old \<Rightarrow> abort_wait old (tm_waits s)"])
       (use fresh known in \<open>auto simp: scheduled_as_def schedule_def task_reset_def set_impl_context_def upd_task_def
          ocall_schedule_delayed_task_def Let_def split: option.split\<close>)
qed

lemma abort_wait_uids:
  "(\<lambda>(_, uid, _). uid) ` set (abort_wait old waits) = (\<lambda>(_, uid, _). uid) ` set waits"
  by (force simp: abort_wait_def image_iff)

lemma abort_wait_live:
  "length (filter (\<lambda>(_, uid, ok). ok \<and> P uid) (abort_wait old waits)) \<le>
   length (filter (\<lambda>(_, uid, ok). ok \<and> P uid) waits)"
  by (induction waits) (auto simp: abort_wait_def)

lemma timers_ok_waits:
  "timers_ok s \<longleftrightarrow>
     map_sorted (sp_task_pool s) \<and>
     (\<forall>t uid. dt_impl_ctx (sp_tasks s t) = Some uid \<longleftrightarrow> map_of (sp_task_pool s) uid = Some t) \<and>
     (\<forall>uid \<in> dom (map_of (sp_task_pool s)). uid \<le> sp_last_task_uid s) \<and>
     (\<lambda>(_, uid, _). uid) ` set (tm_waits s) \<subseteq> dom (map_of (sp_task_pool s))"
  unfolding timers_ok_def by fast

lemma timers_ok_schedule:
  assumes "timers_ok s" "sp_last_task_uid s \<noteq> - 1"
  shows "timers_ok (schedule t ms s)"
proof -
  obtain uid waits where "scheduled_as t s (schedule t ms s) uid waits"
    by (rule schedule_state [OF assms, of t ms])
  note s = scheduled_asD [OF this]
  have sorted: "map_sorted (sp_task_pool s)" using assms(1) by (simp add: timers_ok_def)
  have uids: "(\<lambda>(_, uid, _). uid) ` set waits = (\<lambda>(_, uid, _). uid) ` set (tm_waits s)"
    using s(7) abort_wait_uids by blast
  have ctxs: "dt_impl_ctx (sp_tasks (schedule t ms s) t') = Some u \<longleftrightarrow>
      map_of (sp_task_pool (schedule t ms s)) u = Some t'" for t' u
  proof -
    have ctx: "dt_impl_ctx (sp_tasks s x) = Some v \<longleftrightarrow> map_of (sp_task_pool s) v = Some x" for x v
      using assms(1) by (simp add: timers_ok_def)
    have pool: "map_of (sp_task_pool (schedule t ms s)) u = (if u = uid then Some t else map_of (sp_task_pool s) u)"
      using sorted by (simp add: s(2) std_map.find_put)
    show ?thesis
    proof (cases "t' = t")
      case True
      have "u = uid" if "map_of (sp_task_pool s) u = Some t"
        using that s(1) ctx by (metis option.inject option.distinct(1))
      with True pool s(3) show ?thesis by auto
    next
      case False
      with pool s(1) s(4) ctx show ?thesis by auto
    qed
  qed
  have bound: "u \<le> sp_last_task_uid (schedule t ms s)"
    if "map_of (sp_task_pool (schedule t ms s)) u = Some x" for u x
  proof -
    have low: "v \<le> sp_last_task_uid s" if "map_of (sp_task_pool s) v = Some y" for v y
      using assms(1) that by (auto simp: timers_ok_def)
    moreover have "v \<le> sp_last_task_uid s + 1" if "map_of (sp_task_pool s) v = Some y" for v y
      using low [OF that] ulong_less_Suc [OF assms(2)] by simp
    ultimately show ?thesis
      using that s(1) sorted by (auto simp: s(2) std_map.find_put split: if_splits)
  qed
  have sorted': "map_sorted (sp_task_pool (schedule t ms s))"
    using sorted by (simp add: s(2) std_map.inv_put)
  have dom: "dom (map_of (sp_task_pool (schedule t ms s))) = insert uid (dom (map_of (sp_task_pool s)))"
    using sorted by (simp add: s(2) std_map.find_put)
  have "(\<lambda>(_, uid, _). uid) ` set (tm_waits (schedule t ms s)) \<subseteq>
      dom (map_of (sp_task_pool (schedule t ms s)))"
    using assms(1) by (simp add: s(6) dom uids timers_ok_waits subset_insertI2)
  then show ?thesis
    using sorted' ctxs bound unfolding timers_ok_waits by blast
qed

lemma live_waits_schedule:
  assumes "timers_ok s" "sp_last_task_uid s \<noteq> - 1"
  shows "live_waits t' (schedule t ms s) \<le> live_waits t' s + (if t' = t then 1 else 0)"
    "sp_executed (schedule t ms s) = sp_executed s"
proof -
  obtain uid waits where "scheduled_as t s (schedule t ms s) uid waits"
    by (rule schedule_state [OF assms, of t ms])
  note s = scheduled_asD [OF this]
  let ?P = "\<lambda>u. map_of (sp_task_pool s) u = Some t'"
  let ?Q = "\<lambda>u. map_of (sp_task_pool (schedule t ms s)) u = Some t'"
  have "map_sorted (sp_task_pool s)" and uids: "(\<lambda>(_, uid, _). uid) ` set (tm_waits s) \<subseteq> dom (map_of (sp_task_pool s))"
    using assms(1) by (simp_all add: timers_ok_waits)
  then have pool: "map_of (sp_task_pool (schedule t ms s)) = (map_of (sp_task_pool s))(uid \<mapsto> t)"
    by (simp add: s(2) std_map.find_put)
  have same: "?Q u = ?P u" if "(w, u, ok) \<in> set (tm_waits s)" for w u ok
  proof -
    have "u \<in> dom (map_of (sp_task_pool s))" using uids that by force
    with s(1) pool show ?thesis by (cases "u = uid") auto
  qed
  have last: "?Q uid \<longleftrightarrow> t = t'" by (simp add: pool)
  have "length (filter (\<lambda>(_, u, ok). ok \<and> ?Q u) waits) \<le> length (filter (\<lambda>(_, u, ok). ok \<and> ?Q u) (tm_waits s))"
    using s(7) abort_wait_live [of ?Q] by auto
  also have "filter (\<lambda>(_, u, ok). ok \<and> ?Q u) (tm_waits s) = filter (\<lambda>(_, u, ok). ok \<and> ?P u) (tm_waits s)"
    using same by (intro filter_cong) auto
  finally show "live_waits t' (schedule t ms s) \<le> live_waits t' s + (if t' = t then 1 else 0)"
    using last by (cases "t' = t") (auto simp add: live_waits_def s(6))
  show "sp_executed (schedule t ms s) = sp_executed s" by (rule s(5))
qed

lemma cancel_state:
  "sp_task_pool (cancel t s) = sp_task_pool s" "sp_last_task_uid (cancel t s) = sp_last_task_uid s"
  "dt_impl_ctx (sp_tasks (cancel t s) t') = dt_impl_ctx (sp_tasks s t')"
  "tm_waits (cancel t s) = tm_waits s \<or> (\<exists>old. tm_waits (cancel t s) = abort_wait old (tm_waits s))"
  by (auto simp: cancel_def task_cancel_def upd_task_def cancel_impl_def ocall_cancel_delayed_task_def
      split: option.split)

text \<open>The end of a wait takes it out of the list and runs the task at most once.\<close>

lemma wait_ends_state:
  assumes "i < length (tm_waits s)" "tm_waits s ! i = (w, uid, ok)"
  shows "sp_task_pool (run_timer (Wait_ends i) s) = sp_task_pool s"
    "sp_last_task_uid (run_timer (Wait_ends i) s) = sp_last_task_uid s"
    "sp_tasks (run_timer (Wait_ends i) s) = sp_tasks s"
    "tm_waits (run_timer (Wait_ends i) s) = take i (tm_waits s) @ drop (Suc i) (tm_waits s)"
    "count_list (sp_executed (run_timer (Wait_ends i) s)) t \<le>
       count_list (sp_executed s) t + (if ok \<and> map_of (sp_task_pool s) uid = Some t then 1 else 0)"
  using assms
  by (auto simp: ecall_timer_expired_callback_def timer_handler_def task_execute_def task_exec_def
      split: option.split)

lemma live_waits_ends:
  assumes "i < length (tm_waits s)" "tm_waits s ! i = (w, uid, ok)"
  shows "live_waits t (run_timer (Wait_ends i) s) + (if ok \<and> map_of (sp_task_pool s) uid = Some t then 1 else 0) =
    live_waits t s"
proof -
  let ?P = "\<lambda>(_, u, ok). ok \<and> map_of (sp_task_pool s) u = Some t"
  have "tm_waits s = take i (tm_waits s) @ (w, uid, ok) # drop (Suc i) (tm_waits s)"
    using assms id_take_nth_drop by metis
  then have "length (filter ?P (tm_waits s)) =
      length (filter ?P (take i (tm_waits s) @ (w, uid, ok) # drop (Suc i) (tm_waits s)))"
    by simp
  then show ?thesis
    by (simp only: live_waits_def wait_ends_state [OF assms]) simp
qed

lemma timer_step:
  assumes "timers_ok s" "sp_last_task_uid s \<noteq> - 1"
  shows "timers_ok (run_timer e s) \<and>
    count_list (sp_executed (run_timer e s)) t + live_waits t (run_timer e s) \<le>
      count_list (sp_executed s) t + live_waits t s + (if schedules t e then 1 else 0) \<and>
    unat (sp_last_task_uid (run_timer e s)) \<le> Suc (unat (sp_last_task_uid s))"
proof (cases e)
  case (Schedule t' ms)
  have "unat (sp_last_task_uid (schedule t' ms s)) \<le> Suc (unat (sp_last_task_uid s))"
  proof -
    obtain uid waits where "scheduled_as t' s (schedule t' ms s) uid waits"
      by (rule schedule_state [OF assms, of t' ms])
    moreover have "unat (sp_last_task_uid s + 1) \<le> Suc (unat (sp_last_task_uid s))"
      using unatSuc [of "sp_last_task_uid s"] by (cases "1 + sp_last_task_uid s = 0") (simp_all add: add.commute)
    ultimately show ?thesis by (auto simp: scheduled_as_def)
  qed
  then show ?thesis
    using Schedule timers_ok_schedule [OF assms, of t' ms] live_waits_schedule(1) [OF assms, of t t' ms]
      live_waits_schedule(2) [OF assms, of t' ms]
    by (simp add: eq_commute)
next
  case (Cancel t')
  have "length (filter (\<lambda>(_, u, ok). ok \<and> map_of (sp_task_pool s) u = Some t) (tm_waits (cancel t' s))) \<le>
      length (filter (\<lambda>(_, u, ok). ok \<and> map_of (sp_task_pool s) u = Some t) (tm_waits s))"
    using cancel_state(4) [of t' s] abort_wait_live [of "\<lambda>u. map_of (sp_task_pool s) u = Some t"] by auto
  moreover have "(\<lambda>(_, uid, _). uid) ` set (tm_waits (cancel t' s)) = (\<lambda>(_, uid, _). uid) ` set (tm_waits s)"
    using cancel_state(4) [of t' s] abort_wait_uids by metis
  ultimately show ?thesis
    using Cancel assms(1)
    by (simp add: timers_ok_waits cancel_state(1-3) cancel_cancels live_waits_def)
next
  case (Wait_ends i)
  show ?thesis
  proof (cases "i < length (tm_waits s)")
    case True
    obtain w uid ok where w: "tm_waits s ! i = (w, uid, ok)" by (metis prod_cases3)
    have "set (take i (tm_waits s) @ drop (Suc i) (tm_waits s)) \<subseteq> set (tm_waits s)"
      by (auto dest: in_set_takeD in_set_dropD)
    then have "timers_ok (run_timer e s)"
      using assms(1) unfolding Wait_ends timers_ok_waits wait_ends_state [OF True w] by blast
    moreover have "count_list (sp_executed (run_timer e s)) t + live_waits t (run_timer e s) \<le>
        count_list (sp_executed s) t + live_waits t s"
      using wait_ends_state(5) [OF True w, of t] live_waits_ends [OF True w, of t] by (simp add: Wait_ends)
    ultimately show ?thesis
      using wait_ends_state(2) [OF True w] by (simp only: Wait_ends schedules.simps if_False) simp
  qed (use assms Wait_ends in simp)
qed

lemma timers_run:
  assumes "timers_ok s" "unat (sp_last_task_uid s) + length es < 2 ^ 64"
  shows "count_list (sp_executed (fold run_timer es s)) t + live_waits t (fold run_timer es s) \<le>
    count_list (sp_executed s) t + live_waits t s + length (filter (schedules t) es)"
  using assms
proof (induction es arbitrary: s)
  case (Cons e es)
  have "sp_last_task_uid s \<noteq> - 1"
  proof
    assume "sp_last_task_uid s = - 1"
    then have "unat (sp_last_task_uid s) = 2 ^ 64 - 1" by (simp add: unsigned_minus_1_eq_mask mask_eq_exp_minus_1)
    with Cons.prems(2) show False by simp
  qed
  note step = timer_step [OF Cons.prems(1) this, of e t]
  then have "count_list (sp_executed (fold run_timer es (run_timer e s))) t +
      live_waits t (fold run_timer es (run_timer e s)) \<le>
      count_list (sp_executed (run_timer e s)) t + live_waits t (run_timer e s) +
      length (filter (schedules t) es)"
    using Cons.prems(2) by (intro Cons.IH) simp_all
  with step show ?case by (cases "schedules t e") simp_all
qed simp

lemma timers_ok_new: "timers_ok (service_new e)" "live_waits t (service_new e) = 0"
  by (simp_all add: timers_ok_def service_new_def timer_task_new_def map_sorted_def live_waits_def)

end
