(* ===== verification/Block_Layout.thy ===== *)
theory Block_Layout
  imports Buffer
begin

text \<open>
  How a buffer lies in memory (the macros of \<^verbatim>\<open>raft/src/buffer.cxx\<close>): size and position stand in
  front of the data, as two 16-bit words in a small block and as two 32-bit words in a big
  one. Which of the two a block is, is the top bit of its first 32 bits, which in a small
  block is the top bit of the position. The refinement shows that reading and writing these
  words is reading and writing the fields of the record \<open>buffer\<close>.
\<close>

section \<open>Words in memory\<close>

definition ushort_bytes :: "ushort \<Rightarrow> bytes" where
  "ushort_bytes v = [ucast v, ucast (drop_bit 8 v)]"

definition ushort_of_bytes :: "bytes \<Rightarrow> ushort" where
  "ushort_of_bytes d = ucast (d ! 0) + push_bit 8 (ucast (d ! 1))"

text \<open>\<^verbatim>\<open>((uint*)(p))[i]\<close> and \<^verbatim>\<open>((ushort*)(p))[i]\<close>, read and assigned.\<close>

definition uint_at :: "bytes \<Rightarrow> nat \<Rightarrow> uint" where
  "uint_at p i = int_of_bytes (drop (4 * i) p)"

definition put_uint :: "nat \<Rightarrow> uint \<Rightarrow> bytes \<Rightarrow> bytes" where
  "put_uint i v p = take (4 * i) p @ int_bytes v @ drop (4 * i + 4) p"

definition ushort_at :: "bytes \<Rightarrow> nat \<Rightarrow> ushort" where
  "ushort_at p i = ushort_of_bytes (drop (2 * i) p)"

definition put_ushort :: "nat \<Rightarrow> ushort \<Rightarrow> bytes \<Rightarrow> bytes" where
  "put_ushort i v p = take (2 * i) p @ ushort_bytes v @ drop (2 * i + 2) p"

section \<open>The macros\<close>

definition is_big_block :: "bytes \<Rightarrow> bool" where
  "is_big_block p \<longleftrightarrow> and 0x80000000 (uint_at p 0) \<noteq> 0"

definition init_s_block :: "nat \<Rightarrow> bytes \<Rightarrow> bytes" where
  "init_s_block s p = put_ushort 1 0 (put_ushort 0 (of_nat s) p)"

definition init_b_block :: "nat \<Rightarrow> bytes \<Rightarrow> bytes" where
  "init_b_block s p =
     (let p = put_uint 1 0 (put_uint 0 (of_nat s) p)
      in put_uint 0 (or (uint_at p 0) 0x80000000) p)"

definition size_of_block :: "bytes \<Rightarrow> nat" where
  "size_of_block p =
     (if is_big_block p then unat (xor (uint_at p 0) 0x80000000) else unat (ushort_at p 0))"

definition pos_of_block :: "bytes \<Rightarrow> nat" where
  "pos_of_block p = (if is_big_block p then unat (uint_at p 1) else unat (ushort_at p 1))"

definition mv_fw_block :: "nat \<Rightarrow> bytes \<Rightarrow> bytes" where
  "mv_fw_block d p =
     (if is_big_block p then put_uint 1 (uint_at p 1 + of_nat d) p
      else put_ushort 1 (ushort_at p 1 + of_nat d) p)"

definition set_block_pos :: "nat \<Rightarrow> bytes \<Rightarrow> bytes" where
  "set_block_pos pos p = (if is_big_block p then put_uint 1 (of_nat pos) p else put_ushort 1 (of_nat pos) p)"

text \<open>The offset of the pointer \<^verbatim>\<open>__data_of_block\<close>, the bytes it points to, and a write through it.\<close>

definition block_header :: "bytes \<Rightarrow> nat" where
  "block_header p = (if is_big_block p then 8 else 4)"

definition data_of_block :: "bytes \<Rightarrow> bytes" where
  "data_of_block p = drop (block_header p + pos_of_block p) p"

definition write_block :: "bytes \<Rightarrow> bytes \<Rightarrow> bytes" where
  "write_block bs p =
     (let d = block_header p + pos_of_block p in take d p @ bs @ drop (d + length bs) p)"

text \<open>\<^verbatim>\<open>buffer::alloc\<close>; \<open>new_char\<close> gives the memory \<^verbatim>\<open>new char[n]\<close> returns.\<close>

definition block_alloc :: "(nat \<Rightarrow> bytes) \<Rightarrow> nat \<Rightarrow> bytes res" where
  "block_alloc new_char sz =
     (if sz \<ge> 0x80000000 then Inl Out_of_range
      else if sz \<ge> 0x8000 then Inr (init_b_block sz (new_char (sz + 8)))
      else Inr (init_s_block sz (new_char (sz + 4))))"

section \<open>Refinement\<close>

text \<open>The buffer a block stands for, and what holds of every block.\<close>

definition block_buffer :: "bytes \<Rightarrow> buffer" where
  "block_buffer p = \<lparr>bdata = drop (block_header p) p, bpos = pos_of_block p\<rparr>"

definition block_ok :: "bytes \<Rightarrow> bool" where
  "block_ok p \<longleftrightarrow>
     length p = block_header p + size_of_block p \<and> pos_of_block p \<le> size_of_block p \<and>
     (\<not> is_big_block p \<longrightarrow> size_of_block p < 0x8000)"

lemma ushort_bytes_inverse [simp]: "ushort_of_bytes (ushort_bytes v @ rest) = v"
proof -
  have "ucast (ucast v :: byte) + push_bit 8 (ucast (ucast (drop_bit 8 v) :: byte)) = v"
    by (subst disjunctive_add_eq_or; intro bit_word_eqI) (auto simp: bit_simps byte_bit)
  then show ?thesis by (simp add: ushort_of_bytes_def ushort_bytes_def)
qed

lemma length_ushort_bytes [simp]: "length (ushort_bytes v) = 2"
  by (simp add: ushort_bytes_def)

text \<open>A block in parts: its two words and its data.\<close>

definition big_block :: "uint \<Rightarrow> uint \<Rightarrow> bytes \<Rightarrow> bytes" where
  "big_block s q d = int_bytes s @ int_bytes q @ d"

definition small_block :: "ushort \<Rightarrow> ushort \<Rightarrow> bytes \<Rightarrow> bytes" where
  "small_block s q d = ushort_bytes s @ ushort_bytes q @ d"

lemma big_words [simp]:
  "uint_at (big_block s q d) 0 = s" "uint_at (big_block s q d) (Suc 0) = q"
  "put_uint 0 v (big_block s q d) = big_block v q d" "put_uint (Suc 0) v (big_block s q d) = big_block s v d"
  "length (big_block s q d) = 8 + length d" "drop 8 (big_block s q d) = d"
  by (simp_all add: uint_at_def put_uint_def big_block_def int_of_bytes_append)

lemma small_words [simp]:
  "ushort_at (small_block s q d) 0 = s" "ushort_at (small_block s q d) (Suc 0) = q"
  "put_ushort 0 v (small_block s q d) = small_block v q d" "put_ushort (Suc 0) v (small_block s q d) = small_block s v d"
  "length (small_block s q d) = 4 + length d" "drop 4 (small_block s q d) = d"
  by (simp_all add: ushort_at_def put_ushort_def small_block_def)

lemma top_bits: "bit (0x80000000 :: uint) n \<longleftrightarrow> n = 31"
proof -
  have "bit (2 ^ 31 :: uint) n \<longleftrightarrow> n = 31" unfolding bit_exp_iff by auto
  then show ?thesis by simp
qed

lemma top_bit: "and 0x80000000 (w :: uint) \<noteq> 0 \<longleftrightarrow> bit w 31"
proof
  assume "bit w 31"
  then have "bit (and 0x80000000 w) 31" by (simp add: bit_and_iff top_bits)
  then show "and 0x80000000 w \<noteq> 0" by (metis bit_0_eq bot_apply bot_bool_def)
next
  assume "and 0x80000000 w \<noteq> 0"
  then obtain n where "bit (and 0x80000000 w) n" using bit_word_eqI [of "and 0x80000000 w" 0] by auto
  then have "bit (0x80000000 :: uint) n \<and> bit w n" by (simp only: bit_and_iff)
  then have "n = 31 \<and> bit w n" unfolding top_bits .
  then show "bit w 31" by blast
qed

lemma ushort_bit: "16 \<le> n \<Longrightarrow> \<not> bit (x :: ushort) n"
  using bit_imp_le_length [of x n] by auto

lemma small_block_words:
  "small_block s q d = int_bytes (or (ucast s) (push_bit 16 (ucast q))) @ d"
  by (simp add: small_block_def ushort_bytes_def int_bytes_def upt_rec ucast_signed_drop_bit, intro conjI bit_word_eqI)
     (auto simp: bit_simps ushort_bit)

lemma is_big_big [simp]: "is_big_block (big_block s q d) \<longleftrightarrow> bit s 31"
  by (simp add: is_big_block_def top_bit)

lemma is_big_small [simp]: "is_big_block (small_block s q d) \<longleftrightarrow> bit q 15"
proof -
  have "uint_at (small_block s q d) 0 = or (ucast s) (push_bit 16 (ucast q))"
    by (simp add: small_block_words uint_at_def int_of_bytes_append)
  then show ?thesis by (simp add: is_big_block_def top_bit bit_simps ushort_bit)
qed

lemma ushort_bytes_of:
  fixes a b :: byte
  shows "ushort_bytes (ushort_of_bytes (a # b # rest)) = [a, b]"
proof -
  have "ushort_of_bytes (a # b # rest) = or (ucast a) (push_bit 8 (ucast b))"
    unfolding ushort_of_bytes_def
    by (simp, subst disjunctive_add_eq_or) (auto intro!: bit_word_eqI simp: bit_simps byte_bit)
  then show ?thesis
    by (simp add: ushort_bytes_def, intro conjI bit_word_eqI) (auto simp: bit_simps byte_bit)
qed

lemma big_block_exists: "8 \<le> length p \<Longrightarrow> \<exists>s q d. p = big_block s q d"
  using int_bytes_drop [of p] int_bytes_drop [of "drop 4 p"]
  by (intro exI [of _ "int_of_bytes p"] exI [of _ "int_of_bytes (drop 4 p)"] exI [of _ "drop 8 p"])
     (simp add: big_block_def)

lemma small_block_exists: "4 \<le> length p \<Longrightarrow> \<exists>s q d. p = small_block s q d"
proof -
  assume "4 \<le> length p"
  then obtain a b c e d where "p = a # b # c # e # d"
    by (auto simp: Suc_le_length_iff numeral_eq_Suc)
  then show ?thesis
    by (intro exI [of _ "ushort_of_bytes [a, b]"] exI [of _ "ushort_of_bytes [c, e]"] exI [of _ d])
       (simp add: small_block_def ushort_bytes_of)
qed

text \<open>The words of a block that is in order.\<close>

lemma block_cases:
  assumes "block_ok p"
  obtains (big) s q d where "p = big_block s q d" "bit s 31" "length d = unat (xor s 0x80000000)"
      "unat q \<le> length d"
  | (small) s q d where "p = small_block s q d" "\<not> bit q 15" "length d = unat s" "unat q \<le> length d"
      "length d < 0x8000"
proof (cases "is_big_block p")
  case True
  then have "8 \<le> length p" using assms by (simp add: block_ok_def block_header_def)
  then obtain s q d where p: "p = big_block s q d" using big_block_exists by blast
  show ?thesis
    by (rule big [OF p]) (use assms True p in \<open>simp_all add: block_ok_def block_header_def size_of_block_def pos_of_block_def\<close>)
next
  case False
  then have "4 \<le> length p" using assms by (simp add: block_ok_def block_header_def)
  then obtain s q d where p: "p = small_block s q d" using small_block_exists by blast
  show ?thesis
    by (rule small [OF p]) (use assms False p in \<open>simp_all add: block_ok_def block_header_def size_of_block_def pos_of_block_def\<close>)
qed

lemma big_parts:
  assumes "bit s 31"
  shows "block_buffer (big_block s q d) = \<lparr>bdata = d, bpos = unat q\<rparr>"
    "block_header (big_block s q d) = 8" "size_of_block (big_block s q d) = unat (xor s 0x80000000)"
    "pos_of_block (big_block s q d) = unat q"
    "block_ok (big_block s q d) \<longleftrightarrow> length d = unat (xor s 0x80000000) \<and> unat q \<le> length d"
  using assms
  by (auto simp: block_buffer_def block_header_def size_of_block_def pos_of_block_def block_ok_def)

lemma small_parts:
  assumes "\<not> bit q 15"
  shows "block_buffer (small_block s q d) = \<lparr>bdata = d, bpos = unat q\<rparr>"
    "block_header (small_block s q d) = 4" "size_of_block (small_block s q d) = unat s"
    "pos_of_block (small_block s q d) = unat q"
    "block_ok (small_block s q d) \<longleftrightarrow> length d = unat s \<and> unat q \<le> length d \<and> length d < 0x8000"
  using assms
  by (auto simp: block_buffer_def block_header_def size_of_block_def pos_of_block_def block_ok_def)

text \<open>The operations on the words are the operations of the buffer.\<close>

lemma block_size: "block_ok p \<Longrightarrow> bsize (block_buffer p) = size_of_block p"
  by (simp add: block_ok_def block_buffer_def bsize_def)

lemma block_data: "block_ok p \<Longrightarrow> brest (block_buffer p) = data_of_block p"
  by (simp add: block_buffer_def brest_def data_of_block_def add.commute)

lemma uint_xor_bound: "bit s 31 \<Longrightarrow> unat (xor s 0x80000000 :: uint) < 2 ^ 31"
proof -
  assume "bit s 31"
  have "bit (xor s 0x80000000) n = bit (take_bit 31 s) n" if "n < 32" for n
    unfolding bit_xor_iff bit_take_bit_iff top_bits using \<open>bit s 31\<close> that by (cases "n = 31") auto
  then have "xor s 0x80000000 = take_bit 31 s" by (intro bit_word_eqI) simp
  then show ?thesis by (simp add: unsigned_take_bit_eq take_bit_nat_def)
qed

lemma no_top:
  assumes "n < 2 ^ k"
  shows "\<not> bit (of_nat n :: 'a::len word) k"
proof -
  have "\<not> bit n k" using assms by (simp add: bit_iff_odd)
  then show ?thesis by (simp add: bit_of_nat_iff)
qed

lemma ushort_no_top: "n < 0x8000 \<Longrightarrow> \<not> bit (of_nat n :: ushort) 15"
  by (rule no_top) simp

lemma block_set_pos:
  assumes "block_ok p" "n \<le> size_of_block p"
  shows "block_ok (set_block_pos n p)" "block_buffer (set_block_pos n p) = (block_buffer p)\<lparr>bpos := n\<rparr>"
proof -
  have "block_ok (set_block_pos n p) \<and> block_buffer (set_block_pos n p) = (block_buffer p)\<lparr>bpos := n\<rparr>"
    using assms(1)
  proof (cases rule: block_cases)
    case (big s q d)
    then have "n < 2 ^ 32" using assms(2) uint_xor_bound [of s] by (simp add: big_parts)
    then have "unat (of_nat n :: uint) = n" by (simp add: unat_of_nat take_bit_nat_eq_self)
    then show ?thesis using big assms(2) by (simp add: set_block_pos_def big_parts)
  next
    case (small s q d)
    then have n: "n < 0x8000" using assms(2) by (simp add: small_parts)
    then have "unat (of_nat n :: ushort) = n" by (simp add: unat_of_nat take_bit_nat_eq_self)
    then show ?thesis using small assms(2) ushort_no_top [OF n] by (simp add: set_block_pos_def small_parts)
  qed
  then show "block_ok (set_block_pos n p)" "block_buffer (set_block_pos n p) = (block_buffer p)\<lparr>bpos := n\<rparr>"
    by simp_all
qed

lemma mv_fw_set: "block_ok p \<Longrightarrow> mv_fw_block d p = set_block_pos (pos_of_block p + d) p"
  by (simp add: mv_fw_block_def set_block_pos_def pos_of_block_def)

lemma block_advance:
  assumes "block_ok p" "pos_of_block p + d \<le> size_of_block p"
  shows "block_ok (mv_fw_block d p)" "block_buffer (mv_fw_block d p) = advance d (block_buffer p)"
  using block_set_pos [OF assms] by (simp_all add: mv_fw_set [OF assms(1)] advance_def block_buffer_def)

lemma write_big: "take (8 + n) (big_block s q d) @ bs @ drop (8 + n + k) (big_block s q d) =
    big_block s q (take n d @ bs @ drop (n + k) d)"
  by (simp add: big_block_def)

lemma write_small: "take (4 + n) (small_block s q d) @ bs @ drop (4 + n + k) (small_block s q d) =
    small_block s q (take n d @ bs @ drop (n + k) d)"
  by (simp add: small_block_def)

lemma block_write:
  assumes "block_ok p" "pos_of_block p + length bs \<le> size_of_block p"
  shows "block_ok (write_block bs p)" "block_buffer (write_block bs p) = write_bytes bs (block_buffer p)"
proof -
  have "block_ok (write_block bs p) \<and> block_buffer (write_block bs p) = write_bytes bs (block_buffer p)"
    using assms(1)
  proof (cases rule: block_cases)
    case (big s q d)
    let ?d = "take (unat q) d @ bs @ drop (unat q + length bs) d"
    have "write_block bs p = big_block s q ?d"
      using big write_big by (simp add: write_block_def big_parts Let_def)
    then show ?thesis using big assms(2) by (simp add: big_parts write_bytes_def)
  next
    case (small s q d)
    let ?d = "take (unat q) d @ bs @ drop (unat q + length bs) d"
    have "write_block bs p = small_block s q ?d"
      using small write_small by (simp add: write_block_def small_parts Let_def)
    then show ?thesis using small assms(2) by (simp add: small_parts write_bytes_def)
  qed
  then show "block_ok (write_block bs p)" "block_buffer (write_block bs p) = write_bytes bs (block_buffer p)"
    by simp_all
qed

lemma block_alloc_ok:
  assumes "\<And>n. length (new_char n) = n" "sz < 0x80000000"
  obtains p where "block_alloc new_char sz = Inr p" "block_ok p" "size_of_block p = sz" "pos_of_block p = 0"
proof (cases "sz \<ge> 0x8000")
  case True
  obtain s q d where m: "new_char (sz + 8) = big_block s q d"
    using big_block_exists [of "new_char (sz + 8)"] assms(1) by auto
  then have d: "length d = sz" using assms(1) [of "sz + 8"] by simp
  let ?s = "or (of_nat sz) 0x80000000 :: uint"
  have top: "bit ?s 31" unfolding bit_or_iff top_bits by simp
  have "\<not> bit (of_nat sz :: uint) 31" by (rule no_top) (use assms(2) in simp)
  then have "bit (xor ?s 0x80000000) n = bit (of_nat sz :: uint) n" for n
    unfolding bit_xor_iff bit_or_iff top_bits by (cases "n = 31") auto
  then have "xor ?s 0x80000000 = of_nat sz" by (rule bit_word_eqI)
  then have s: "unat (xor ?s 0x80000000) = sz" using assms(2) by (simp add: unat_of_nat take_bit_nat_eq_self)
  have "block_alloc new_char sz = Inr (big_block ?s 0 d)"
    using True assms(2) m by (simp add: block_alloc_def init_b_block_def)
  then show ?thesis
    using s d big_parts(3-5) [OF top, of 0 d] by (intro that) simp_all
next
  case False
  obtain s q d where m: "new_char (sz + 4) = small_block s q d"
    using small_block_exists [of "new_char (sz + 4)"] assms(1) by auto
  then have d: "length d = sz" using assms(1) [of "sz + 4"] by simp
  have s: "unat (of_nat sz :: ushort) = sz" using False by (simp add: unat_of_nat take_bit_nat_eq_self)
  have "block_alloc new_char sz = Inr (small_block (of_nat sz) 0 d)"
    using False assms(2) m by (simp add: block_alloc_def init_s_block_def)
  then show ?thesis
    using s d False by (intro that [of "small_block (of_nat sz) 0 d"]) (simp_all add: small_parts)
qed

end
