(* ===== verification/Crypto.thy ===== *)
theory Crypto
  imports Buffer
begin

text \<open>
  The encryption of what leaves the enclave: \<^verbatim>\<open>common/aes_ctr_crypto.cxx\<close> on top of OpenSSL, and
  \<^verbatim>\<open>port/crypto.cxx\<close>, which puts the initialisation vector in front of the cipher text. The
  calls of OpenSSL are a parameter, the record \<open>cipher\<close>; what the code relies on is the
  predicate \<open>ctr_cipher\<close>, the documented behaviour of a counter mode: it starts for a key and
  a vector of the right sizes, the output is as long as the input, decryption takes back
  encryption, and the final call adds nothing.
\<close>

section \<open>OpenSSL\<close>

text \<open>
  What the calls do as functions of key, vector and input: whether \<^verbatim>\<open>Init_ex\<close> returns 1, and
  the bytes \<^verbatim>\<open>Update\<close> and \<^verbatim>\<open>Final_ex\<close> write, with \<open>None\<close> when they do not return 1.
\<close>

record cipher =
  EVP_EncryptInit_ex :: "bytes \<Rightarrow> bytes \<Rightarrow> bool"
  EVP_EncryptUpdate :: "bytes \<Rightarrow> bytes \<Rightarrow> bytes \<Rightarrow> bytes option"
  EVP_EncryptFinal_ex :: "bytes \<Rightarrow> bytes \<Rightarrow> bytes \<Rightarrow> bytes option"
  EVP_DecryptInit_ex :: "bytes \<Rightarrow> bytes \<Rightarrow> bool"
  EVP_DecryptUpdate :: "bytes \<Rightarrow> bytes \<Rightarrow> bytes \<Rightarrow> bytes option"
  EVP_DecryptFinal_ex :: "bytes \<Rightarrow> bytes \<Rightarrow> bytes \<Rightarrow> bytes option"

definition S_KEY_SIZE :: nat where
  "S_KEY_SIZE = 32"

definition S_BLOCK_SIZE :: nat where
  "S_BLOCK_SIZE = 16"

definition ctr_cipher :: "cipher \<Rightarrow> bool" where
  "ctr_cipher c \<longleftrightarrow>
     (\<forall>key iv data. length key = S_KEY_SIZE \<and> length iv = S_BLOCK_SIZE \<longrightarrow>
        EVP_EncryptInit_ex c key iv \<and> EVP_DecryptInit_ex c key iv \<and>
        EVP_EncryptFinal_ex c key iv data = Some [] \<and> EVP_DecryptFinal_ex c key iv data = Some [] \<and>
        (\<exists>out. EVP_EncryptUpdate c key iv data = Some out \<and> length out = length data \<and>
               EVP_DecryptUpdate c key iv out = Some data))"

section \<open>Encryption of a block of bytes\<close>

text \<open>What \<^verbatim>\<open>RAND_bytes\<close> drew, \<open>None\<close> when it failed.\<close>

definition rand_fill :: "bytes option \<Rightarrow> bytes res" where
  "rand_fill drawn = (case drawn of None \<Rightarrow> Inl Runtime_error | Some bs \<Rightarrow> Inr bs)"

text \<open>
  The output goes to a vector of the size of the input and one block; a cipher that wrote
  more would write outside it.
\<close>

definition aes_ctr_encrypt :: "cipher \<Rightarrow> bytes \<Rightarrow> bytes \<Rightarrow> bytes \<Rightarrow> bytes res" where
  "aes_ctr_encrypt c key iv ptext =
     (if \<not> EVP_EncryptInit_ex c key iv then Inl Runtime_error
      else case EVP_EncryptUpdate c key iv ptext of
        None \<Rightarrow> Inl Runtime_error
      | Some out1 \<Rightarrow>
          (case EVP_EncryptFinal_ex c key iv ptext of
             None \<Rightarrow> Inl Runtime_error
           | Some out2 \<Rightarrow>
               if length (out1 @ out2) > length ptext + S_BLOCK_SIZE then Inl Undefined_behaviour
               else Inr (out1 @ out2)))"

definition aes_ctr_decrypt :: "cipher \<Rightarrow> bytes \<Rightarrow> bytes \<Rightarrow> bytes \<Rightarrow> bytes res" where
  "aes_ctr_decrypt c key iv ctext =
     (if \<not> EVP_DecryptInit_ex c key iv then Inl Runtime_error
      else case EVP_DecryptUpdate c key iv ctext of
        None \<Rightarrow> Inl Runtime_error
      | Some out1 \<Rightarrow>
          (case EVP_DecryptFinal_ex c key iv ctext of
             None \<Rightarrow> Inl Runtime_error
           | Some out2 \<Rightarrow>
               if length (out1 @ out2) > length ctext then Inl Undefined_behaviour
               else Inr (out1 @ out2)))"

section \<open>Messages of the enclave\<close>

text \<open>The bytes of the hexadecimal literal.\<close>

definition get_key :: bytes where
  "get_key =
     [0x82, 0x86, 0x82, 0x35, 0x3d, 0x50, 0x93, 0x4b, 0x0a, 0x67, 0x25, 0x91, 0xdb, 0x57, 0x0e, 0xea,
      0x69, 0x3e, 0xeb, 0x8c, 0xf1, 0xad, 0x44, 0xcf, 0x5e, 0x50, 0xf8, 0xce, 0x5a, 0x07, 0x46, 0x1d]"

definition raft_encrypt :: "cipher \<Rightarrow> bytes option \<Rightarrow> bytes \<Rightarrow> bytes res" where
  "raft_encrypt c drawn data =
     rbind (rand_fill drawn) (\<lambda>iv.
     rbind (aes_ctr_encrypt c get_key iv data) (\<lambda>enc.
     Inr (iv @ enc)))"

text \<open>
  \<^verbatim>\<open>size - S_BLOCK_SIZE\<close> is unsigned: a message shorter than the vector wraps it around and
  is read outside its bounds.
\<close>

definition raft_decrypt :: "cipher \<Rightarrow> bytes \<Rightarrow> bytes res" where
  "raft_decrypt c data =
     (if length data < S_BLOCK_SIZE then Inl Undefined_behaviour
      else aes_ctr_decrypt c get_key (take S_BLOCK_SIZE data) (drop S_BLOCK_SIZE data))"

section \<open>Round trip\<close>

lemma length_get_key [simp]: "length get_key = S_KEY_SIZE"
  by (simp add: get_key_def S_KEY_SIZE_def)

lemma aes_ctr_round:
  assumes "ctr_cipher c" "length key = S_KEY_SIZE" "length iv = S_BLOCK_SIZE"
  obtains out where "aes_ctr_encrypt c key iv data = Inr out" "length out = length data"
    "aes_ctr_decrypt c key iv out = Inr data"
proof -
  have "\<forall>d. EVP_EncryptInit_ex c key iv \<and> EVP_DecryptInit_ex c key iv \<and>
        EVP_EncryptFinal_ex c key iv d = Some [] \<and> EVP_DecryptFinal_ex c key iv d = Some []"
    and "\<exists>out. EVP_EncryptUpdate c key iv data = Some out \<and> length out = length data \<and>
               EVP_DecryptUpdate c key iv out = Some data"
    using assms by (simp_all add: ctr_cipher_def)
  then show ?thesis
    by (auto simp: aes_ctr_encrypt_def aes_ctr_decrypt_def intro!: that)
qed

text \<open>Every drawn vector gives a cipher text one block longer, and it decrypts to the message.\<close>

lemma raft_crypt_round:
  assumes "ctr_cipher c" "length iv = S_BLOCK_SIZE"
  obtains out where "raft_encrypt c (Some iv) data = Inr out"
    "length out = S_BLOCK_SIZE + length data" "raft_decrypt c out = Inr data"
proof -
  obtain enc where "aes_ctr_encrypt c get_key iv data = Inr enc" "length enc = length data"
    "aes_ctr_decrypt c get_key iv enc = Inr data"
    using assms by (rule aes_ctr_round [OF _ length_get_key])
  with assms(2) show ?thesis
    by (intro that [of "iv @ enc"]) (simp_all add: raft_encrypt_def rand_fill_def raft_decrypt_def)
qed

section \<open>An instance\<close>

text \<open>A cipher with the contract: the bytes of the message combined with the key's first byte.\<close>

definition xor_bytes :: "bytes \<Rightarrow> bytes \<Rightarrow> bytes" where
  "xor_bytes key data = map (Bit_Operations.xor (hd key)) data"

definition xor_cipher :: cipher where
  "xor_cipher =
     \<lparr>EVP_EncryptInit_ex = \<lambda>_ _. True, EVP_EncryptUpdate = \<lambda>key _ data. Some (xor_bytes key data),
      EVP_EncryptFinal_ex = \<lambda>_ _ _. Some [],
      EVP_DecryptInit_ex = \<lambda>_ _. True, EVP_DecryptUpdate = \<lambda>key _ data. Some (xor_bytes key data),
      EVP_DecryptFinal_ex = \<lambda>_ _ _. Some []\<rparr>"

lemma xor_cipher_ctr: "ctr_cipher xor_cipher"
  by (simp add: ctr_cipher_def xor_cipher_def xor_bytes_def o_def map_idI flip: xor.assoc)

section \<open>Copies with a bound\<close>

text \<open>
  \<^verbatim>\<open>memcpy_s(dst, dst_size, src, count)\<close> of the enclave's C library: with a destination too
  small it clears it and copies nothing; it does not know how long the source is.
\<close>

definition memcpy_s :: "bytes \<Rightarrow> bytes \<Rightarrow> nat \<Rightarrow> bytes res" where
  "memcpy_s dst src count =
     (if count = 0 then Inr dst
      else if length dst < count then Inr (replicate (length dst) 0)
      else if length src < count then Inl Undefined_behaviour
      else Inr (take count src @ drop count dst))"

lemma memcpy_s_whole:
  "count = length dst \<Longrightarrow> count \<le> length src \<Longrightarrow> memcpy_s dst src count = Inr (take count src)"
  by (auto simp: memcpy_s_def)

end
