(* ===== verification/Attestation.thy ===== *)
theory Attestation
  imports Crypto "HOL-Library.Sublist"
begin

text \<open>
  The check of an attestation report (\<^verbatim>\<open>system/key_store.cxx\<close>, \<^verbatim>\<open>system/cert_utils.cxx\<close> and
  \<^verbatim>\<open>common/url_decode.cxx\<close>): the report is an HTTP response whose headers carry a signature and
  the certificates it can be checked with. What the program links against is one record of
  functions, the parameter \<open>lib\<close> of every definition that uses it: OpenSSL, the base64 codec
  and the JSON parser; the last two are set to their models in \<open>Linked\<close>. Text in the program
  is C strings: pointers to bytes up to a zero.
\<close>

section \<open>Libraries\<close>

text \<open>
  A certificate is its encoding, as \<^verbatim>\<open>PEM_read_bio_X509\<close> gives it; the signed results of OpenSSL
  keep their three ranges (1, 0 and errors). A JSON text is queried by its source: whether it
  parses, the integer or string under a key, the strings of an array; \<^verbatim>\<open>dump\<close> gives the text of
  the two objects the enclave sends.
\<close>

record library =
  lb_cipher :: cipher
  lb_ias_root_ca_cert :: bytes
  lb_PEM_read_bio_X509 :: "bytes \<Rightarrow> bytes option"
  lb_X509_STORE_add_cert :: "bytes \<Rightarrow> bool"
  lb_X509_verify_cert :: "bytes \<Rightarrow> bytes list \<Rightarrow> int"
  lb_X509_get_pubkey :: "bytes \<Rightarrow> bytes option"
  lb_EVP_DigestVerify :: "bytes \<Rightarrow> bytes \<Rightarrow> bytes \<Rightarrow> int"
  lb_base64_decode :: "bytes \<Rightarrow> bytes option"
  lb_json_parses :: "bytes \<Rightarrow> bool"
  lb_json_int :: "bytes \<Rightarrow> string \<Rightarrow> int32"
  lb_json_string :: "bytes \<Rightarrow> string \<Rightarrow> cstring"
  lb_json_items :: "bytes \<Rightarrow> cstring list"
  lb_dump_success :: "int32 \<Rightarrow> bytes"
  lb_dump_report :: "int32 \<Rightarrow> cstring \<Rightarrow> bytes"

definition base64_decode :: "library \<Rightarrow> bytes \<Rightarrow> bytes res" where
  "base64_decode lib s = (case lb_base64_decode lib s of None \<Rightarrow> Inl Logic_error | Some bs \<Rightarrow> Inr bs)"

section \<open>C strings\<close>

definition ascii :: "string \<Rightarrow> bytes" where
  "ascii s = map of_char s"

definition c_str :: "cstring \<Rightarrow> bytes" where
  "c_str s = takeWhile (\<lambda>c. c \<noteq> 0) s"

text \<open>The string from the first occurrence on.\<close>

fun strstr :: "bytes \<Rightarrow> bytes \<Rightarrow> bytes option" where
  "strstr [] needle = (if needle = [] then Some [] else None)"
| "strstr (c # s) needle = (if prefix needle (c # s) then Some (c # s) else strstr s needle)"

text \<open>\<^verbatim>\<open>strstr(s, header) + strlen(header)\<close>, which is then read: undefined when there is no match.\<close>

definition after :: "bytes \<Rightarrow> bytes \<Rightarrow> bytes res" where
  "after s header =
     (case strstr s header of None \<Rightarrow> Inl Undefined_behaviour | Some r \<Rightarrow> Inr (drop (length header) r))"

text \<open>\<^verbatim>\<open>ptr_r - ptr_l\<close> for the next delimiter \<^verbatim>\<open>ptr_r\<close>; a null pointer gives no length.\<close>

definition field_length :: "bytes \<Rightarrow> bytes \<Rightarrow> nat res" where
  "field_length s delimiter =
     (case strstr s delimiter of None \<Rightarrow> Inl Undefined_behaviour | Some r \<Rightarrow> Inr (length s - length r))"

definition is_space :: "byte \<Rightarrow> bool" where
  "is_space c \<longleftrightarrow> c = 32 \<or> 9 \<le> c \<and> c \<le> 13"

definition is_digit :: "byte \<Rightarrow> bool" where
  "is_digit c \<longleftrightarrow> 48 \<le> c \<and> c \<le> 57"

text \<open>\<^verbatim>\<open>strtoul(s, nullptr, 10)\<close>\<close>

definition strtoul :: "bytes \<Rightarrow> ulong" where
  "strtoul s =
     (let s = dropWhile is_space s;
          (neg, s) = (case s of
                        c # s' \<Rightarrow> if c = 45 then (True, s') else if c = 43 then (False, s') else (False, s)
                      | [] \<Rightarrow> (False, s));
          n = foldl (\<lambda>n c. 10 * n + unat (c - 48)) 0 (takeWhile is_digit s)
      in if n \<ge> 2 ^ 64 then - 1 else if neg then - of_nat n else of_nat n)"

section \<open>URL decoding\<close>

definition hex_digit :: "byte \<Rightarrow> byte option" where
  "hex_digit c =
     (if is_digit c then Some (c - 48)
      else if 97 \<le> c \<and> c \<le> 102 then Some (c - 87)
      else if 65 \<le> c \<and> c \<le> 70 then Some (c - 55)
      else None)"

text \<open>\<^verbatim>\<open>(char) strtol(buffer, nullptr, 16)\<close> on a buffer of two characters.\<close>

definition strtol2 :: "byte \<Rightarrow> byte \<Rightarrow> byte" where
  "strtol2 a b =
     (let low = (case hex_digit b of None \<Rightarrow> 0 | Some y \<Rightarrow> y)
      in case hex_digit a of
           Some x \<Rightarrow> (case hex_digit b of None \<Rightarrow> x | Some y \<Rightarrow> 16 * x + y)
         | None \<Rightarrow> if is_space a \<or> a = 43 then low else if a = 45 then - low else 0)"

text \<open>
  The string from \<^verbatim>\<open>start\<close> on and \<^verbatim>\<open>end - start\<close>. An escape cut off by the end of the string moves
  the pointer past the terminating zero.
\<close>

fun url_decode :: "bytes \<Rightarrow> nat \<Rightarrow> bytes res" where
  "url_decode [] n = Inr []"
| "url_decode (c # s) n =
     (if n = 0 then Inr []
      else if c = 37 then
        (case s of
           a # b # s' \<Rightarrow> rbind (url_decode s' (n - 3)) (\<lambda>out. Inr (strtol2 a b # out))
         | _ \<Rightarrow> Inl Undefined_behaviour)
      else rbind (url_decode s (n - 1)) (\<lambda>out. Inr (c # out)))"

text \<open>The encoding it undoes: a percent sign and two hexadecimal digits for all but letters and digits.\<close>

definition hex_char :: "byte \<Rightarrow> byte" where
  "hex_char x = (if x < 10 then 48 + x else 55 + x)"

definition url_plain :: "byte \<Rightarrow> bool" where
  "url_plain c \<longleftrightarrow> is_digit c \<or> 65 \<le> c \<and> c \<le> 90 \<or> 97 \<le> c \<and> c \<le> 122"

definition url_char :: "byte \<Rightarrow> bytes" where
  "url_char c = (if url_plain c then [c] else [37, hex_char (c div 16), hex_char (c mod 16)])"

definition url_encode :: "bytes \<Rightarrow> bytes" where
  "url_encode s = concat (map url_char s)"

lemma hex_digits: "list_all (\<lambda>x. hex_digit (hex_char x) = Some x) (map of_nat [0..<16])"
  by code_simp

lemma hex_digit_char:
  assumes "x < 16"
  shows "hex_digit (hex_char x) = Some x"
proof -
  have "unat x \<in> set [0..<16]" using assms by (simp add: word_less_nat_alt)
  then have "(of_nat (unat x) :: byte) \<in> set (map of_nat [0..<16])"
    unfolding set_map by (rule imageI)
  moreover have "of_nat (unat x) = x" by simp
  ultimately have "x \<in> set (map of_nat [0..<16])" by (simp only:)
  with hex_digits show ?thesis by (simp only: list_all_iff)
qed

lemma byte_halves: "c div 16 < (16 :: byte)" "c mod 16 < (16 :: byte)" "16 * (c div 16) + c mod 16 = (c :: byte)"
proof -
  have "unat c < 256" using unsigned_less [of c] by simp
  then show "c div 16 < 16" by (simp add: word_less_nat_alt unat_div)
  show "c mod 16 < 16" by (simp add: word_less_nat_alt unat_mod)
  show "16 * (c div 16) + c mod 16 = c" by (simp add: mult_div_mod_eq)
qed

lemma strtol2_hex: "strtol2 (hex_char (c div 16)) (hex_char (c mod 16)) = c"
  by (simp add: strtol2_def hex_digit_char byte_halves)

lemma url_plain_percent: "url_plain c \<Longrightarrow> c \<noteq> 37"
  by (auto simp: url_plain_def is_digit_def)

lemma url_decode_encode: "url_decode (url_encode s @ rest) (length (url_encode s)) = Inr s"
proof (induction s)
  case Nil
  show ?case by (cases rest) (simp_all add: url_encode_def)
next
  case (Cons c s)
  then show ?case
    by (cases "url_plain c") (simp_all add: url_encode_def url_char_def url_plain_percent strtol2_hex)
qed

section \<open>Certificates\<close>

definition load_cert_unsafe :: "library \<Rightarrow> bytes \<Rightarrow> bytes res" where
  "load_cert_unsafe lib data =
     (case lb_PEM_read_bio_X509 lib data of None \<Rightarrow> Inl OpenSSL_exception | Some cert \<Rightarrow> Inr cert)"

text \<open>
  \<^verbatim>\<open>cert_chain.find("-----BEGIN", idx_l + 1)\<close>, and the pieces between two matches. The loop body
  runs at least once; every round moves the left index to a later match.
\<close>

definition pem_begin :: bytes where
  "pem_begin = ascii ''-----BEGIN''"

definition find_from :: "bytes \<Rightarrow> bytes \<Rightarrow> nat \<Rightarrow> nat option" where
  "find_from s needle i =
     (if length s < i then None
      else map_option (\<lambda>r. length s - length r) (strstr (drop i s) needle))"

lemma strstr_suffix: "strstr s needle = Some r \<Longrightarrow> suffix r s \<and> prefix needle r"
  by (induction s needle rule: strstr.induct) (auto simp: suffix_ConsI split: if_splits)

lemma find_from_bounds:
  assumes "find_from s needle i = Some k"
  shows "i \<le> k" "k \<le> length s" "prefix needle (drop k s)"
proof -
  obtain r where r: "strstr (drop i s) needle = Some r" "k = length s - length r" "i \<le> length s"
    using assms by (auto simp: find_from_def split: if_splits)
  then have suf: "suffix r (drop i s)" "prefix needle r" using strstr_suffix by blast+
  then have len: "length r \<le> length s - i" using suffix_length_le by fastforce
  show "i \<le> k" "k \<le> length s" using len r by simp_all
  have "suffix r s" using suf(1) suffix_drop suffix_order.order_trans by blast
  then have "drop k s = r" using r(2) by (auto simp: suffix_def)
  with suf(2) show "prefix needle (drop k s)" by simp
qed

lemma find_from_less:
  assumes "find_from s pem_begin (Suc l) = Some r"
  shows "length s - r < length s - l"
proof -
  have "prefix pem_begin (drop r s)" using assms by (rule find_from_bounds(3))
  then have "r < length s" by (cases "r < length s") (simp_all add: pem_begin_def ascii_def)
  moreover have "Suc l \<le> r" using assms by (rule find_from_bounds(1))
  ultimately show ?thesis by simp
qed

function cert_pieces :: "bytes \<Rightarrow> nat \<Rightarrow> bytes list" where
  "cert_pieces chain l =
     (case find_from chain pem_begin (l + 1) of
        None \<Rightarrow> [drop l chain]
      | Some r \<Rightarrow> take (r - l) (drop l chain) # cert_pieces chain r)"
  by pat_completeness auto
termination
  by (relation "measure (\<lambda>(chain, l). length chain - l)")
     (auto dest: find_from_less)

declare cert_pieces.simps [simp del]

text \<open>The stack of certificates; the first of them is also \<^verbatim>\<open>sign_cert\<close>.\<close>

definition load_cert_chain :: "library \<Rightarrow> bytes \<Rightarrow> bytes list res" where
  "load_cert_chain lib cert_chain = mapR (load_cert_unsafe lib) (cert_pieces cert_chain 0)"

definition build_ca :: "library \<Rightarrow> bytes \<Rightarrow> bytes res" where
  "build_ca lib cert = (if lb_X509_STORE_add_cert lib cert then Inr cert else Inl OpenSSL_exception)"

definition cert_verify :: "library \<Rightarrow> bytes \<Rightarrow> bytes list \<Rightarrow> bool res" where
  "cert_verify lib store chain =
     (let rv = lb_X509_verify_cert lib store chain
      in if rv \<noteq> 1 \<and> rv \<noteq> 0 then Inl OpenSSL_exception else Inr (rv \<noteq> 0))"

definition sha256_verify :: "library \<Rightarrow> bytes \<Rightarrow> bytes \<Rightarrow> bytes \<Rightarrow> bool res" where
  "sha256_verify lib msg sig pkey =
     (let rv = lb_EVP_DigestVerify lib pkey msg sig
      in if rv = 0 \<or> rv = 1 then Inr (rv \<noteq> 0) else Inl OpenSSL_exception)"

definition verify_certs_and_signature :: "library \<Rightarrow> bytes \<Rightarrow> bytes \<Rightarrow> bytes \<Rightarrow> bool res" where
  "verify_certs_and_signature lib certs sig data =
     (if certs = [] then Inl Logic_error
      else if sig = [] then Inl Logic_error
      else if data = [] then Inl Logic_error
      else
        rbind (load_cert_unsafe lib (lb_ias_root_ca_cert lib)) (\<lambda>root_ca.
        rbind (load_cert_chain lib certs) (\<lambda>stack.
        rbind (build_ca lib root_ca) (\<lambda>store.
        rbind (cert_verify lib store stack) (\<lambda>valid.
        if \<not> valid then Inr False
        else
          (case lb_X509_get_pubkey lib (hd stack) of
             None \<Rightarrow> Inl OpenSSL_exception
           | Some pkey \<Rightarrow> sha256_verify lib data sig pkey))))))"

subsection \<open>The pieces of a chain\<close>

lemma cert_pieces_nonempty: "cert_pieces chain l \<noteq> []"
  by (subst cert_pieces.simps) (simp split: option.split)

lemma cert_pieces_concat: "concat (cert_pieces chain l) = drop l chain"
proof (induction chain l rule: cert_pieces.induct)
  case (1 chain l)
  show ?case
  proof (cases "find_from chain pem_begin (l + 1)")
    case None
    then show ?thesis by (subst cert_pieces.simps) simp
  next
    case (Some r)
    then have "l \<le> r" using find_from_bounds(1) by fastforce
    then have "take (r - l) (drop l chain) @ drop r chain = drop l chain"
      by (metis append_take_drop_id drop_drop le_add_diff_inverse2)
    then show ?thesis using 1 [OF Some] Some by (subst cert_pieces.simps) simp
  qed
qed


text \<open>The mark cannot overlap itself, so every piece but the first starts with all of it.\<close>

lemma prefix_nth:
  assumes "prefix p (drop i s)" "j < length p"
  shows "s ! (i + j) = p ! j"
proof -
  obtain zs where zs: "drop i s = p @ zs" using assms(1) by (auto simp: prefix_def)
  then have "i \<le> length s" using assms(2) by (cases "i \<le> length s") simp_all
  then have "s ! (i + j) = drop i s ! j" by simp
  with zs assms(2) show ?thesis by (simp add: nth_append)
qed

lemma pem_no_overlap:
  assumes "prefix pem_begin (drop l s)" "prefix pem_begin (drop r s)" "l < r"
  shows "l + length pem_begin \<le> r"
proof (rule ccontr)
  assume "\<not> l + length pem_begin \<le> r"
  moreover have "length pem_begin = 10" by (simp add: pem_begin_def ascii_def)
  ultimately have k: "r - l \<in> set [1..<10]" using assms(3) by auto
  have fst: "s ! (l + j) = pem_begin ! j" if "j < 10" for j
    using prefix_nth [OF assms(1)] that by (simp add: pem_begin_def ascii_def)
  have snd: "s ! (l + (r - l + j)) = pem_begin ! j" if "j < 10" for j
    using prefix_nth [OF assms(2)] that assms(3) by (simp add: pem_begin_def ascii_def)
  have "pem_begin ! (r - l + j) = pem_begin ! j" if "r - l + j < 10" for j
    using fst [OF that] snd [of j] that by simp
  then have "\<forall>j \<in> set [0..<10]. r - l + j < 10 \<longrightarrow> pem_begin ! (r - l + j) = pem_begin ! j" by simp
  moreover have "\<forall>k \<in> set [1..<10]. \<not> (\<forall>j \<in> set [0..<10]. k + j < 10 \<longrightarrow> pem_begin ! (k + j) = pem_begin ! j)"
    by (simp add: upt_rec pem_begin_def ascii_def)
  ultimately show False using k by blast
qed

lemma cert_pieces_hd:
  assumes "prefix pem_begin (drop l chain)"
  shows "list_all (prefix pem_begin) (cert_pieces chain l)"
  using assms
proof (induction chain l rule: cert_pieces.induct)
  case (1 chain l)
  show ?case
  proof (cases "find_from chain pem_begin (l + 1)")
    case None
    then show ?thesis using 1 by (subst cert_pieces.simps) simp
  next
    case (Some r)
    then have r: "prefix pem_begin (drop r chain)" "l < r"
      using find_from_bounds [OF Some] by simp_all
    then have "length pem_begin \<le> r - l" using pem_no_overlap [OF "1.prems"] by fastforce
    then have "prefix pem_begin (take (r - l) (drop l chain))"
      using "1.prems" by (auto simp: prefix_def)
    then show ?thesis
      using 1 r Some by (subst cert_pieces.simps) simp
  qed
qed

lemma cert_pieces_tl: "list_all (prefix pem_begin) (tl (cert_pieces chain l))"
  using cert_pieces_hd find_from_bounds(3)
  by (subst cert_pieces.simps) (auto split: option.split)

section \<open>The verification report\<close>

definition header_length :: bytes where
  "header_length = ascii ''Content-Length: ''"

definition header_signature :: bytes where
  "header_signature = ascii ''X-IASReport-Signature: ''"

definition header_certificates :: bytes where
  "header_certificates = ascii ''X-IASReport-Signing-Certificate: ''"

definition delimiter :: bytes where
  "delimiter = [13, 10]"

definition double_delimiter :: bytes where
  "double_delimiter = [13, 10, 13, 10]"

text \<open>
  \<^verbatim>\<open>size\<close> bytes from the start of the body, as the signature check reads them: the string and its
  terminating zero are there, bytes behind them are not.
\<close>

definition read_data :: "bytes \<Rightarrow> ulong \<Rightarrow> bytes res" where
  "read_data body sz =
     (if unat sz > length body + 1 then Inl Undefined_behaviour else Inr (take (unat sz) (body @ [0])))"

definition check_signature :: "library \<Rightarrow> bytes \<Rightarrow> bytes \<Rightarrow> bytes \<Rightarrow> ulong \<Rightarrow> bool res" where
  "check_signature lib certificates signature body sz =
     rbind (read_data body sz) (\<lambda>data.
     case verify_certs_and_signature lib certificates signature data of
       Inl OpenSSL_exception \<Rightarrow> Inr False
     | r \<Rightarrow> r)"

text \<open>The quote of the report, \<open>None\<close> for the null pointer of a report that is not accepted.\<close>

definition validate_verification_report :: "library \<Rightarrow> bytes \<Rightarrow> bytes option res" where
  "validate_verification_report lib http_packet =
     rbind (after http_packet header_length) (\<lambda>ptr_l.
     let content_length = strtoul ptr_l in
     rbind (after http_packet header_signature) (\<lambda>ptr_l.
     rbind (field_length ptr_l delimiter) (\<lambda>n.
     rbind (base64_decode lib (take n ptr_l)) (\<lambda>signature.
     rbind (after http_packet header_certificates) (\<lambda>ptr_l.
     rbind (field_length ptr_l delimiter) (\<lambda>n.
     rbind (url_decode ptr_l n) (\<lambda>certificates.
     rbind (after http_packet double_delimiter) (\<lambda>body.
     rbind (check_signature lib certificates signature body content_length) (\<lambda>result.
     if \<not> result \<or> \<not> lb_json_parses lib body then Inr None
     else if lb_json_int lib body ''version'' \<noteq> 3 then Inr None
     else if lb_json_string lib body ''isvEnclaveQuoteStatus'' \<noteq> ascii ''OK'' then Inr None
     else
       rbind (base64_decode lib (lb_json_string lib body ''isvEnclaveQuoteBody'')) (\<lambda>quote.
       Inr (Some quote)))))))))))"

text \<open>
  The public key in a quote: the report data lies 368 bytes into \<^verbatim>\<open>sgx_quote_t\<close> and is as long as
  \<^verbatim>\<open>sgx_ec256_public_t\<close>. The size of the decoded quote is not checked.
\<close>

definition SGX_REPORT_DATA_SIZE :: nat where
  "SGX_REPORT_DATA_SIZE = 64"

definition report_data :: "bytes \<Rightarrow> bytes res" where
  "report_data quote =
     (if length quote < 368 + SGX_REPORT_DATA_SIZE then Inl Undefined_behaviour
      else Inr (take SGX_REPORT_DATA_SIZE (drop 368 quote)))"

text \<open>
  What an accepted report has: a body signed with the key of the first certificate of a chain
  that the root certificate vouches for, in format 3 and with status OK.
\<close>

definition signed_report :: "library \<Rightarrow> bytes \<Rightarrow> bytes \<Rightarrow> bytes \<Rightarrow> bool" where
  "signed_report lib certificates signature data \<longleftrightarrow>
     (\<exists>root stack pkey.
        lb_PEM_read_bio_X509 lib (lb_ias_root_ca_cert lib) = Some root \<and>
        map (lb_PEM_read_bio_X509 lib) (cert_pieces certificates 0) = map Some stack \<and>
        lb_X509_verify_cert lib root stack = 1 \<and>
        lb_X509_get_pubkey lib (hd stack) = Some pkey \<and>
        lb_EVP_DigestVerify lib pkey data signature = 1)"

lemma mapR_load: "mapR (load_cert_unsafe lib) ps = Inr cs \<Longrightarrow> map (lb_PEM_read_bio_X509 lib) ps = map Some cs"
  by (induction ps arbitrary: cs)
     (auto simp: rbind_eq_Inr_iff load_cert_unsafe_def split: option.splits)

lemma verify_signed:
  assumes "verify_certs_and_signature lib certs sig data = Inr True"
  shows "signed_report lib certs sig data"
  using assms
  by (auto simp: verify_certs_and_signature_def signed_report_def rbind_eq_Inr_iff load_cert_chain_def
      load_cert_unsafe_def build_ca_def cert_verify_def sha256_verify_def Let_def
      split: if_splits option.splits dest!: mapR_load)

lemma check_signature_signed:
  assumes "check_signature lib certs sig body sz = Inr True"
  shows "signed_report lib certs sig (take (unat sz) (body @ [0]))"
proof -
  have data: "read_data body sz = Inr (take (unat sz) (body @ [0]))"
    using assms by (auto simp: check_signature_def read_data_def split: if_splits)
  have "verify_certs_and_signature lib certs sig (take (unat sz) (body @ [0])) = Inr True"
    using assms unfolding check_signature_def data
    by (auto split: sum.splits error.splits)
  then show ?thesis by (rule verify_signed)
qed

lemma accepted_report:
  assumes "validate_verification_report lib packet = Inr (Some quote)"
  obtains certs sig data body where "signed_report lib certs sig data"
    "after packet double_delimiter = Inr body" "prefix data (body @ [0])"
    "lb_json_int lib body ''version'' = 3"
    "lb_json_string lib body ''isvEnclaveQuoteStatus'' = ascii ''OK''"
    "lb_base64_decode lib (lb_json_string lib body ''isvEnclaveQuoteBody'') = Some quote"
proof -
  obtain certs sig body sz where
    "after packet double_delimiter = Inr body" "check_signature lib certs sig body sz = Inr True"
    "lb_json_int lib body ''version'' = 3"
    "lb_json_string lib body ''isvEnclaveQuoteStatus'' = ascii ''OK''"
    "lb_base64_decode lib (lb_json_string lib body ''isvEnclaveQuoteBody'') = Some quote"
    using assms
    by (auto simp: validate_verification_report_def rbind_eq_Inr_iff base64_decode_def Let_def
        split: if_splits option.splits)
  moreover have "prefix (take (unat sz) (body @ [0])) (body @ [0])" by (rule take_is_prefix)
  ultimately show ?thesis
    using check_signature_signed [of lib certs sig body sz]
    by (intro that [of certs sig "take (unat sz) (body @ [0])" body]) blast+
qed

end
