(* ===== verification/Enclave.thy ===== *)
theory Enclave
  imports Response_Handlers Attestation
begin

text \<open>
  The boundary of the enclave (\<^verbatim>\<open>raft_enclave.cpp\<close> and \<^verbatim>\<open>port/\<close>) and the key store behind it
  (\<^verbatim>\<open>system/key_store\<close>): requests come in through \<^verbatim>\<open>ecall_handle_rpc_request\<close>, their responses are
  kept until \<^verbatim>\<open>ecall_fetch_rpc_response\<close> asks for them; calls to other servers go out through
  \<^verbatim>\<open>RpcClientPort\<close> and their results come back through \<^verbatim>\<open>ecall_rpc_response\<close>. The server is the
  one of the theories before; what it puts into its outbox while it handles a call is
  carried out when the handler has ended. Logging is left out.
\<close>

section \<open>Message types\<close>

datatype er_message_type =
    client_add_srv_req
  | client_add_srv_resp
  | client_remove_srv_req
  | client_remove_srv_resp
  | client_append_entries_req
  | client_append_entries_resp
  | system_key_exchange_req
  | system_key_exchange_resp
  | system_key_setup_req
  | system_key_setup_resp
  | raft_message
  | unexpected_type ushort

fun er_type_num :: "er_message_type \<Rightarrow> ushort" where
  "er_type_num client_add_srv_req = 1"
| "er_type_num client_add_srv_resp = 2"
| "er_type_num client_remove_srv_req = 3"
| "er_type_num client_remove_srv_resp = 4"
| "er_type_num client_append_entries_req = 5"
| "er_type_num client_append_entries_resp = 6"
| "er_type_num system_key_exchange_req = 7"
| "er_type_num system_key_exchange_resp = 8"
| "er_type_num system_key_setup_req = 9"
| "er_type_num system_key_setup_resp = 10"
| "er_type_num raft_message = 255"
| "er_type_num (unexpected_type w) = w"

definition er_types :: "er_message_type list" where
  "er_types =
     [client_add_srv_req, client_add_srv_resp, client_remove_srv_req, client_remove_srv_resp,
      client_append_entries_req, client_append_entries_resp, system_key_exchange_req,
      system_key_exchange_resp, system_key_setup_req, system_key_setup_resp, raft_message]"

text \<open>The two bytes of a type in memory, low byte first, and the type read from there.\<close>

definition type_bytes :: "er_message_type \<Rightarrow> bytes" where
  "type_bytes t = [ucast (er_type_num t), ucast (drop_bit 8 (er_type_num t))]"

definition read_type :: "bytes \<Rightarrow> er_message_type res" where
  "read_type message =
     (case message of
        lo # hi # _ \<Rightarrow>
          let w = ucast lo + push_bit 8 (ucast hi)
          in Inr (case List.find (\<lambda>t. er_type_num t = w) er_types of
                    Some t \<Rightarrow> t | None \<Rightarrow> unexpected_type w)
      | _ \<Rightarrow> Inl Undefined_behaviour)"

lemma read_type_bytes:
  "t \<in> set er_types \<Longrightarrow> read_type (type_bytes t @ rest) = Inr t"
  by (auto simp: er_types_def read_type_def type_bytes_def Let_def drop_bit_eq_div)

section \<open>The state behind the boundary\<close>

text \<open>\<^verbatim>\<open>er_key_store\<close>; a temporary connection is the number of its client and the endpoint.\<close>

record key_store =
  ks_self_report :: cstring
  ks_private :: bytes
  ks_public :: bytes
  ks_store :: "(int32 \<times> bytes) list"
  ks_temp_connections :: "(int32 \<times> uint \<times> cstring) list"

definition er_key_store_new :: "bytes \<Rightarrow> bytes \<Rightarrow> key_store" where
  "er_key_store_new private_key public_key =
     \<lparr>ks_self_report = [], ks_private = private_key, ks_public = public_key, ks_store = [],
      ks_temp_connections = []\<rparr>"

text \<open>
  What a stored callback does: \<^verbatim>\<open>peer::handle_rpc_result\<close> for the peer object with one of the
  server's handlers, or the function of \<^verbatim>\<open>send_msg_to_leader\<close>, which sets the awaited result.
\<close>

datatype raft_callback = Peer_callback nat rpc_handler | Leader_callback int32

text \<open>Calls out of the enclave; timers and the like are the server's own effects.\<close>

datatype ocall =
    Send_rpc_request uint bytes uint
  | Rpc_client_create cstring
  | Rpc_client_close uint
  | Server_effect effect

text \<open>
  The globals of the ports. \<open>en_server\<close> is \<^verbatim>\<open>raft_rpc_request_handler\<close>; \<open>en_rand\<close> gives what
  \<^verbatim>\<open>RAND_bytes\<close> draws, \<open>en_client_ids\<close> what \<^verbatim>\<open>ocall_rpc_client_create\<close> returns, in the order of the
  calls; \<open>en_peer_client\<close> and \<open>en_server_client\<close> are the clients of the peer objects and of the
  servers a message was forwarded to. \<open>en_results\<close> lists the results set for waiting callers.
\<close>

record enclave =
  en_server :: "raft_server option"
  en_key_store :: "key_store option"
  en_id_counter :: uint
  en_response_buffer :: "(uint \<times> bytes) list"
  en_last_req_uid :: uint
  en_callback_pool :: "(ulong \<times> req_msg \<times> raft_callback) list"
  en_rand :: "nat \<Rightarrow> bytes option"
  en_draws :: nat
  en_client_ids :: "nat \<Rightarrow> uint"
  en_clients :: nat
  en_peer_client :: "nat \<Rightarrow> uint"
  en_server_client :: "int32 \<Rightarrow> uint"
  en_results :: "bool list"
  en_out :: "ocall list"

type_synonym 'a enclave_op = "(enclave, 'a) sx"

definition ocall :: "ocall \<Rightarrow> unit enclave_op" where
  "ocall c = modM (\<lambda>e. e\<lparr>en_out := en_out e @ [c]\<rparr>)"

definition draw :: "bytes option enclave_op" where
  "draw = bindM (getM (\<lambda>e. en_rand e (en_draws e))) (\<lambda>r.
          bindM (modM (\<lambda>e. e\<lparr>en_draws := en_draws e + 1\<rparr>)) (\<lambda>_. ret r))"

definition encrypt :: "library \<Rightarrow> bytes \<Rightarrow> bytes enclave_op" where
  "encrypt lib data = bindM draw (\<lambda>drawn. liftR (raft_encrypt (lb_cipher lib) drawn data))"

section \<open>Calls to other servers\<close>

definition raw_send :: "uint \<Rightarrow> er_message_type \<Rightarrow> bytes \<Rightarrow> uint \<Rightarrow> unit enclave_op" where
  "raw_send client type message unique_id =
     ocall (Send_rpc_request client (type_bytes type @ message) unique_id)"

definition next_req_uid :: "uint enclave_op" where
  "next_req_uid =
     bindM (modM (\<lambda>e. e\<lparr>en_last_req_uid := en_last_req_uid e + 1\<rparr>)) (\<lambda>_. getM en_last_req_uid)"

text \<open>\<^verbatim>\<open>RpcClientPort::send\<close>\<close>

definition client_send :: "library \<Rightarrow> uint \<Rightarrow> req_msg \<Rightarrow> raft_callback \<Rightarrow> unit enclave_op" where
  "client_send lib client req when_done =
     bindM (liftR (serialize_req req)) (\<lambda>req_buffer.
     bindM (encrypt lib (bdata req_buffer)) (\<lambda>message_buffer.
     bindM next_req_uid (\<lambda>uid.
     bindM (modM (\<lambda>e. e\<lparr>en_callback_pool := map_put (ucast uid) (req, when_done) (en_callback_pool e)\<rparr>)) (\<lambda>_.
     raw_send client raft_message message_buffer uid))))"

definition send_xchg_request :: "library \<Rightarrow> uint \<Rightarrow> int32 \<Rightarrow> cstring \<Rightarrow> unit enclave_op" where
  "send_xchg_request lib client my_id my_report =
     bindM next_req_uid (\<lambda>uid.
     raw_send client system_key_exchange_req (lb_dump_report lib my_id my_report) uid)"

text \<open>\<^verbatim>\<open>RpcClientPort::RpcClientPort\<close> and its destructor, which looks for its own number in the pool.\<close>

definition rpc_client_create :: "cstring \<Rightarrow> uint enclave_op" where
  "rpc_client_create endpoint =
     bindM (ocall (Rpc_client_create endpoint)) (\<lambda>_.
     bindM (getM (\<lambda>e. en_client_ids e (en_clients e))) (\<lambda>uid.
     bindM (modM (\<lambda>e. e\<lparr>en_clients := en_clients e + 1\<rparr>)) (\<lambda>_. ret uid)))"

definition rpc_client_destroy :: "uint \<Rightarrow> unit enclave_op" where
  "rpc_client_destroy client_uid =
     bindM (modM (\<lambda>e. e\<lparr>en_callback_pool := map_erase (ucast client_uid) (en_callback_pool e)\<rparr>)) (\<lambda>_.
     ocall (Rpc_client_close client_uid))"

section \<open>The server inside the enclave\<close>

fun perform :: "library \<Rightarrow> effect \<Rightarrow> unit enclave_op" where
  "perform lib (Send u req handler) =
     bindM (getM (\<lambda>e. en_peer_client e u)) (\<lambda>client.
     client_send lib client req (Peer_callback u handler))"
| "perform lib (Send_client i req) =
     bindM (getM (\<lambda>e. en_server_client e i)) (\<lambda>client.
     client_send lib client req (Leader_callback i))"
| "perform lib x = ocall (Server_effect x)"

text \<open>
  A call of the server: its effects are carried out in their order, then its result or its
  exception is passed on. Before \<^verbatim>\<open>listen\<close> the pointer to the server is null.
\<close>

definition on_server :: "library \<Rightarrow> 'a server_op \<Rightarrow> 'a enclave_op" where
  "on_server lib m =
     bindM (getM en_server) (\<lambda>sv.
     case sv of
       None \<Rightarrow> throwM Undefined_behaviour
     | Some sv \<Rightarrow>
         (case m (sv\<lparr>sv_outbox := []\<rparr>) of (r, sv') \<Rightarrow>
            bindM (modM (\<lambda>e. e\<lparr>en_server := Some (sv'\<lparr>sv_outbox := []\<rparr>)\<rparr>)) (\<lambda>_.
            bindM (forM (sv_outbox sv') (perform lib)) (\<lambda>_.
            liftR r))))"

text \<open>\<^verbatim>\<open>raft_rpc_request_handler->server_id()\<close>\<close>

definition handler_id :: "int32 enclave_op" where
  "handler_id =
     bindM (getM en_server) (\<lambda>sv.
     case sv of None \<Rightarrow> throwM Undefined_behaviour | Some sv \<Rightarrow> ret (sv_id sv))"

section \<open>The key store\<close>

definition with_keys :: "(key_store \<Rightarrow> 'a enclave_op) \<Rightarrow> 'a enclave_op" where
  "with_keys f =
     bindM (getM en_key_store) (\<lambda>ks. case ks of None \<Rightarrow> throwM Undefined_behaviour | Some ks \<Rightarrow> f ks)"

definition upd_keys :: "(key_store \<Rightarrow> key_store) \<Rightarrow> unit enclave_op" where
  "upd_keys f = modM (\<lambda>e. e\<lparr>en_key_store := map_option f (en_key_store e)\<rparr>)"

definition register_report :: "library \<Rightarrow> cstring \<Rightarrow> bool enclave_op" where
  "register_report lib http_packet =
     with_keys (\<lambda>ks.
     if ks_self_report ks \<noteq> [] then throwM Runtime_error
     else
       bindM (liftR (validate_verification_report lib (c_str http_packet))) (\<lambda>quote_bytes.
       case quote_bytes of
         None \<Rightarrow> ret False
       | Some quote \<Rightarrow>
           bindM (liftR (report_data quote)) (\<lambda>d.
           if d = ks_public ks then
             bindM (upd_keys (\<lambda>ks. ks\<lparr>ks_self_report := c_str http_packet\<rparr>)) (\<lambda>_. ret True)
           else ret False)))"

definition receive_report :: "library \<Rightarrow> int32 \<Rightarrow> cstring \<Rightarrow> bool enclave_op" where
  "receive_report lib sid http_packet =
     with_keys (\<lambda>_.
     bindM (liftR (validate_verification_report lib (c_str http_packet))) (\<lambda>quote_bytes.
     case quote_bytes of
       None \<Rightarrow> ret False
     | Some quote \<Rightarrow>
         bindM (liftR (report_data quote)) (\<lambda>pk.
         bindM (upd_keys (\<lambda>ks. ks\<lparr>ks_store := umap_put sid pk (ks_store ks)\<rparr>)) (\<lambda>_.
         ret True))))"

definition query_server :: "int32 \<Rightarrow> key_store \<Rightarrow> bytes option" where
  "query_server sid ks = map_of (ks_store ks) sid"

definition build_key_xchg_req :: "library \<Rightarrow> time_point \<Rightarrow> int32 \<Rightarrow> cstring \<Rightarrow> unit enclave_op" where
  "build_key_xchg_req lib now sid endpoint =
     with_keys (\<lambda>ks.
     case query_server sid ks of
       Some _ \<Rightarrow>
         bindM (on_server lib (add_srv now \<lparr>sc_id = sid, sc_endpoint = endpoint\<rparr>)) (\<lambda>_. ret ())
     | None \<Rightarrow>
         bindM handler_id (\<lambda>my_id.
         case map_of (ks_temp_connections ks) sid of
           None \<Rightarrow>
             bindM (rpc_client_create endpoint) (\<lambda>client.
             bindM (upd_keys (\<lambda>ks. ks\<lparr>ks_temp_connections :=
                      umap_put sid (client, endpoint) (ks_temp_connections ks)\<rparr>)) (\<lambda>_.
             send_xchg_request lib client my_id (ks_self_report ks)))
         | Some (client, _) \<Rightarrow>
             upd_keys (\<lambda>ks. ks\<lparr>ks_temp_connections :=
               umap_put sid (client, endpoint) (ks_temp_connections ks)\<rparr>)))"

text \<open>The endpoint is read through the iterator even when the server has no temporary connection.\<close>

definition handle_key_xchg_resp :: "library \<Rightarrow> time_point \<Rightarrow> bytes \<Rightarrow> cstring \<Rightarrow> unit enclave_op" where
  "handle_key_xchg_resp lib now payload exception =
     (if exception \<noteq> [] then ret ()
      else if \<not> lb_json_parses lib payload then ret ()
      else
        let sid = lb_json_int lib payload ''server_id'' in
        bindM (receive_report lib sid (lb_json_string lib payload ''report'')) (\<lambda>result.
        with_keys (\<lambda>ks.
        case map_of (ks_temp_connections ks) sid of
          None \<Rightarrow> throwM Undefined_behaviour
        | Some (client, endpoint) \<Rightarrow>
            bindM (upd_keys (\<lambda>ks. ks\<lparr>ks_temp_connections :=
                     map_erase sid (ks_temp_connections ks)\<rparr>)) (\<lambda>_.
            bindM (rpc_client_destroy client) (\<lambda>_.
            whenM result
              (bindM (on_server lib (add_srv now \<lparr>sc_id = sid, sc_endpoint = endpoint\<rparr>)) (\<lambda>_.
               ret ())))))))"

section \<open>Requests from outside\<close>

text \<open>
  \<^verbatim>\<open>a_result->get()\<close>: a result that is left to a call in flight is awaited; what the leader answers
  is an argument.
\<close>

definition await :: "bool \<Rightarrow> async_result \<Rightarrow> bool" where
  "await answer r = (case r of Ready b \<Rightarrow> b | Pending \<Rightarrow> answer)"

text \<open>The buffer of a client's log: its bytes and eight zeros.\<close>

definition client_log :: "library \<Rightarrow> cstring \<Rightarrow> buffer res" where
  "client_log lib item =
     rbind (base64_decode lib item) (\<lambda>log.
     rbind (alloc (length log + 8)) (\<lambda>p_log.
     Inr (write_bytes log p_log)))"

definition client_response :: "library \<Rightarrow> er_message_type \<Rightarrow> bool \<Rightarrow> bytes" where
  "client_response lib resp_type result =
     type_bytes resp_type @ lb_dump_success lib (if result then 1 else 0)"

definition handle_client_request ::
  "library \<Rightarrow> time_point \<Rightarrow> bool \<Rightarrow> er_message_type \<Rightarrow> bytes \<Rightarrow> bytes option enclave_op" where
  "handle_client_request lib now answer type payload =
     (case type of
        client_add_srv_req \<Rightarrow>
          bindM (build_key_xchg_req lib now (lb_json_int lib payload ''server_id'')
                   (lb_json_string lib payload ''endpoint'')) (\<lambda>_.
          ret (Some (client_response lib client_add_srv_resp True)))
      | client_remove_srv_req \<Rightarrow>
          bindM (on_server lib (remove_srv now
                   (ucast (ucast (lb_json_int lib payload ''server_id'') :: ushort)))) (\<lambda>a_result.
          ret (Some (client_response lib client_remove_srv_resp (await answer a_result))))
      | client_append_entries_req \<Rightarrow>
          bindM (liftR (mapR (client_log lib) (lb_json_items lib payload))) (\<lambda>logs.
          bindM (on_server lib (append_entries now logs)) (\<lambda>a_result.
          ret (Some (client_response lib client_append_entries_resp (await answer a_result)))))
      | _ \<Rightarrow> ret None)"

text \<open>When the report is not accepted the response stays null, and is written to all the same.\<close>

definition handle_system_request ::
  "library \<Rightarrow> er_message_type \<Rightarrow> bytes \<Rightarrow> bytes option enclave_op" where
  "handle_system_request lib type payload =
     (case type of
        system_key_exchange_req \<Rightarrow>
          bindM (receive_report lib (lb_json_int lib payload ''server_id'')
                   (lb_json_string lib payload ''report'')) (\<lambda>result.
          if result then
            bindM handler_id (\<lambda>my_id.
            with_keys (\<lambda>ks.
            ret (Some (type_bytes system_key_exchange_resp @ lb_dump_report lib my_id (ks_self_report ks)))))
          else throwM Undefined_behaviour)
      | _ \<Rightarrow> ret None)"

text \<open>The part of the handler inside the \<^verbatim>\<open>try\<close> block.\<close>

definition answer_raft_request ::
  "library \<Rightarrow> time_point \<Rightarrow> buffer \<Rightarrow> buffer \<Rightarrow> bytes option enclave_op" where
  "answer_raft_request lib now header log_data =
     bindM (liftR (deserialize_req header (Some log_data))) (\<lambda>req.
     bindM (on_server lib (process_req now req)) (\<lambda>resp.
     bindM (liftR (serialize_resp resp)) (\<lambda>resp_buf.
     bindM (encrypt lib (bdata resp_buf)) (\<lambda>message_buffer.
     ret (Some (type_bytes raft_message @ message_buffer))))))"

text \<open>
  The header and the log data are copied out of the message by the sizes the format has and
  the header gives; neither is compared with the size of the message.
\<close>

definition split_raft_request :: "bytes \<Rightarrow> (buffer \<times> buffer) res" where
  "split_raft_request message =
     rbind (alloc RPC_REQ_HEADER_SIZE) (\<lambda>header.
     rbind (memcpy_s (bdata header) message RPC_REQ_HEADER_SIZE) (\<lambda>h.
     let header = set_pos (RPC_REQ_HEADER_SIZE - 4) (fresh_buf h) in
     rbind (get_int header) (\<lambda>(data_size, header).
     rbind (alloc (int32_to_size data_size)) (\<lambda>log_data.
     rbind (memcpy_s (bdata log_data) (drop RPC_REQ_HEADER_SIZE message) (int32_to_size data_size)) (\<lambda>d.
     Inr (header, fresh_buf d))))))"

definition handle_raft_message :: "library \<Rightarrow> time_point \<Rightarrow> bytes \<Rightarrow> bytes option enclave_op" where
  "handle_raft_message lib now data =
     bindM (liftR (raft_decrypt (lb_cipher lib) data)) (\<lambda>message_buffer.
     bindM (liftR (split_raft_request message_buffer)) (\<lambda>(header, log_data).
     catchM (answer_raft_request lib now header log_data) (\<lambda>_. ret None)))"

text \<open>The size of the response, -1 for none, and the number under which it is kept.\<close>

definition keep_response :: "bytes option \<Rightarrow> (int32 \<times> uint) enclave_op" where
  "keep_response response =
     (case response of
        None \<Rightarrow> ret (- 1, 0)
      | Some resp \<Rightarrow>
          bindM (modM (\<lambda>e. e\<lparr>en_id_counter := en_id_counter e + 1,
                             en_response_buffer :=
                               umap_insert (en_id_counter e + 1) resp (en_response_buffer e)\<rparr>)) (\<lambda>_.
          bindM (getM en_id_counter) (\<lambda>msg_id.
          ret (of_nat (length resp), msg_id))))"

definition ecall_handle_rpc_request ::
  "library \<Rightarrow> time_point \<Rightarrow> bool \<Rightarrow> bytes \<Rightarrow> (int32 \<times> uint) enclave_op" where
  "ecall_handle_rpc_request lib now answer message =
     bindM (liftR (read_type message)) (\<lambda>type.
     let payload = drop 2 message in
     case type of
       client_add_srv_req \<Rightarrow> bindM (handle_client_request lib now answer type payload) keep_response
     | client_remove_srv_req \<Rightarrow> bindM (handle_client_request lib now answer type payload) keep_response
     | client_append_entries_req \<Rightarrow> bindM (handle_client_request lib now answer type payload) keep_response
     | system_key_exchange_req \<Rightarrow> bindM (handle_system_request lib type payload) keep_response
     | system_key_setup_req \<Rightarrow> bindM (handle_system_request lib type payload) keep_response
     | raft_message \<Rightarrow> bindM (handle_raft_message lib now payload) keep_response
     | _ \<Rightarrow> ret (- 1, 0))"

definition ecall_fetch_rpc_response :: "uint \<Rightarrow> bytes \<Rightarrow> (bool \<times> bytes) enclave_op" where
  "ecall_fetch_rpc_response msg_id buffer =
     bindM (getM (\<lambda>e. map_of (en_response_buffer e) msg_id)) (\<lambda>it.
     case it of
       None \<Rightarrow> ret (False, buffer)
     | Some resp \<Rightarrow>
         bindM (liftR (memcpy_s buffer resp (length resp))) (\<lambda>buffer. ret (True, buffer)))"

section \<open>Results of calls to other servers\<close>

definition run_callback :: "library \<Rightarrow> time_point \<Rightarrow> req_msg \<Rightarrow> raft_callback \<Rightarrow> resp_msg \<Rightarrow> unit enclave_op" where
  "run_callback lib now req when_done rsp =
     (case when_done of
        Peer_callback u handler \<Rightarrow> on_server lib (on_rpc_result now u req handler (Inr rsp))
      | Leader_callback _ \<Rightarrow> modM (\<lambda>e. e\<lparr>en_results := en_results e @ [rs_accepted rsp]\<rparr>))"

text \<open>
  The callback is taken out of the pool; for a number the pool does not have it is an empty
  function, whose call throws.
\<close>

definition handle_raft_response :: "library \<Rightarrow> time_point \<Rightarrow> uint \<Rightarrow> bytes \<Rightarrow> unit enclave_op" where
  "handle_raft_response lib now req_uid data =
     bindM (getM (\<lambda>e. map_of (en_callback_pool e) (ucast req_uid))) (\<lambda>item.
     bindM (modM (\<lambda>e. e\<lparr>en_callback_pool := map_erase (ucast req_uid) (en_callback_pool e)\<rparr>)) (\<lambda>_.
     bindM (liftR (raft_decrypt (lb_cipher lib) data)) (\<lambda>message_buffer.
     bindM (liftR (rbind (alloc RPC_RESP_HEADER_SIZE) (\<lambda>resp_buf.
                   rbind (memcpy_s (bdata resp_buf) message_buffer (length message_buffer)) (\<lambda>d.
                   rbind (deserialize_resp (fresh_buf d)) (\<lambda>(rsp, _). Inr rsp))))) (\<lambda>rsp.
     case item of
       None \<Rightarrow> throwM Bad_function_call
     | Some (req, when_done) \<Rightarrow> run_callback lib now req when_done rsp))))"

definition handle_system_resp :: "library \<Rightarrow> time_point \<Rightarrow> er_message_type \<Rightarrow> bytes \<Rightarrow> unit enclave_op" where
  "handle_system_resp lib now type payload =
     (case type of
        system_key_exchange_resp \<Rightarrow> handle_key_xchg_resp lib now payload []
      | _ \<Rightarrow> ret ())"

text \<open>A call that failed outside is reported with a text and no message.\<close>

definition ecall_rpc_response ::
  "library \<Rightarrow> time_point \<Rightarrow> uint \<Rightarrow> bytes \<Rightarrow> cstring option \<Rightarrow> unit enclave_op" where
  "ecall_rpc_response lib now req_uid msg exception =
     (if exception \<noteq> None then ret ()
      else
        bindM (liftR (read_type msg)) (\<lambda>type.
        case type of
          system_key_exchange_resp \<Rightarrow> handle_system_resp lib now type (drop 2 msg)
        | system_key_setup_resp \<Rightarrow> handle_system_resp lib now type (drop 2 msg)
        | raft_message \<Rightarrow> handle_raft_response lib now req_uid (drop 2 msg)
        | _ \<Rightarrow> ret ()))"

section \<open>Starting\<close>

text \<open>
  What the SDK gives: the key pair, or a failure with its status, and the report over the
  report data. The status is 0 for success.
\<close>

definition ecall_get_report ::
  "uint + bytes \<times> bytes \<Rightarrow> (bytes \<Rightarrow> uint \<times> bytes) \<Rightarrow> (uint \<times> bytes option) enclave_op" where
  "ecall_get_report key_pair create_report =
     bindM (getM en_key_store) (\<lambda>ks.
     let fresh = (case key_pair of Inl status \<Rightarrow> Inl status | Inr (sk, pk) \<Rightarrow> Inr (er_key_store_new sk pk)) in
     case (case ks of None \<Rightarrow> fresh | Some ks \<Rightarrow> Inr ks) of
       Inl status \<Rightarrow> ret (status, None)
     | Inr ks \<Rightarrow>
         bindM (modM (\<lambda>e. e\<lparr>en_key_store := Some ks\<rparr>)) (\<lambda>_.
         case create_report (ks_public ks) of (status, report) \<Rightarrow> ret (status, Some report)))"

definition ecall_register_verification_report :: "library \<Rightarrow> cstring \<Rightarrow> bool enclave_op" where
  "ecall_register_verification_report lib http_packet = register_report lib http_packet"

definition enclave_params :: raft_params where
  "enclave_params =
     with_rpc_failure_backoff 50 (with_max_append_size 100 (with_hb_interval 100
       (with_election_timeout_upper 400 (with_election_timeout_lower 200 raft_params_new))))"

text \<open>The server is built, and \<^verbatim>\<open>listen\<close> makes it the handler of requests.\<close>

definition run_raft_instance :: "library \<Rightarrow> int32 \<Rightarrow> cstring \<Rightarrow> (nat \<Rightarrow> int32) \<Rightarrow> unit enclave_op" where
  "run_raft_instance lib srv_id endpoint rand =
     (case raft_server_new enclave_params (state_mgr_new srv_id endpoint) echo_state_machine_new
             log_store_new rand of
        (Inl err, _) \<Rightarrow> throwM err
      | (Inr _, sv) \<Rightarrow>
          bindM (forM (sv_outbox sv) (perform lib)) (\<lambda>_.
          modM (\<lambda>e. e\<lparr>en_server := Some (sv\<lparr>sv_outbox := []\<rparr>)\<rparr>)))"

end
