(* ===== verification/Session.thy ===== *)
theory Session
  imports Buffer
begin

text \<open>
  The connections between the processes (\<^verbatim>\<open>raft_app/port\<close>): \<^verbatim>\<open>asio_rpc_session\<close> reads requests
  from a socket and writes the responses, \<^verbatim>\<open>asio_rpc_client\<close> sends a request and reads the
  response. A message is a length of four bytes, in the byte order of the machine, and the
  bytes behind it. A TCP stream has no message boundaries: the session is driven by the
  chunks its socket delivers, and the main fact is that how the stream is cut makes no
  difference.
\<close>

section \<open>Frames\<close>

definition request_header_size :: nat where
  "request_header_size = 4"

text \<open>What \<^verbatim>\<open>send_message\<close> and \<^verbatim>\<open>write_response\<close> put on the wire.\<close>

definition frame :: "bytes \<Rightarrow> bytes" where
  "frame msg = int_bytes (of_nat (length msg)) @ take (unat (of_nat (length msg) :: uint)) msg"

section \<open>The session\<close>

text \<open>
  Which asynchronous operation is under way: reading a header with so many bytes still
  asked for, reading a payload, writing a response; or the session is stopped and removed
  from its listener.
\<close>

datatype phase = Reading_header nat | Reading_payload | Writing | Stopped

text \<open>
  The members of the class, what has been written to the socket, and the state the request
  handler works on.
\<close>

record 'e session =
  se_phase :: phase
  se_payload_size :: uint
  se_request :: bytes
  se_response :: bytes
  se_sent :: bytes
  se_env :: 'e

text \<open>The handler gets the request; null and an exception both end the session.\<close>

type_synonym 'e request_handler = "bytes \<Rightarrow> 'e \<Rightarrow> bytes option \<times> 'e"

definition session_stop :: "'e session \<Rightarrow> 'e session" where
  "session_stop s = s\<lparr>se_phase := Stopped\<rparr>"

definition read_header :: "'e session \<Rightarrow> 'e session" where
  "read_header s = s\<lparr>se_phase := Reading_header (request_header_size - length (se_request s))\<rparr>"

definition session_start :: "'e session \<Rightarrow> 'e session" where
  "session_start = read_header"

definition session_new :: "'e \<Rightarrow> 'e session" where
  "session_new env =
     session_start \<lparr>se_phase = Stopped, se_payload_size = 0, se_request = [], se_response = [],
                    se_sent = [], se_env = env\<rparr>"

definition read_payload :: "'e session \<Rightarrow> 'e session" where
  "read_payload s = s\<lparr>se_phase := Reading_payload\<rparr>"

definition write_response :: "bytes \<Rightarrow> 'e session \<Rightarrow> 'e session" where
  "write_response resp_buf s =
     s\<lparr>se_payload_size := of_nat (length resp_buf),
       se_response := se_response s @ frame resp_buf,
       se_phase := Writing\<rparr>"

definition handle_request :: "'e request_handler \<Rightarrow> 'e session \<Rightarrow> 'e session" where
  "handle_request handler s =
     (let n = unat (se_payload_size s);
          (resp_buf, env) = handler (take n (se_request s)) (se_env s);
          s = s\<lparr>se_request := drop n (se_request s), se_env := env\<rparr>
      in case resp_buf of Some resp \<Rightarrow> write_response resp s | None \<Rightarrow> session_stop s)"

definition handle_request_header :: "'e request_handler \<Rightarrow> 'e session \<Rightarrow> 'e session" where
  "handle_request_header handler s =
     (let s = s\<lparr>se_payload_size := int_of_bytes (se_request s), se_request := drop 4 (se_request s)\<rparr>
      in if length (se_request s) < unat (se_payload_size s) then read_payload s
         else handle_request handler s)"

text \<open>The socket delivers bytes to the operation under way; a header is complete once enough came.\<close>

definition bytes_read :: "'e request_handler \<Rightarrow> bytes \<Rightarrow> 'e session \<Rightarrow> 'e session" where
  "bytes_read handler chunk s =
     (let s' = s\<lparr>se_request := se_request s @ chunk\<rparr>
      in case se_phase s of
        Reading_header k \<Rightarrow>
          if length chunk < k then s'\<lparr>se_phase := Reading_header (k - length chunk)\<rparr>
          else handle_request_header handler s'
      | Reading_payload \<Rightarrow>
          if length (se_request s') < unat (se_payload_size s') then read_payload s'
          else handle_request handler s'
      | _ \<Rightarrow> s)"

text \<open>The response has been written.\<close>

definition response_written :: "'e request_handler \<Rightarrow> 'e session \<Rightarrow> 'e session" where
  "response_written handler s =
     (let s = s\<lparr>se_sent := se_sent s @ se_response s, se_payload_size := 0, se_response := []\<rparr>
      in if length (se_request s) \<ge> request_header_size then handle_request_header handler s
         else session_start s)"

text \<open>An error of the socket, in any of the three operations.\<close>

definition session_error :: "'e session \<Rightarrow> 'e session" where
  "session_error s = session_stop s"

section \<open>Running a session\<close>

lemma handle_request_shrinks: "length (se_request (handle_request h s)) \<le> length (se_request s)"
  by (simp add: handle_request_def Let_def write_response_def session_stop_def
      split: prod.split option.split)

lemma response_written_shrinks:
  assumes "se_phase (response_written h s) = Writing"
  shows "length (se_request (response_written h s)) < length (se_request s)"
proof -
  let ?s = "s\<lparr>se_sent := se_sent s @ se_response s, se_payload_size := 0, se_response := []\<rparr>"
  let ?t = "?s\<lparr>se_payload_size := int_of_bytes (se_request s), se_request := drop 4 (se_request s)\<rparr>"
  have "length (se_request s) \<ge> 4"
    using assms by (auto simp: response_written_def Let_def session_start_def read_header_def
        request_header_size_def split: if_splits)
  then show ?thesis
    using assms handle_request_shrinks [of h ?t]
    by (auto simp: response_written_def handle_request_header_def Let_def request_header_size_def
        read_payload_def split: if_splits)
qed

text \<open>
  Writes complete one after the other while complete requests are waiting; every one takes
  at least its header out of the buffer.
\<close>

function settle :: "'e request_handler \<Rightarrow> 'e session \<Rightarrow> 'e session" where
  "settle handler s = (if se_phase s = Writing then settle handler (response_written handler s) else s)"
  by pat_completeness auto
termination
proof (relation "measure (\<lambda>(_, s). if se_phase s = Writing then Suc (length (se_request s)) else 0)")
  fix handler :: "'e request_handler" and s :: "'e session"
  assume "se_phase s = Writing"
  then show "((handler, response_written handler s), handler, s) \<in>
      measure (\<lambda>(_, s). if se_phase s = Writing then Suc (length (se_request s)) else 0)"
    using response_written_shrinks [of handler s] by simp
qed simp

declare settle.simps [simp del]

definition receive :: "'e request_handler \<Rightarrow> bytes \<Rightarrow> 'e session \<Rightarrow> 'e session" where
  "receive handler chunk s = settle handler (bytes_read handler chunk s)"

section \<open>The stream as a whole\<close>

text \<open>
  The contract: what a session does with a stream, read as a whole. The result is what is
  written, the bytes of an incomplete request at the end or \<open>None\<close> when the handler ended
  the session, and the handler's state.
\<close>

function serve :: "'e request_handler \<Rightarrow> bytes \<Rightarrow> 'e \<Rightarrow> bytes \<times> bytes option \<times> 'e" where
  "serve handler buf env =
     (if length buf < 4 \<or> length (drop 4 buf) < unat (int_of_bytes buf) then ([], Some buf, env)
      else
        let n = unat (int_of_bytes buf) in
        case handler (take n (drop 4 buf)) env of
          (None, env') \<Rightarrow> ([], None, env')
        | (Some resp, env') \<Rightarrow>
            (let (out, rest) = serve handler (drop n (drop 4 buf)) env'
             in (frame resp @ out, rest)))"
  by pat_completeness auto
termination
  by (relation "measure (\<lambda>(_, buf, _). length buf)") auto

declare serve.simps [simp del]

type_synonym 'e served = "bytes \<times> bytes option \<times> 'e"

fun feed :: "'e request_handler \<Rightarrow> bytes \<Rightarrow> 'e served \<Rightarrow> 'e served" where
  "feed handler chunk (sent, None, env) = (sent, None, env)"
| "feed handler chunk (sent, Some buf, env) =
     (case serve handler (buf @ chunk) env of (out, rest) \<Rightarrow> (sent @ out, rest))"

text \<open>What a session has done and still holds, seen as the contract sees it.\<close>

fun unparsed :: "phase \<Rightarrow> uint \<Rightarrow> bytes \<Rightarrow> bytes option" where
  "unparsed (Reading_header _) _ request = Some request"
| "unparsed Reading_payload n request = Some (int_bytes n @ request)"
| "unparsed Writing _ request = Some request"
| "unparsed Stopped _ _ = None"

definition session_view :: "'e session \<Rightarrow> 'e served" where
  "session_view s = (se_sent s @ se_response s,
                     unparsed (se_phase s) (se_payload_size s) (se_request s), se_env s)"

text \<open>Between two chunks the session is reading and holds no complete request.\<close>

definition session_ok :: "'e session \<Rightarrow> bool" where
  "session_ok s \<longleftrightarrow>
     (case se_phase s of
        Reading_header k \<Rightarrow> k + length (se_request s) = 4 \<and> 0 < k \<and> se_response s = []
      | Reading_payload \<Rightarrow> length (se_request s) < unat (se_payload_size s) \<and> se_response s = []
      | Writing \<Rightarrow> False
      | Stopped \<Rightarrow> se_response s = [])"

subsection \<open>The session meets its contract\<close>

lemma serve_short: "length buf < 4 \<Longrightarrow> serve h buf env = ([], Some buf, env)"
  by (simp add: serve.simps)

lemma serve_header:
  "serve h (int_bytes n @ buf) env =
     (if length buf < unat n then ([], Some (int_bytes n @ buf), env)
      else case h (take (unat n) buf) env of
          (None, env') \<Rightarrow> ([], None, env')
        | (Some resp, env') \<Rightarrow>
            (let (out, rest) = serve h (drop (unat n) buf) env' in (frame resp @ out, rest)))"
  by (subst serve.simps) (simp add: int_of_bytes_append Let_def split: prod.split option.split)

definition served_from :: "'e request_handler \<Rightarrow> bytes \<Rightarrow> 'e session \<Rightarrow> 'e served" where
  "served_from h buf s = (case serve h buf (se_env s) of (out, rest) \<Rightarrow> (se_sent s @ out, rest))"

lemma settle_reading: "se_phase s \<noteq> Writing \<Longrightarrow> settle h s = s"
  by (simp add: settle.simps)

lemma settle_written:
  "settle h (write_response resp s) = settle h (response_written h (write_response resp s))"
  by (subst settle.simps) (simp add: write_response_def)

text \<open>
  Both ways into a request: with its header still in the buffer, and with the header read.
\<close>

lemma settle_request_step:
  assumes header: "\<And>t. length (se_request t) \<le> length (se_request s) \<Longrightarrow>
      4 \<le> length (se_request t) \<Longrightarrow> se_response t = [] \<Longrightarrow>
      session_ok (settle h (handle_request_header h t)) \<and>
      session_view (settle h (handle_request_header h t)) = served_from h (se_request t) t"
    and r: "se_response s = []" "unat (se_payload_size s) \<le> length (se_request s)"
  shows "session_ok (settle h (handle_request h s)) \<and>
    session_view (settle h (handle_request h s)) =
      served_from h (int_bytes (se_payload_size s) @ se_request s) s"
proof -
  let ?n = "unat (se_payload_size s)"
  obtain a env where a: "h (take ?n (se_request s)) (se_env s) = (a, env)" by fastforce
  show ?thesis
  proof (cases a)
    case None
    then show ?thesis
      using r a by (simp add: handle_request_def settle_reading session_stop_def session_ok_def
          session_view_def served_from_def serve_header)
  next
    case (Some resp)
    let ?u = "s\<lparr>se_request := drop ?n (se_request s), se_env := env\<rparr>"
    let ?t = "?u\<lparr>se_phase := Writing, se_sent := se_sent s @ frame resp, se_payload_size := 0,
                 se_response := []\<rparr>"
    have "settle h (handle_request h s) = settle h (response_written h (write_response resp ?u))"
      using Some a by (simp add: handle_request_def settle_written)
    also have "response_written h (write_response resp ?u) =
        (if 4 \<le> length (se_request ?t) then handle_request_header h ?t else session_start ?t)"
      using r(1) by (simp add: response_written_def write_response_def request_header_size_def Let_def)
    finally have eq: "settle h (handle_request h s) =
        settle h (if 4 \<le> length (se_request ?t) then handle_request_header h ?t else session_start ?t)" .
    have serve: "served_from h (int_bytes (se_payload_size s) @ se_request s) s =
        served_from h (se_request ?t) ?t"
      using Some a r by (simp add: served_from_def serve_header Let_def split: prod.split)
    show ?thesis
    proof (cases "4 \<le> length (se_request ?t)")
      case True
      then show ?thesis
        using header [of ?t] eq serve by simp
    next
      case False
      then show ?thesis
        using eq serve
        by (simp add: settle_reading session_start_def read_header_def session_ok_def
            session_view_def served_from_def serve_short request_header_size_def)
    qed
  qed
qed

lemma settle_header:
  assumes "4 \<le> length (se_request s)" "se_response s = []"
  shows "session_ok (settle h (handle_request_header h s)) \<and>
    session_view (settle h (handle_request_header h s)) = served_from h (se_request s) s"
  using assms
proof (induction "length (se_request s)" arbitrary: s rule: less_induct)
  case less
  let ?s = "s\<lparr>se_payload_size := int_of_bytes (se_request s), se_request := drop 4 (se_request s)\<rparr>"
  have buf: "int_bytes (se_payload_size ?s) @ se_request ?s = se_request s"
    using less.prems by (simp add: int_bytes_drop)
  show ?case
  proof (cases "length (se_request ?s) < unat (se_payload_size ?s)")
    case True
    then have "handle_request_header h s = read_payload ?s"
      by (simp add: handle_request_header_def)
    moreover have "serve h (se_request s) env = ([], Some (se_request s), env)" for env
      using True by (subst serve.simps) simp
    ultimately show ?thesis
      using True less.prems buf
      by (simp add: settle_reading read_payload_def session_ok_def session_view_def served_from_def)
  next
    case False
    then have "handle_request_header h s = handle_request h ?s"
      by (simp add: handle_request_header_def)
    moreover have "session_ok (settle h (handle_request h ?s)) \<and>
        session_view (settle h (handle_request h ?s)) =
          served_from h (int_bytes (se_payload_size ?s) @ se_request ?s) ?s"
    proof (rule settle_request_step)
      fix t :: "'a session"
      assume "length (se_request t) \<le> length (se_request ?s)" "4 \<le> length (se_request t)"
        "se_response t = []"
      then show "session_ok (settle h (handle_request_header h t)) \<and>
          session_view (settle h (handle_request_header h t)) = served_from h (se_request t) t"
        using less.prems by (intro less.hyps) auto
    qed (use False less.prems in auto)
    ultimately show ?thesis
      unfolding buf by (simp add: served_from_def)
  qed
qed

lemma settle_request:
  assumes "se_response s = []" "unat (se_payload_size s) \<le> length (se_request s)"
  shows "session_ok (settle h (handle_request h s)) \<and>
    session_view (settle h (handle_request h s)) =
      served_from h (int_bytes (se_payload_size s) @ se_request s) s"
  using settle_header assms by (intro settle_request_step) blast+

text \<open>A chunk does to the session what it does to the contract.\<close>

lemma receive_refines:
  assumes "session_ok s"
  shows "session_ok (receive h chunk s) \<and> session_view (receive h chunk s) = feed h chunk (session_view s)"
proof (cases "se_phase s")
  case (Reading_header k)
  let ?t = "s\<lparr>se_request := se_request s @ chunk\<rparr>"
  have s: "k + length (se_request s) = 4" "se_response s = []"
    using assms Reading_header by (simp_all add: session_ok_def)
  show ?thesis
  proof (cases "length chunk < k")
    case True
    then show ?thesis
      using s Reading_header
      by (simp add: receive_def bytes_read_def settle_reading session_ok_def session_view_def serve_short)
  next
    case False
    then show ?thesis
      using s Reading_header settle_header [of ?t h]
      by (simp add: receive_def bytes_read_def session_view_def served_from_def)
  qed
next
  case Reading_payload
  let ?t = "s\<lparr>se_request := se_request s @ chunk\<rparr>"
  have s: "se_response s = []"
    using assms Reading_payload by (simp add: session_ok_def)
  show ?thesis
  proof (cases "length (se_request ?t) < unat (se_payload_size ?t)")
    case True
    then show ?thesis
      using s Reading_payload
      by (simp add: receive_def bytes_read_def settle_reading read_payload_def session_ok_def
          session_view_def serve_header)
  next
    case False
    then show ?thesis
      using s Reading_payload settle_request [of ?t h]
      by (simp add: receive_def bytes_read_def session_view_def served_from_def)
  qed
qed (use assms in \<open>simp_all add: session_ok_def receive_def bytes_read_def settle_reading session_view_def\<close>)

lemma session_new_ok: "session_ok (session_new env)" "session_view (session_new env) = ([], Some [], env)"
  by (simp_all add: session_new_def session_start_def read_header_def session_ok_def session_view_def
      request_header_size_def)

lemma receive_all:
  assumes "session_ok s"
  shows "session_ok (fold (receive h) chunks s) \<and>
    session_view (fold (receive h) chunks s) = fold (feed h) chunks (session_view s)"
  using assms by (induction chunks arbitrary: s) (simp_all add: receive_refines)

subsection \<open>How the stream is cut makes no difference\<close>

lemma serve_append:
  "serve h (buf @ tail) env =
     (case serve h buf env of
        (out, None, env') \<Rightarrow> (out, None, env')
      | (out, Some rest, env') \<Rightarrow>
          (case serve h (rest @ tail) env' of (out', rest') \<Rightarrow> (out @ out', rest')))"
proof (induction h buf env rule: serve.induct)
  case (1 h buf env)
  show ?case
  proof (cases "length buf < 4 \<or> length (drop 4 buf) < unat (int_of_bytes buf)")
    case True
    then have "serve h buf env = ([], Some buf, env)" by (subst serve.simps) simp
    then show ?thesis by (simp split: prod.split)
  next
    case False
    define v where "v = int_of_bytes buf"
    define body where "body = drop 4 buf"
    have buf: "buf = int_bytes v @ body" and n: "unat v \<le> length body"
      using False by (simp_all add: v_def body_def int_bytes_drop)
    obtain a env' where a: "h (take (unat v) body) env = (a, env')" by fastforce
    show ?thesis
    proof (cases a)
      case None
      then show ?thesis using a n by (simp add: buf serve_header)
    next
      case (Some resp)
      have ih: "serve h (drop (unat v) body @ tail) env' =
          (case serve h (drop (unat v) body) env' of
             (out, None, env') \<Rightarrow> (out, None, env')
           | (out, Some rest, env') \<Rightarrow>
               (case serve h (rest @ tail) env' of (out', rest') \<Rightarrow> (out @ out', rest')))"
        using 1 [OF False refl a [unfolded v_def body_def, symmetric] Some]
        by (simp only: v_def body_def)
      obtain out rest env'' where "serve h (drop (unat v) body) env' = (out, rest, env'')"
        by (metis prod_cases3)
      then show ?thesis
        using Some a n ih by (cases rest) (simp_all add: buf serve_header Let_def split: prod.split)
    qed
  qed
qed

lemma feed_feed: "feed h c2 (feed h c1 st) = feed h (c1 @ c2) st"
proof (cases st)
  case (fields sent buf env)
  show ?thesis
    by (cases buf) (simp_all add: fields serve_append [of h "_ @ c1" c2, simplified]
        split: prod.split option.split)
qed

lemma fold_feed: "fold (feed h) chunks (feed h c st) = feed h (c @ concat chunks) st"
  by (induction chunks arbitrary: c) (simp_all add: feed_feed)

lemma receive_chunks:
  "session_view (fold (receive h) chunks (session_new env)) = serve h (concat chunks) env"
proof -
  have "feed h [] ([], Some [], env) = ([], Some [], env)" by (simp add: serve_short)
  then have "fold (feed h) chunks ([], Some [], env) = feed h (concat chunks) ([], Some [], env)"
    using fold_feed [of h chunks "[]" "([], Some [], env)"] by simp
  then show ?thesis
    using receive_all [OF session_new_ok(1), of h chunks env]
    by (simp add: session_new_ok(2) split: prod.split)
qed

section \<open>Requests and their answers\<close>

text \<open>The handler called on one message after the other, while it answers.\<close>

primrec answers :: "'e request_handler \<Rightarrow> bytes list \<Rightarrow> 'e \<Rightarrow> (bytes list \<times> 'e) option" where
  "answers h [] env = Some ([], env)"
| "answers h (m # ms) env =
     (case h m env of
        (None, _) \<Rightarrow> None
      | (Some r, env') \<Rightarrow>
          (case answers h ms env' of None \<Rightarrow> None | Some (rs, env'') \<Rightarrow> Some (r # rs, env'')))"

lemma unat_size: "n < 2 ^ 32 \<Longrightarrow> unat (of_nat n :: uint) = n"
  by (simp add: unat_of_nat take_bit_nat_eq_self)

lemma frame_eq: "length m < 2 ^ 32 \<Longrightarrow> frame m = int_bytes (of_nat (length m)) @ m"
  by (simp add: frame_def unat_size)

lemma serve_frames:
  assumes "list_all (\<lambda>m. length m < 2 ^ 32) ms" "answers h ms env = Some (rs, env')"
  shows "serve h (concat (map frame ms)) env = (concat (map frame rs), Some [], env')"
  using assms
proof (induction ms arbitrary: env rs)
  case Nil
  then show ?case by (simp add: serve_short)
next
  case (Cons m ms)
  then obtain r env1 rs' where "h m env = (Some r, env1)" "answers h ms env1 = Some (rs', env')"
    "rs = r # rs'"
    by (auto split: prod.splits option.splits)
  moreover have "unat (of_nat (length m) :: uint) = length m" "frame m = int_bytes (of_nat (length m)) @ m"
    using Cons.prems(1) by (simp_all add: unat_size frame_eq)
  ultimately show ?case
    using Cons by (simp add: serve_header)
qed

lemma session_idle:
  assumes "session_ok s" "session_view s = (sent, Some [], env)"
  shows "se_sent s = sent" "se_phase s = Reading_header 4" "se_env s = env"
  using assms
  by (cases "se_phase s"; auto simp: session_ok_def session_view_def int_bytes_def upt_rec)+

lemma session_answers:
  assumes "list_all (\<lambda>m. length m < 2 ^ 32) ms" "concat chunks = concat (map frame ms)"
    and "answers h ms env = Some (rs, env')"
  shows "se_sent (fold (receive h) chunks (session_new env)) = concat (map frame rs)"
    "se_env (fold (receive h) chunks (session_new env)) = env'"
    "se_phase (fold (receive h) chunks (session_new env)) = Reading_header 4"
proof -
  let ?s = "fold (receive h) chunks (session_new env)"
  have "session_ok ?s" by (rule receive_all [OF session_new_ok(1), THEN conjunct1])
  moreover have "session_view ?s = (concat (map frame rs), Some [], env')"
    using serve_frames [OF assms(1,3)] assms(2) by (simp add: receive_chunks)
  ultimately show "se_sent ?s = concat (map frame rs)" "se_env ?s = env'" "se_phase ?s = Reading_header 4"
    by (simp_all add: session_idle)
qed

end
