(* ===== verification/Rpc_Transport.thy ===== *)
theory Rpc_Transport
  imports Session Std_Map Attestation
begin

text \<open>
  The connections the host opens for the enclave (\<^verbatim>\<open>raft_app/port/asio_rpc_client\<close>): the pool of
  clients, the endpoints they accept, and the life of one request from the call of the
  enclave to the report of its outcome. What the network does is an argument: whether an
  operation succeeds, and what the blocking reads of the response size give.
\<close>

section \<open>Endpoints\<close>

text \<open>
  The regular expression \<^verbatim>\<open>^tcp://(([a-zA-Z0-9\-]+\.)*([a-zA-Z0-9]+)):([0-9]+)$\<close>. None of the
  classes has a colon or a dot, so host, labels and port are what lies between them.
\<close>

definition is_alnum :: "byte \<Rightarrow> bool" where
  "is_alnum c \<longleftrightarrow> is_digit c \<or> 65 \<le> c \<and> c \<le> 90 \<or> 97 \<le> c \<and> c \<le> 122"

fun split_on :: "byte \<Rightarrow> bytes \<Rightarrow> bytes list" where
  "split_on d [] = [[]]"
| "split_on d (c # s) =
     (case split_on d s of
        [] \<Rightarrow> []
      | w # ws \<Rightarrow> if c = d then [] # w # ws else (c # w) # ws)"

definition host_ok :: "bytes \<Rightarrow> bool" where
  "host_ok host =
     (let labels = split_on 46 host
      in list_all (\<lambda>l. l \<noteq> [] \<and> list_all (\<lambda>c. is_alnum c \<or> c = 45) l) (butlast labels) \<and>
         last labels \<noteq> [] \<and> list_all is_alnum (last labels))"

definition port_ok :: "bytes \<Rightarrow> bool" where
  "port_ok port \<longleftrightarrow> port \<noteq> [] \<and> list_all is_digit port"

definition tcp_scheme :: bytes where
  "tcp_scheme = ascii ''tcp://''"

definition match_endpoint :: "bytes \<Rightarrow> (bytes \<times> bytes) option" where
  "match_endpoint ep =
     (if prefix tcp_scheme ep then
        (case split_on 58 (drop (length tcp_scheme) ep) of
           [host, port] \<Rightarrow> if host_ok host \<and> port_ok port then Some (host, port) else None
         | _ \<Rightarrow> None)
      else None)"

section \<open>A client\<close>

text \<open>What an operation on the socket gives.\<close>

datatype 'a io = Done 'a | Eof | Failed

text \<open>What the client starts, and what it reports to the enclave with \<^verbatim>\<open>ecall_rpc_response\<close>.\<close>

datatype client_action =
    Resolve uint
  | Connect uint
  | Write bytes
  | Write_async uint bytes
  | Read_async uint nat
  | Response uint bytes
  | Exception uint
  | Close

record asio_rpc_client =
  ac_host :: bytes
  ac_port :: bytes
  ac_client_uid :: uint
  ac_is_open :: bool
  ac_req_map :: "(uint \<times> bytes) list"
  ac_resp_map :: "(uint \<times> bytes) list"
  ac_actions :: "client_action list"

definition asio_rpc_client_new :: "bytes \<Rightarrow> bytes \<Rightarrow> uint \<Rightarrow> asio_rpc_client" where
  "asio_rpc_client_new host port client_uid =
     \<lparr>ac_host = host, ac_port = port, ac_client_uid = client_uid, ac_is_open = False,
      ac_req_map = [], ac_resp_map = [], ac_actions = []\<rparr>"

definition act :: "client_action \<Rightarrow> asio_rpc_client \<Rightarrow> asio_rpc_client" where
  "act a c = c\<lparr>ac_actions := ac_actions c @ [a]\<rparr>"

definition client_close :: "asio_rpc_client \<Rightarrow> asio_rpc_client" where
  "client_close c = (if ac_is_open c then act Close (c\<lparr>ac_is_open := False\<rparr>) else c)"

definition client_error :: "uint \<Rightarrow> asio_rpc_client \<Rightarrow> asio_rpc_client" where
  "client_error request_uid c = client_close (act (Exception request_uid) c)"

definition send_message :: "bool \<Rightarrow> uint \<Rightarrow> asio_rpc_client \<Rightarrow> asio_rpc_client res" where
  "send_message written request_uid c =
     (case map_of (ac_req_map c) request_uid of
        None \<Rightarrow> Inl Undefined_behaviour
      | Some req_buf \<Rightarrow>
          if \<not> written then Inr (client_error request_uid c)
          else Inr (act (Write_async request_uid req_buf)
                     (act (Write (int_bytes (of_nat (length req_buf)))) c)))"

definition query :: "uint \<Rightarrow> asio_rpc_client \<Rightarrow> asio_rpc_client" where
  "query request_uid c = act (Resolve request_uid) c"

text \<open>\<^verbatim>\<open>asio_rpc_client::send\<close>\<close>

definition asio_send :: "bool \<Rightarrow> uint \<Rightarrow> bytes \<Rightarrow> asio_rpc_client \<Rightarrow> asio_rpc_client res" where
  "asio_send written request_uid message c =
     (let c = c\<lparr>ac_req_map := map_put request_uid message (ac_req_map c)\<rparr>
      in if \<not> ac_is_open c then Inr (query request_uid c) else send_message written request_uid c)"

text \<open>The completion handlers: the name is resolved, the connection is made, the request is written.\<close>

definition resolved :: "bool \<Rightarrow> uint \<Rightarrow> asio_rpc_client \<Rightarrow> asio_rpc_client" where
  "resolved ok request_uid c =
     (if ok then act (Connect request_uid) (c\<lparr>ac_is_open := True\<rparr>) else client_error request_uid c)"

definition connected :: "bool \<Rightarrow> bool \<Rightarrow> uint \<Rightarrow> asio_rpc_client \<Rightarrow> asio_rpc_client res" where
  "connected ok written request_uid c =
     (if ok then send_message written request_uid c else Inr (client_error request_uid c))"

text \<open>
  The loop that reads the size of the response: it tries again for as long as the other side
  has closed the connection. The argument gives the outcome of every attempt.
\<close>

partial_function (option) read_size :: "(nat \<Rightarrow> bytes io) \<Rightarrow> nat \<Rightarrow> bytes io option" where
  "read_size attempt n = (case attempt n of Eof \<Rightarrow> read_size attempt (Suc n) | r \<Rightarrow> Some r)"

text \<open>\<open>None\<close> when the loop does not end. A negative size cannot be allocated.\<close>

definition recv_message :: "(nat \<Rightarrow> bytes io) \<Rightarrow> uint \<Rightarrow> asio_rpc_client \<Rightarrow> asio_rpc_client res option" where
  "recv_message attempt request_uid c =
     (case read_size attempt 0 of
        None \<Rightarrow> None
      | Some (Done header) \<Rightarrow>
          (let data_size = int_of_bytes header
           in if sint data_size < 0 then Some (Inl Logic_error)
              else Some (Inr (act (Read_async request_uid (nat (sint data_size)))
                     (c\<lparr>ac_resp_map := map_put request_uid (replicate (nat (sint data_size)) 0)
                                          (ac_resp_map c)\<rparr>))))
      | Some _ \<Rightarrow> Some (Inr (client_error request_uid c)))"

definition request_sent :: "bool \<Rightarrow> (nat \<Rightarrow> bytes io) \<Rightarrow> uint \<Rightarrow> asio_rpc_client \<Rightarrow> asio_rpc_client res option" where
  "request_sent ok attempt request_uid c =
     (if ok then recv_message attempt request_uid c
      else Some (Inr (client_close (client_error request_uid c))))"

definition response_read :: "bytes io \<Rightarrow> uint \<Rightarrow> asio_rpc_client \<Rightarrow> asio_rpc_client" where
  "response_read r req_uid c =
     (let c = (case r of Done body \<Rightarrow> act (Response req_uid body) c | _ \<Rightarrow> client_error req_uid c)
      in c\<lparr>ac_resp_map := map_erase req_uid (ac_resp_map c)\<rparr>)"

section \<open>The pool\<close>

record client_pool =
  cp_counter :: uint
  cp_pool :: "(uint \<times> asio_rpc_client) list"

definition ocall_rpc_client_create :: "bytes \<Rightarrow> client_pool \<Rightarrow> uint \<times> client_pool" where
  "ocall_rpc_client_create endpoint p =
     (case match_endpoint endpoint of
        None \<Rightarrow> (0, p)
      | Some (hostname, port) \<Rightarrow>
          let client_id = cp_counter p + 1
          in (client_id,
              p\<lparr>cp_counter := client_id,
                cp_pool := map_put client_id (asio_rpc_client_new hostname port client_id) (cp_pool p)\<rparr>))"

definition ocall_rpc_client_close :: "uint \<Rightarrow> client_pool \<Rightarrow> client_pool" where
  "ocall_rpc_client_close client_uid p = p\<lparr>cp_pool := map_erase client_uid (cp_pool p)\<rparr>"

text \<open>The iterator is read without a comparison with the end of the pool.\<close>

definition ocall_send_rpc_request :: "bool \<Rightarrow> uint \<Rightarrow> bytes \<Rightarrow> uint \<Rightarrow> client_pool \<Rightarrow> client_pool res" where
  "ocall_send_rpc_request written client_uid message request_uid p =
     (case map_of (cp_pool p) client_uid of
        None \<Rightarrow> Inl Undefined_behaviour
      | Some client \<Rightarrow>
          rbind (asio_send written request_uid message client) (\<lambda>client.
          Inr (p\<lparr>cp_pool := map_put client_uid client (cp_pool p)\<rparr>)))"

section \<open>Endpoints that are accepted\<close>

lemma split_on_nonempty: "split_on d s \<noteq> []"
  by (induction s) (auto split: list.splits)

lemma split_on_append: "d \<notin> set u \<Longrightarrow> split_on d (u @ d # v) = u # split_on d v"
  using split_on_nonempty [of d v] by (induction u) (auto split: list.split)

lemma split_on_none: "d \<notin> set u \<Longrightarrow> split_on d u = [u]"
  by (induction u) auto

lemma split_on_mem: "c \<in> set s \<Longrightarrow> c = d \<or> (\<exists>w \<in> set (split_on d s). c \<in> set w)"
proof (induction s)
  case (Cons a s)
  obtain w ws where "split_on d s = w # ws" using split_on_nonempty list.exhaust by blast
  with Cons show ?case by auto
qed simp

lemma host_no_colon:
  assumes "host_ok host"
  shows "58 \<notin> set host"
proof
  let ?ls = "split_on 46 host"
  assume "58 \<in> set host"
  then obtain w where w: "w \<in> set ?ls" "58 \<in> set w" using split_on_mem [of 58 host 46] by auto
  have "set ?ls = insert (last ?ls) (set (butlast ?ls))"
    using append_butlast_last_id [OF split_on_nonempty, of 46 host]
    by (metis Un_insert_right list.set(1,2) set_append sup_bot.right_neutral)
  then have "\<forall>c \<in> set w. is_alnum c \<or> c = 45"
    using assms w(1) by (auto simp: host_ok_def Let_def list_all_iff)
  with w(2) have "is_alnum 58 \<or> (58 :: byte) = 45" by blast
  then show False by (simp add: is_alnum_def is_digit_def)
qed

lemma match_endpoint_ok:
  assumes "host_ok host" "port_ok port"
  shows "match_endpoint (tcp_scheme @ host @ 58 # port) = Some (host, port)"
proof -
  have "58 \<notin> set port" using assms(2) by (auto simp: port_ok_def list_all_iff is_digit_def)
  then have "split_on 58 (host @ 58 # port) = [host, port]"
    using host_no_colon [OF assms(1)] by (simp add: split_on_append split_on_none)
  with assms show ?thesis by (simp add: match_endpoint_def)
qed

section \<open>The life of a request\<close>

text \<open>A connection the other side has closed keeps the loop reading for ever.\<close>

lemma read_size_result:
  assumes "read_size attempt n = Some r"
  shows "\<exists>m \<ge> n. attempt m = r \<and> r \<noteq> Eof"
proof (rule read_size.raw_induct [where P = "\<lambda>attempt n r. \<exists>m \<ge> n. attempt m = r \<and> r \<noteq> Eof", OF _ assms])
  fix f :: "(nat \<Rightarrow> bytes io) \<Rightarrow> nat \<Rightarrow> bytes io option" and attempt n r
  assume ih: "\<And>attempt n r. f attempt n = Some r \<Longrightarrow> \<exists>m \<ge> n. attempt m = r \<and> r \<noteq> Eof"
    and step: "(case attempt n of Eof \<Rightarrow> f attempt (Suc n) | r \<Rightarrow> Some r) = Some r"
  show "\<exists>m \<ge> n. attempt m = r \<and> r \<noteq> Eof"
  proof (cases "attempt n")
    case Eof
    then have "\<exists>m \<ge> Suc n. attempt m = r \<and> r \<noteq> Eof" using ih step by simp
    then show ?thesis using Suc_leD by blast
  qed (use step in auto)
qed

lemma read_size_closed: "(\<And>n. attempt n = Eof) \<Longrightarrow> read_size attempt k = None"
  using read_size_result [of attempt k] by (cases "read_size attempt k") auto

lemma read_size_after:
  assumes "\<And>i. k \<le> i \<Longrightarrow> i < n \<Longrightarrow> attempt i = Eof" "attempt n \<noteq> Eof" "k \<le> n"
  shows "read_size attempt k = Some (attempt n)"
  using assms
proof (induction "n - k" arbitrary: k)
  case 0
  then have "k = n" by simp
  then show ?case using 0 by (subst read_size.simps) (simp split: io.split)
next
  case (Suc d)
  then have "read_size attempt (Suc k) = Some (attempt n)" by (intro Suc.hyps(1)) auto
  then show ?case using Suc by (subst read_size.simps) simp
qed

text \<open>The reports of a run of the client.\<close>

definition reports :: "asio_rpc_client \<Rightarrow> client_action list" where
  "reports c = filter (\<lambda>a. case a of Response _ _ \<Rightarrow> True | Exception _ \<Rightarrow> True | _ \<Rightarrow> False) (ac_actions c)"

text \<open>
  A request on a new connection, with the outcome of every operation: the steps follow one
  another as the completion handlers do, and a step that fails ends the request.
\<close>

definition run_request ::
  "bool \<Rightarrow> bool \<Rightarrow> bool \<Rightarrow> bool \<Rightarrow> (nat \<Rightarrow> bytes io) \<Rightarrow> bytes io \<Rightarrow> uint \<Rightarrow> bytes \<Rightarrow> asio_rpc_client \<Rightarrow>
   asio_rpc_client res option" where
  "run_request resolve connect write sent attempt body uid message c =
     (case asio_send write uid message c of
        Inl err \<Rightarrow> Some (Inl err)
      | Inr c \<Rightarrow>
          let c = resolved resolve uid c
          in if \<not> resolve then Some (Inr c)
             else case connected connect write uid c of
               Inl err \<Rightarrow> Some (Inl err)
             | Inr c \<Rightarrow>
                 if \<not> connect \<or> \<not> write then Some (Inr c)
                 else case request_sent sent attempt uid c of
                   None \<Rightarrow> None
                 | Some (Inl err) \<Rightarrow> Some (Inl err)
                 | Some (Inr c') \<Rightarrow>
                     if reports c' \<noteq> reports c then Some (Inr c')
                     else Some (Inr (response_read body uid c')))"

lemma reports_act [simp]:
  "reports (act a c) = reports c @ (case a of Response _ _ \<Rightarrow> [a] | Exception _ \<Rightarrow> [a] | _ \<Rightarrow> [])"
  by (cases a) (simp_all add: reports_def act_def)

lemma reports_update [simp]:
  "reports (c\<lparr>ac_is_open := b\<rparr>) = reports c" "reports (c\<lparr>ac_req_map := m\<rparr>) = reports c"
  "reports (c\<lparr>ac_resp_map := m\<rparr>) = reports c"
  by (simp_all add: reports_def)

lemma reports_close [simp]: "reports (client_close c) = reports c"
  by (simp add: client_close_def)

lemma reports_error [simp]: "reports (client_error uid c) = reports c @ [Exception uid]"
  by (simp add: client_error_def)

lemma act_fields [simp]: "ac_is_open (act a c) = ac_is_open c" "ac_req_map (act a c) = ac_req_map c"
  by (simp_all add: act_def)

lemma read_size_ends:
  assumes "attempt k \<noteq> Eof"
  obtains r where "read_size attempt 0 = Some r" "r \<noteq> Eof"
proof -
  define n where "n = (LEAST n. attempt n \<noteq> Eof)"
  have n: "attempt n \<noteq> Eof" unfolding n_def using assms by (rule LeastI)
  have "attempt i = Eof" if "i < n" for i
    using not_less_Least [OF that [unfolded n_def]] by blast
  then have "read_size attempt 0 = Some (attempt n)"
    using n by (intro read_size_after) simp_all
  then show ?thesis using n by (rule that)
qed

text \<open>
  Once the other side answers the size or the connection fails, the request ends, and it has
  been reported once.
\<close>

lemma request_ends:
  assumes "\<not> ac_is_open c" "map_sorted (ac_req_map c)" "attempt k \<noteq> Eof"
    and "\<And>n header. attempt n = Done header \<Longrightarrow> 0 \<le> sint (int_of_bytes header)"
  obtains c' a where "run_request resolve connect write sent attempt body uid message c = Some (Inr c')"
    "reports c' = reports c @ [a]" "a = Exception uid \<or> (\<exists>b. body = Done b \<and> a = Response uid b)"
proof -
  obtain r where r: "read_size attempt 0 = Some r" "r \<noteq> Eof"
    using assms(3) by (rule read_size_ends)
  have size: "0 \<le> sint (int_of_bytes header)" if "r = Done header" for header
    using read_size_result [OF r(1)] assms(4) that by auto
  define c1 where "c1 = query uid (c\<lparr>ac_req_map := map_put uid message (ac_req_map c)\<rparr>)"
  define c2 where "c2 = act (Connect uid) (c1\<lparr>ac_is_open := True\<rparr>)"
  define c3 where "c3 = act (Write_async uid message) (act (Write (int_bytes (of_nat (length message)))) c2)"
  have c1: "asio_send write uid message c = Inr c1" "reports c1 = reports c"
    using assms(1) by (simp_all add: asio_send_def c1_def query_def Let_def)
  have c2: "resolved True uid c1 = c2" "reports c2 = reports c" "map_of (ac_req_map c2) uid = Some message"
    using c1(2) assms(2) by (simp_all add: resolved_def c2_def c1_def query_def)
  have c3: "connected connect write uid c2 =
      Inr (if connect \<and> write then c3 else client_error uid c2)" "reports c3 = reports c"
    using c2 by (simp_all add: connected_def send_message_def c3_def)
  let ?ok = "\<lambda>c'. \<exists>a. reports c' = reports c @ [a] \<and>
      (a = Exception uid \<or> (\<exists>b. body = Done b \<and> a = Response uid b))"
  have read: "?ok (response_read body uid c')" if "reports c' = reports c" for c'
    using that by (cases body) (simp_all add: response_read_def Let_def)
  have "\<exists>c'. run_request resolve connect write sent attempt body uid message c = Some (Inr c') \<and> ?ok c'"
  proof (cases "resolve \<and> connect \<and> write")
    case False
    then show ?thesis
      using c1 c2 c3 by (cases resolve) (simp_all add: run_request_def resolved_def Let_def)
  next
    case True
    then have run: "run_request resolve connect write sent attempt body uid message c =
        (case request_sent sent attempt uid c3 of
           None \<Rightarrow> None | Some (Inl err) \<Rightarrow> Some (Inl err)
         | Some (Inr c') \<Rightarrow>
             if reports c' \<noteq> reports c3 then Some (Inr c') else Some (Inr (response_read body uid c')))"
      using c1 c2 c3 by (simp add: run_request_def Let_def)
    show ?thesis
    proof (cases sent)
      case False
      then show ?thesis using c3(2) unfolding run by (simp add: request_sent_def)
    next
      case True
      then show ?thesis
        using r size c3(2) read unfolding run
        by (cases r) (simp_all add: request_sent_def recv_message_def Let_def not_less)
    qed
  qed
  then show ?thesis using that by blast
qed

end
