(* ===== verification/Text_Format.thy ===== *)
theory Text_Format
  imports Attestation Messages
begin

text \<open>
  Text the program puts together: formatted strings of bounded length (\<^verbatim>\<open>utils/strfmt.hxx\<close>),
  decimal numbers and the names of message types (\<^verbatim>\<open>raft/src/msg_type.cxx\<close>).
\<close>

section \<open>Formatting\<close>

text \<open>\<^verbatim>\<open>%d\<close> and \<^verbatim>\<open>{}\<close> of a number that is not negative.\<close>

fun decimal :: "nat \<Rightarrow> bytes" where
  "decimal n = (if n < 10 then [48 + of_nat n] else decimal (n div 10) @ [48 + of_nat (n mod 10)])"

declare decimal.simps [simp del]

text \<open>\<^verbatim>\<open>strfmt<N>::fmt\<close>: \<^verbatim>\<open>snprintf\<close> into \<^verbatim>\<open>N\<close> bytes cuts the text off before the terminating zero.\<close>

definition strfmt :: "nat \<Rightarrow> bytes \<Rightarrow> bytes" where
  "strfmt n formatted = take (n - 1) formatted"

definition sstrfmt :: "bytes \<Rightarrow> bytes" where
  "sstrfmt = strfmt 100"

section \<open>Names of message types\<close>

fun msg_type_string :: "msg_type \<Rightarrow> bytes" where
  "msg_type_string request_vote_request = ascii ''request_vote_request''"
| "msg_type_string request_vote_response = ascii ''request_vote_response''"
| "msg_type_string append_entries_request = ascii ''append_entries_request''"
| "msg_type_string append_entries_response = ascii ''append_entries_response''"
| "msg_type_string client_request = ascii ''client_request''"
| "msg_type_string add_server_request = ascii ''add_server_request''"
| "msg_type_string add_server_response = ascii ''add_server_response''"
| "msg_type_string remove_server_request = ascii ''remove_server_request''"
| "msg_type_string remove_server_response = ascii ''remove_server_response''"
| "msg_type_string sync_log_request = ascii ''sync_log_request''"
| "msg_type_string sync_log_response = ascii ''sync_log_response''"
| "msg_type_string join_cluster_request = ascii ''join_cluster_request''"
| "msg_type_string join_cluster_response = ascii ''join_cluster_response''"
| "msg_type_string leave_cluster_request = ascii ''leave_cluster_request''"
| "msg_type_string leave_cluster_response = ascii ''leave_cluster_response''"
| "msg_type_string install_snapshot_request = ascii ''install_snapshot_request''"
| "msg_type_string install_snapshot_response = ascii ''install_snapshot_response''"
| "msg_type_string (other_type b) = sstrfmt (ascii ''unknown_type_'' @ decimal (unat b))"

section \<open>Reading decimal numbers\<close>

lemma digit: "d < 10 \<Longrightarrow> is_digit (48 + of_nat d :: byte)"
  by (auto simp: is_digit_def word_le_nat_alt unat_word_ariths unat_of_nat take_bit_nat_def)

lemma decimal_digits: "list_all is_digit (decimal n)"
proof (induction n rule: decimal.induct)
  case (1 n)
  then show ?case using digit [of n] digit [of "n mod 10"] by (cases "n < 10") (simp_all add: decimal.simps [of n])
qed

lemma decimal_nonempty: "decimal n \<noteq> []"
  by (subst decimal.simps) simp

lemma decimal_value: "foldl (\<lambda>n c. 10 * n + unat (c - 48)) 0 (decimal n) = n"
proof (induction n rule: decimal.induct)
  case (1 n)
  have "unat (of_nat d :: byte) = d" if "d < 10" for d
    using that by (simp add: unat_of_nat take_bit_nat_eq_self)
  then show ?case using 1 by (cases "n < 10") (simp_all add: decimal.simps [of n])
qed

lemma length_decimal: "n < 10 ^ k \<Longrightarrow> 0 < k \<Longrightarrow> length (decimal n) \<le> k"
proof (induction n arbitrary: k rule: decimal.induct)
  case (1 n)
  show ?case
  proof (cases "n < 10")
    case False
    with 1 obtain j where j: "k = Suc j" "0 < j" by (cases k; cases "k - 1") auto
    then have "n div 10 < 10 ^ j" using 1 by (simp add: less_mult_imp_div_less mult.commute)
    then show ?thesis using 1 False j by (simp add: decimal.simps [of n])
  qed (use 1 in \<open>simp add: decimal.simps [of n]\<close>)
qed

lemma strtoul_decimal:
  assumes "n < 2 ^ 64" "rest = [] \<or> \<not> is_digit (hd rest)"
  shows "strtoul (decimal n @ rest) = of_nat n"
proof -
  obtain c ds where c: "decimal n = c # ds" using decimal_nonempty by (cases "decimal n") auto
  have "is_digit c" using decimal_digits [of n] by (simp add: c)
  then have "\<not> is_space c" "c \<noteq> 45" "c \<noteq> 43"
    by (auto simp: is_digit_def is_space_def word_le_nat_alt)
  moreover have "takeWhile is_digit (decimal n @ rest) = decimal n"
    using decimal_digits [of n] assms(2) by (cases rest) (simp_all add: takeWhile_append list_all_iff)
  ultimately show ?thesis
    using assms(1) decimal_value [of n] by (simp add: strtoul_def c Let_def)
qed

lemma decimal_inject: "decimal m = decimal n \<longleftrightarrow> m = n"
  using decimal_value by metis

end
