(* ===== verification/Client.thy ===== *)
theory Client
  imports Enclave Rpc_Transport Text_Format
begin

text \<open>
  The client program (\<^verbatim>\<open>src/client\<close>): the requests it builds (\<^verbatim>\<open>RequestBuilder\<close>) and the socket it
  sends them over (\<^verbatim>\<open>SocketClient\<close>), a state machine driven by the completion of reads and
  writes. What the base64 encoder and \<^verbatim>\<open>Json::dump\<close> give are arguments.
\<close>

section \<open>Requests\<close>

definition rb_serialize :: "er_message_type \<Rightarrow> bytes \<Rightarrow> bytes" where
  "rb_serialize type payload = type_bytes type @ payload"

text \<open>
  The sum \<^verbatim>\<open>9000 + server_id\<close> is taken in \<^verbatim>\<open>int\<close>, where it does not overflow. The argument
  \<^verbatim>\<open>dump_server\<close> is \<^verbatim>\<open>dump\<close> of the object with this id and endpoint, and \<^verbatim>\<open>dump_array\<close> that of an
  array of strings.
\<close>

definition rb_endpoint :: "ushort \<Rightarrow> bytes" where
  "rb_endpoint sid = ascii ''tcp://127.0.0.1:'' @ decimal (9000 + unat sid)"

definition rb_build_add_server_request :: "(ushort \<Rightarrow> bytes \<Rightarrow> bytes) \<Rightarrow> ushort \<Rightarrow> bytes" where
  "rb_build_add_server_request dump_server sid = dump_server sid (rb_endpoint sid)"

definition rb_add_server :: "(ushort \<Rightarrow> bytes \<Rightarrow> bytes) \<Rightarrow> ushort \<Rightarrow> bytes" where
  "rb_add_server dump_server sid =
     rb_serialize client_add_srv_req (rb_build_add_server_request dump_server sid)"

definition rb_build_append_entries_request ::
  "(bytes \<Rightarrow> cstring) \<Rightarrow> (cstring list \<Rightarrow> bytes) \<Rightarrow> bytes list \<Rightarrow> bytes" where
  "rb_build_append_entries_request base64_encode dump_array logs = dump_array (map base64_encode logs)"

definition rb_append_entries :: "(bytes \<Rightarrow> cstring) \<Rightarrow> (cstring list \<Rightarrow> bytes) \<Rightarrow> bytes \<Rightarrow> bytes" where
  "rb_append_entries base64_encode dump_array message =
     rb_serialize client_append_entries_req
       (rb_build_append_entries_request base64_encode dump_array [message])"

text \<open>The payload of a response shorter than its type field has a negative length.\<close>

definition rb_deserialize :: "library \<Rightarrow> bytes \<Rightarrow> bool res" where
  "rb_deserialize lib buffer =
     (if length buffer < 2 then Inl Undefined_behaviour
      else
        let j = drop 2 buffer
        in if lb_json_parses lib j then Inr (lb_json_int lib j ''success'' \<noteq> 0) else Inl Runtime_error)"

section \<open>The socket\<close>

datatype status_t = CONNECTING | AVAILABLE | BUSY | ERROR

text \<open>How an operation of the socket ended.\<close>

datatype io_error = No_error | Eof_error | Other_error

text \<open>The operation whose completion is awaited.\<close>

datatype pending = Nothing_pending | Write_pending | Header_pending | Body_pending

record socket_client =
  so_open :: bool
  so_size :: uint
  so_req_sbuf :: bytes
  so_resp_sbuf :: bytes
  so_status :: status_t
  so_pending :: pending
  so_written :: bytes
  so_results :: "bool list"

type_synonym 'a socket_op = "(socket_client, 'a) sx"

text \<open>Whether the caller should go on.\<close>

definition so_handle_error :: "io_error \<Rightarrow> bool socket_op" where
  "so_handle_error err =
     (case err of
        No_error \<Rightarrow> throwM Logic_error
      | Eof_error \<Rightarrow> ret True
      | Other_error \<Rightarrow>
          bindM (modM (\<lambda>s. s\<lparr>so_open := False, so_status := ERROR\<rparr>)) (\<lambda>_. ret False))"

definition socket_client_new :: "io_error \<Rightarrow> unit res \<times> socket_client" where
  "socket_client_new err =
     (if err = No_error then modM (\<lambda>s. s\<lparr>so_status := AVAILABLE\<rparr>)
      else bindM (so_handle_error err) (\<lambda>_. ret ()))
     \<lparr>so_open = True, so_size = 0, so_req_sbuf = [], so_resp_sbuf = [], so_status = CONNECTING,
      so_pending = Nothing_pending, so_written = [], so_results = []\<rparr>"

definition so_send :: "bytes \<Rightarrow> unit socket_op" where
  "so_send request =
     bindM (getM so_status) (\<lambda>status.
     if status \<noteq> AVAILABLE then throwM Runtime_error
     else
       modM (\<lambda>s. s\<lparr>so_status := BUSY, so_size := of_nat (length request),
                   so_req_sbuf := so_req_sbuf s @ int_bytes (of_nat (length request)) @ request,
                   so_pending := Write_pending\<rparr>))"

definition receive_header :: "unit socket_op" where
  "receive_header = modM (\<lambda>s. s\<lparr>so_pending := Header_pending\<rparr>)"

definition so_write_done :: "io_error \<Rightarrow> unit socket_op" where
  "so_write_done err =
     bindM (modM (\<lambda>s. s\<lparr>so_pending := Nothing_pending\<rparr>)) (\<lambda>_.
     if err \<noteq> No_error then bindM (so_handle_error err) (\<lambda>_. ret ())
     else
       bindM (modM (\<lambda>s. s\<lparr>so_written := so_written s @ so_req_sbuf s, so_req_sbuf := []\<rparr>)) (\<lambda>_.
       receive_header))"

definition receive_done :: "library \<Rightarrow> unit socket_op" where
  "receive_done lib =
     bindM (getM (\<lambda>s. take (unat (so_size s)) (so_resp_sbuf s))) (\<lambda>response.
     bindM (modM (\<lambda>s. s\<lparr>so_resp_sbuf := drop (unat (so_size s)) (so_resp_sbuf s)\<rparr>)) (\<lambda>_.
     bindM (liftR (rb_deserialize lib response)) (\<lambda>result.
     modM (\<lambda>s. s\<lparr>so_results := so_results s @ [result], so_status := AVAILABLE\<rparr>))))"

definition receive_body :: "library \<Rightarrow> unit socket_op" where
  "receive_body lib =
     bindM (getM (\<lambda>s. length (so_resp_sbuf s) < unat (so_size s))) (\<lambda>incomplete.
     if incomplete then modM (\<lambda>s. s\<lparr>so_pending := Body_pending\<rparr>) else receive_done lib)"

text \<open>\<^verbatim>\<open>in.read\<close> of four bytes into a variable: with fewer there, the others keep their value.\<close>

definition read_u32 :: "uint \<Rightarrow> bytes \<Rightarrow> uint" where
  "read_u32 old buf = int_of_bytes (take 4 buf @ drop (length (take 4 buf)) (int_bytes old))"

text \<open>The completion of a read: the bytes that came, and how it ended.\<close>

definition so_header_done :: "library \<Rightarrow> bytes \<Rightarrow> io_error \<Rightarrow> unit socket_op" where
  "so_header_done lib chunk err =
     bindM (modM (\<lambda>s. s\<lparr>so_pending := Nothing_pending, so_resp_sbuf := so_resp_sbuf s @ chunk\<rparr>)) (\<lambda>_.
     bindM (if err = No_error then ret False else so_handle_error err) (\<lambda>again.
     if again then receive_header
     else
       bindM (modM (\<lambda>s. s\<lparr>so_size := read_u32 (so_size s) (so_resp_sbuf s),
                           so_resp_sbuf := drop 4 (so_resp_sbuf s)\<rparr>)) (\<lambda>_.
       receive_body lib)))"

definition so_body_done :: "library \<Rightarrow> bytes \<Rightarrow> io_error \<Rightarrow> unit socket_op" where
  "so_body_done lib chunk err =
     bindM (modM (\<lambda>s. s\<lparr>so_pending := Nothing_pending, so_resp_sbuf := so_resp_sbuf s @ chunk\<rparr>)) (\<lambda>_.
     bindM (if err = No_error then ret False else so_handle_error err) (\<lambda>_.
     receive_body lib))"

section \<open>A request and its response\<close>

text \<open>The chunks of a response, one read after the other without errors.\<close>

definition read_chunk :: "library \<Rightarrow> bytes \<Rightarrow> unit socket_op" where
  "read_chunk lib chunk =
     bindM (getM so_pending) (\<lambda>p.
     case p of
       Header_pending \<Rightarrow> so_header_done lib chunk No_error
     | Body_pending \<Rightarrow> so_body_done lib chunk No_error
     | _ \<Rightarrow> ret ())"

definition exchange :: "library \<Rightarrow> bytes \<Rightarrow> bytes list \<Rightarrow> unit socket_op" where
  "exchange lib request chunks =
     bindM (so_send request) (\<lambda>_.
     bindM (so_write_done No_error) (\<lambda>_.
     forM chunks (read_chunk lib)))"

definition answered :: "bool \<Rightarrow> socket_client \<Rightarrow> socket_client" where
  "answered b s = s\<lparr>so_resp_sbuf := [], so_pending := Nothing_pending, so_results := so_results s @ [b],
                    so_status := AVAILABLE\<rparr>"

lemma idle_chunks: "so_pending s = Nothing_pending \<Longrightarrow> forM chunks (read_chunk lib) s = (Inr (), s)"
  by (induction chunks) (simp_all add: read_chunk_def run_simps)

lemma receive_done_run:
  assumes "so_resp_sbuf s = response" "unat (so_size s) = length response" "rb_deserialize lib response = Inr b"
    and "so_pending s = Nothing_pending"
  shows "receive_body lib s = (Inr (), answered b s)"
  using assms by (simp add: receive_body_def receive_done_def answered_def run_simps)

lemma body_chunks:
  assumes "so_pending s = Body_pending" "length (so_resp_sbuf s) < unat (so_size s)"
    and "so_resp_sbuf s @ concat chunks = response" "unat (so_size s) = length response"
    and "rb_deserialize lib response = Inr b"
  shows "forM chunks (read_chunk lib) s = (Inr (), answered b s)"
  using assms
proof (induction chunks arbitrary: s)
  case (Cons c cs)
  let ?s = "s\<lparr>so_pending := Nothing_pending, so_resp_sbuf := so_resp_sbuf s @ c\<rparr>"
  have run: "read_chunk lib c s = receive_body lib ?s"
    using Cons.prems(1) by (simp add: read_chunk_def so_body_done_def run_simps)
  show ?case
  proof (cases "length (so_resp_sbuf ?s) < unat (so_size ?s)")
    case True
    then have "receive_body lib ?s = (Inr (), ?s\<lparr>so_pending := Body_pending\<rparr>)"
      by (simp add: receive_body_def run_simps)
    moreover have "forM cs (read_chunk lib) (?s\<lparr>so_pending := Body_pending\<rparr>) =
        (Inr (), answered b (?s\<lparr>so_pending := Body_pending\<rparr>))"
      using Cons.prems True by (intro Cons.IH) simp_all
    ultimately show ?thesis
      using run by (simp add: run_simps answered_def)
  next
    case False
    then have "so_resp_sbuf ?s = response" using Cons.prems(3,4) by (auto simp flip: Cons.prems(3))
    then have "receive_body lib ?s = (Inr (), answered b ?s)"
      using Cons.prems(4,5) by (intro receive_done_run [of _ response]) simp_all
    then show ?thesis
      using run idle_chunks [of "answered b ?s" cs lib] by (simp add: run_simps answered_def)
  qed
qed simp

lemma read_u32_header: "read_u32 old (int_bytes n @ rest) = n"
  by (simp add: read_u32_def)

lemma response_chunks:
  assumes "so_pending s = Header_pending" "so_resp_sbuf s = []" "length response < 2 ^ 32"
    and "4 \<le> length chunk" "chunk @ concat chunks = frame response"
    and "rb_deserialize lib response = Inr b"
  shows "forM (chunk # chunks) (read_chunk lib) s =
    (Inr (), answered b (s\<lparr>so_size := of_nat (length response)\<rparr>))"
proof -
  let ?n = "of_nat (length response) :: uint"
  have n: "unat ?n = length response" using assms(3) by (rule unat_size)
  let ?c = "drop 4 chunk"
  have whole: "chunk @ concat chunks = int_bytes ?n @ response" using assms(3,5) by (simp add: frame_eq)
  have "take 4 chunk = take 4 (chunk @ concat chunks)" using assms(4) by simp
  also have "\<dots> = int_bytes ?n" using whole by simp
  finally have chunk: "chunk = int_bytes ?n @ ?c" using append_take_drop_id [of 4 chunk] by simp
  have "?c @ concat chunks = drop 4 (chunk @ concat chunks)" using assms(4) by simp
  also have "\<dots> = response" using whole by simp
  finally have c: "?c @ concat chunks = response" .
  let ?s = "s\<lparr>so_pending := Nothing_pending, so_size := ?n, so_resp_sbuf := ?c\<rparr>"
  have run: "read_chunk lib chunk s = receive_body lib ?s"
    using assms(1,2) read_u32_header [of _ ?n ?c, folded chunk]
    by (simp add: read_chunk_def so_header_done_def run_simps)
  show ?thesis
  proof (cases "length ?c < length response")
    case True
    then have "receive_body lib ?s = (Inr (), ?s\<lparr>so_pending := Body_pending\<rparr>)"
      using n by (simp add: receive_body_def run_simps)
    moreover have "forM chunks (read_chunk lib) (?s\<lparr>so_pending := Body_pending\<rparr>) =
        (Inr (), answered b (?s\<lparr>so_pending := Body_pending\<rparr>))"
      using True n c assms(6) by (intro body_chunks [of _ _ response]) simp_all
    ultimately show ?thesis using run by (simp add: run_simps answered_def)
  next
    case False
    then have "length (concat chunks) = 0"
      using arg_cong [OF c, of length] by (simp del: length_concat length_0_conv)
    with c have "?c = response" by (simp del: concat_eq_Nil_conv)
    then have "receive_body lib ?s = (Inr (), answered b ?s)"
      using n assms(6) by (intro receive_done_run [of _ response]) simp_all
    then show ?thesis
      using run idle_chunks [of "answered b ?s" chunks lib] by (simp add: run_simps answered_def)
  qed
qed

lemma exchange_run:
  assumes "so_status s = AVAILABLE" "so_req_sbuf s = []" "so_resp_sbuf s = []"
    and "length request < 2 ^ 32" "length response < 2 ^ 32"
    and "4 \<le> length chunk" "chunk @ concat chunks = frame response" "rb_deserialize lib response = Inr b"
  shows "exchange lib request (chunk # chunks) s =
    (Inr (), s\<lparr>so_size := of_nat (length response), so_written := so_written s @ frame request,
               so_pending := Nothing_pending, so_results := so_results s @ [b]\<rparr>)"
proof -
  let ?s = "s\<lparr>so_status := BUSY, so_size := of_nat (length request),
              so_written := so_written s @ frame request, so_req_sbuf := [], so_pending := Header_pending\<rparr>"
  have "exchange lib request (chunk # chunks) s = forM (chunk # chunks) (read_chunk lib) ?s"
    using assms(1,2,4)
    by (simp add: exchange_def so_send_def so_write_done_def receive_header_def run_simps frame_eq)
  also have "\<dots> = (Inr (), answered b (?s\<lparr>so_size := of_nat (length response)\<rparr>))"
    using assms by (intro response_chunks) simp_all
  finally show ?thesis using assms(1-3) by (simp add: answered_def)
qed

section \<open>The endpoint of an added server\<close>

lemma decimal_ok: "port_ok (decimal n)"
  by (simp add: port_ok_def decimal_digits decimal_nonempty)

lemma rb_endpoint_ok: "match_endpoint (rb_endpoint sid) = Some (ascii ''127.0.0.1'', decimal (9000 + unat sid))"
proof -
  have "host_ok (ascii ''127.0.0.1'')" by code_simp
  moreover have "rb_endpoint sid = tcp_scheme @ ascii ''127.0.0.1'' @ 58 # decimal (9000 + unat sid)"
    by (simp add: rb_endpoint_def tcp_scheme_def ascii_def)
  ultimately show ?thesis using decimal_ok by (simp add: match_endpoint_ok)
qed

section \<open>A log from the client to the server\<close>

lemma client_log_run:
  assumes "lb_base64_decode lib item = Some log" "length log + 8 < 2 ^ 31"
  shows "client_log lib item = Inr (fresh_buf (log @ replicate 8 0))"
  using assms
  by (simp add: client_log_def base64_decode_def alloc_def write_bytes_def fresh_buf_def)

lemma append_request_run:
  assumes "lb_json_items lib (dump_array [base64_encode log]) = [base64_encode log]"
    and "lb_base64_decode lib (base64_encode log) = Some log" "length log + 8 < 2 ^ 31"
  shows "ecall_handle_rpc_request lib now answer (rb_append_entries base64_encode dump_array log) e =
    bindM (on_server lib (append_entries now [fresh_buf (log @ replicate 8 0)])) (\<lambda>a_result.
    keep_response (Some (client_response lib client_append_entries_resp (await answer a_result)))) e"
proof -
  have "read_type (type_bytes client_append_entries_req @ p) = Inr client_append_entries_req" for p
    by (rule read_type_bytes) (simp add: er_types_def)
  then show ?thesis
    using client_log_run [OF assms(2,3)] assms(1)
    by (simp add: ecall_handle_rpc_request_def rb_append_entries_def rb_serialize_def
        rb_build_append_entries_request_def handle_client_request_def bindM_assoc run_simps
        type_bytes_def split: prod.split sum.split)
qed

end
