(* ===== verification/Remote_Call.thy ===== *)
theory Remote_Call
  imports Enclave Session
begin

text \<open>
  A call from one enclave to another, through everything between the two servers: the request
  is encoded, encrypted and numbered by the client port, sent over a connection, taken apart
  by a session in whatever chunks it arrives, decrypted, decoded and handled; the response
  takes the same way back to the callback stored for the call.
\<close>

section \<open>Requests at the listener\<close>

definition message_handler :: "library \<Rightarrow> time_point \<Rightarrow> bool \<Rightarrow> bytes \<Rightarrow> bytes option enclave_op" where
  "message_handler lib now answer message =
     bindM (ecall_handle_rpc_request lib now answer message) (\<lambda>(resp_len, uid).
     if sint resp_len < 1 then ret None
     else
       bindM (ecall_fetch_rpc_response uid (replicate (int32_to_size resp_len) 0)) (\<lambda>(fetched, buffer).
       ret (if fetched then Some buffer else None)))"

text \<open>The handler of a session; an enclave that does not return gives it no response.\<close>

definition enclave_handler :: "library \<Rightarrow> time_point \<Rightarrow> bool \<Rightarrow> enclave request_handler" where
  "enclave_handler lib now answer message e =
     (case message_handler lib now answer message e of
        (Inr response, e') \<Rightarrow> (response, e')
      | (Inl _, e') \<Rightarrow> (None, e'))"

section \<open>What calls of the server leave alone\<close>

definition port_view ::
  "enclave \<Rightarrow> uint \<times> (uint \<times> bytes) list \<times> (nat \<Rightarrow> bytes option) \<times> key_store option" where
  "port_view e = (en_id_counter e, en_response_buffer e, en_rand e, en_key_store e)"

lemma port_ocall: "keeps (same port_view) (ocall c)"
  by (simp add: keeps_def ocall_def modM_def port_view_def)

lemma port_client_send: "keeps (same port_view) (client_send lib c req cb)"
  unfolding client_send_def encrypt_def draw_def next_req_uid_def raw_send_def
  by (intro unchanged.keeps_intros port_ocall; simp add: keeps_def modM_def port_view_def)

lemma port_perform: "keeps (same port_view) (perform lib x)"
  by (cases x) (auto intro!: unchanged.keeps_intros port_client_send port_ocall)

lemma port_on_server: "keeps (same port_view) (on_server lib m)"
  unfolding on_server_def
  by (intro unchanged.keeps_intros port_perform keeps_modM) (simp add: port_view_def)

section \<open>Encryption inside an operation\<close>

text \<open>The random source delivers vectors of the right size.\<close>

definition rand_ok :: "enclave \<Rightarrow> bool" where
  "rand_ok e \<longleftrightarrow> (\<forall>n. \<exists>iv. en_rand e n = Some iv \<and> length iv = S_BLOCK_SIZE)"

lemma encrypt_run:
  assumes "ctr_cipher (lb_cipher lib)" "rand_ok e"
  obtains out where "encrypt lib data e = (Inr out, e\<lparr>en_draws := en_draws e + 1\<rparr>)"
    "length out = S_BLOCK_SIZE + length data" "raft_decrypt (lb_cipher lib) out = Inr data"
proof -
  obtain iv where iv: "en_rand e (en_draws e) = Some iv" "length iv = S_BLOCK_SIZE"
    using assms(2) by (auto simp: rand_ok_def)
  obtain out where "raft_encrypt (lb_cipher lib) (Some iv) data = Inr out"
    "length out = S_BLOCK_SIZE + length data" "raft_decrypt (lb_cipher lib) out = Inr data"
    by (rule raft_crypt_round [OF assms(1) iv(2)])
  then show ?thesis
    by (intro that) (simp_all add: encrypt_def draw_def run_simps iv)
qed

section \<open>The client's side\<close>

lemma client_send_run:
  assumes "ctr_cipher (lb_cipher lib)" "rand_ok e" "req_ok req"
  obtains out where
    "client_send lib client req when_done e =
       (Inr (), e\<lparr>en_draws := en_draws e + 1, en_last_req_uid := en_last_req_uid e + 1,
          en_callback_pool := map_put (ucast (en_last_req_uid e + 1)) (req, when_done) (en_callback_pool e),
          en_out := en_out e @ [Send_rpc_request client (type_bytes raft_message @ out) (en_last_req_uid e + 1)]\<rparr>)"
    "raft_decrypt (lb_cipher lib) out = Inr (req_header_bytes req @ req_body_bytes req)"
    "length out = S_BLOCK_SIZE + RPC_REQ_HEADER_SIZE + length (req_body_bytes req)"
proof -
  let ?data = "req_header_bytes req @ req_body_bytes req"
  obtain out where out: "encrypt lib ?data e = (Inr out, e\<lparr>en_draws := en_draws e + 1\<rparr>)"
    "length out = S_BLOCK_SIZE + length ?data" "raft_decrypt (lb_cipher lib) out = Inr ?data"
    by (rule encrypt_run [OF assms(1,2)])
  have "client_send lib client req when_done e =
      bindM (encrypt lib ?data) (\<lambda>message_buffer.
      bindM next_req_uid (\<lambda>uid.
      bindM (modM (\<lambda>e. e\<lparr>en_callback_pool := map_put (ucast uid) (req, when_done) (en_callback_pool e)\<rparr>)) (\<lambda>_.
      raw_send client raft_message message_buffer uid))) e"
    using serialize_req_eq [OF assms(3)] by (simp add: client_send_def run_simps)
  then show ?thesis
    using out by (intro that [of out])
      (simp_all add: bindM_run [of "encrypt lib ?data" e, OF out(1)] next_req_uid_def raw_send_def ocall_def run_simps)
qed

section \<open>The listener's side\<close>

lemma deserialize_req_fresh: "deserialize_req b l = deserialize_req (fresh_buf (bdata b)) l"
  by (simp add: deserialize_req_def set_pos_0)

lemma split_raft_request_eq:
  assumes "req_ok r"
  obtains header where
    "split_raft_request (req_header_bytes r @ req_body_bytes r) = Inr (header, fresh_buf (req_body_bytes r))"
    "bdata header = req_header_bytes r"
proof -
  let ?n = "of_nat (length (req_body_bytes r)) :: int32"
  define pre where "pre = take 41 (req_header_bytes r)"
  have hdr: "req_header_bytes r = pre @ int_bytes ?n" and pre: "length pre = 41"
    by (simp_all add: pre_def req_header_bytes_def req_body_bytes_def)
  have len: "length (req_body_bytes r) < 2 ^ 31"
    using assms by (simp add: req_ok_def)
  then have n: "int32_to_size ?n = length (req_body_bytes r)"
    by (rule int32_to_size_of_nat)
  have pos: "set_pos 41 (fresh_buf (pre @ int_bytes ?n)) = cursor pre (int_bytes ?n)"
    using pre by (simp add: set_pos_def cursor_def fresh_buf_def bsize_def)
  show ?thesis
    by (rule that [of "cursor (pre @ int_bytes ?n) []"])
       (use len pre n pos in \<open>simp_all add: split_raft_request_def RPC_REQ_HEADER_SIZE_def hdr
          cursor_simps memcpy_s_whole Let_def\<close>)
qed

lemma answer_raft_request_run:
  assumes "ctr_cipher (lb_cipher lib)" "rand_ok e" "req_ok req" "bdata header = req_header_bytes req"
    and "on_server lib (process_req now req) e = (Inr resp, e')"
  obtains out where
    "answer_raft_request lib now header (fresh_buf (req_body_bytes req)) e =
       (Inr (Some (type_bytes raft_message @ out)), e'\<lparr>en_draws := en_draws e' + 1\<rparr>)"
    "raft_decrypt (lb_cipher lib) out = Inr (resp_bytes resp)"
    "length out = S_BLOCK_SIZE + RPC_RESP_HEADER_SIZE"
proof -
  have "port_view e' = port_view e"
    using sameD [OF port_on_server, of lib "process_req now req" e] assms(5) by simp
  then have "rand_ok e'" using assms(2) by (simp add: rand_ok_def port_view_def)
  then obtain out where out: "encrypt lib (resp_bytes resp) e' = (Inr out, e'\<lparr>en_draws := en_draws e' + 1\<rparr>)"
    "length out = S_BLOCK_SIZE + length (resp_bytes resp)"
    "raft_decrypt (lb_cipher lib) out = Inr (resp_bytes resp)"
    by (rule encrypt_run [OF assms(1)])
  have "deserialize_req header (Some (fresh_buf (req_body_bytes req))) = Inr req"
    using deserialize_req_eq [OF assms(3)] deserialize_req_fresh [of header] assms(4) by simp
  then have "answer_raft_request lib now header (fresh_buf (req_body_bytes req)) e =
      bindM (on_server lib (process_req now req)) (\<lambda>resp.
      bindM (liftR (serialize_resp resp)) (\<lambda>resp_buf.
      bindM (encrypt lib (bdata resp_buf)) (\<lambda>message_buffer.
      ret (Some (type_bytes raft_message @ message_buffer))))) e"
    by (simp add: answer_raft_request_def run_simps)
  also have "\<dots> = bindM (encrypt lib (resp_bytes resp)) (\<lambda>message_buffer.
      ret (Some (type_bytes raft_message @ message_buffer))) e'"
    by (simp only: bindM_run [of "on_server lib (process_req now req)" e, OF assms(5)])
       (simp add: serialize_resp_eq run_simps)
  finally show ?thesis
    using out by (intro that [of out])
      (simp_all add: bindM_run [of "encrypt lib (resp_bytes resp)" e', OF out(1)] run_simps)
qed

text \<open>What the listener keeps, and hands out again.\<close>

definition kept :: "bytes \<Rightarrow> enclave \<Rightarrow> enclave" where
  "kept resp e = e\<lparr>en_id_counter := en_id_counter e + 1,
                   en_response_buffer := umap_insert (en_id_counter e + 1) resp (en_response_buffer e)\<rparr>"

lemma keep_response_run:
  "keep_response (Some resp) e = (Inr (of_nat (length resp), en_id_counter e + 1), kept resp e)"
  by (simp add: keep_response_def kept_def run_simps)

lemma fetch_kept:
  assumes "map_of (en_response_buffer e) (en_id_counter e + 1) = None" "n = length resp"
  shows "ecall_fetch_rpc_response (en_id_counter e + 1) (replicate n 0) (kept resp e) =
    (Inr (True, resp), kept resp e)"
  using assms
  by (simp add: ecall_fetch_rpc_response_def kept_def run_simps find_umap_insert memcpy_s_whole)

lemma message_handler_run:
  assumes "ctr_cipher (lb_cipher lib)" "rand_ok e" "req_ok req"
    and "raft_decrypt (lb_cipher lib) out = Inr (req_header_bytes req @ req_body_bytes req)"
    and "on_server lib (process_req now req) e = (Inr resp, e')"
    and "map_of (en_response_buffer e) (en_id_counter e + 1) = None"
  obtains reply where
    "message_handler lib now answer (type_bytes raft_message @ out) e =
       (Inr (Some (type_bytes raft_message @ reply)),
        kept (type_bytes raft_message @ reply) (e'\<lparr>en_draws := en_draws e' + 1\<rparr>))"
    "raft_decrypt (lb_cipher lib) reply = Inr (resp_bytes resp)"
    "length reply = S_BLOCK_SIZE + RPC_RESP_HEADER_SIZE"
proof -
  obtain header where header: "split_raft_request (req_header_bytes req @ req_body_bytes req) =
      Inr (header, fresh_buf (req_body_bytes req))" "bdata header = req_header_bytes req"
    by (rule split_raft_request_eq [OF assms(3)])
  obtain reply where reply: "answer_raft_request lib now header (fresh_buf (req_body_bytes req)) e =
       (Inr (Some (type_bytes raft_message @ reply)), e'\<lparr>en_draws := en_draws e' + 1\<rparr>)"
    "raft_decrypt (lb_cipher lib) reply = Inr (resp_bytes resp)"
    "length reply = S_BLOCK_SIZE + RPC_RESP_HEADER_SIZE"
    by (rule answer_raft_request_run [OF assms(1-3) header(2) assms(5)])
  let ?e = "e'\<lparr>en_draws := en_draws e' + 1\<rparr>" and ?msg = "type_bytes raft_message @ reply"
  have "handle_raft_message lib now out e = (Inr (Some ?msg), ?e)"
    using reply(1) by (simp add: handle_raft_message_def run_simps assms(4) header(1) catchM_def)
  moreover have "port_view e' = port_view e"
    using sameD [OF port_on_server, of lib "process_req now req" e] assms(5) by simp
  then have free: "map_of (en_response_buffer ?e) (en_id_counter ?e + 1) = None"
    using assms(6) by (simp add: port_view_def)
  moreover have type: "read_type (type_bytes raft_message @ out) = Inr raft_message"
    by (rule read_type_bytes) (simp add: er_types_def)
  ultimately have handled: "ecall_handle_rpc_request lib now answer (type_bytes raft_message @ out) e =
      (Inr (of_nat (length ?msg), en_id_counter ?e + 1), kept ?msg ?e)"
    by (simp add: ecall_handle_rpc_request_def run_simps keep_response_run type_bytes_def)
  have len: "length ?msg = 44"
    using reply(3) by (simp add: type_bytes_def S_BLOCK_SIZE_def RPC_RESP_HEADER_SIZE_def)
  have "int32_to_size (of_nat 44) = 44" by (rule int32_to_size_of_nat) simp
  then have "message_handler lib now answer (type_bytes raft_message @ out) e = (Inr (Some ?msg), kept ?msg ?e)"
    using handled [unfolded len] fetch_kept [OF free, of 44 ?msg] len
    by (simp add: message_handler_def run_simps)
  then show ?thesis using reply(2,3) by (rule that)
qed

section \<open>The way back\<close>

lemma rpc_response_run:
  assumes "raft_decrypt (lb_cipher lib) reply = Inr (resp_bytes resp)" "msg_type_ok (rs_type resp)"
    and "map_of (en_callback_pool e) (ucast uid) = Some (req, when_done)"
  shows "ecall_rpc_response lib now uid (type_bytes raft_message @ reply) None e =
    run_callback lib now req when_done resp
      (e\<lparr>en_callback_pool := map_erase (ucast uid) (en_callback_pool e)\<rparr>)"
proof -
  have "read_type (type_bytes raft_message @ reply) = Inr raft_message"
    by (rule read_type_bytes) (simp add: er_types_def)
  then show ?thesis
    using assms
    by (simp add: ecall_rpc_response_def run_simps handle_raft_response_def type_bytes_def
        alloc_def RPC_RESP_HEADER_SIZE_def memcpy_s_whole deserialize_resp_eq)
qed

end
