(* ===== verification/Replication.thy ===== *)
theory Replication
  imports Voting
begin

text \<open>
  What an append request does to the log of a follower: the entries it has already, by index
  and term, are kept, and from the first difference on the log is replaced by the entries of
  the request.
\<close>

section \<open>Merging entries into a log\<close>

fun merge_entries :: "log_entry list \<Rightarrow> log_entry list \<Rightarrow> log_entry list" where
  "merge_entries old [] = old"
| "merge_entries [] new = new"
| "merge_entries (d # old) (e # new) =
     (if le_term d = le_term e then d # merge_entries old new else e # new)"

fun match_length :: "log_entry list \<Rightarrow> log_entry list \<Rightarrow> nat" where
  "match_length (d # old) (e # new) =
     (if le_term d = le_term e then Suc (match_length old new) else 0)"
| "match_length _ _ = 0"

lemma match_length_le: "match_length old new \<le> length old" "match_length old new \<le> length new"
  by (induction old new rule: match_length.induct) auto

lemma merge_entries_match:
  "merge_entries old new =
     (if match_length old new = length new then old
      else take (match_length old new) old @ drop (match_length old new) new)"
  by (induction old new rule: merge_entries.induct) auto

lemma merge_entries_terms: "map le_term (take (length new) (merge_entries old new)) = map le_term new"
  by (induction old new rule: merge_entries.induct) auto

lemma merge_entries_prefix: "match_length old new = length new \<Longrightarrow> merge_entries old new = old"
  by (simp add: merge_entries_match)

section \<open>The state machine and the log\<close>

text \<open>An entry the state machine can print: an application entry carries a message.\<close>

definition sayable :: "log_entry \<Rightarrow> bool" where
  "sayable e \<longleftrightarrow> stored_entry e \<and>
     (le_val_type e = app_log \<longrightarrow> (\<exists>b m. get_buf e = Inr b \<and> get_string b = Inr m))"

lemma sayable_stored: "sayable e \<Longrightarrow> stored_entry e"
  by (simp add: sayable_def)

text \<open>
  The state \<open>t\<close> is \<open>s\<close> with the entries \<open>es\<close> in the log. The state machine may have printed
  something and a change of configuration may have been noted or withdrawn.
\<close>

definition stores :: "raft_server \<Rightarrow> log_entry list \<Rightarrow> raft_server \<Rightarrow> bool" where
  "stores s es t \<longleftrightarrow>
     (\<exists>l m b. t = s\<lparr>sv_log_store := l, sv_state_machine := m, sv_config_changing := b\<rparr> \<and>
        log_inv l \<and> log_start l = log_start (sv_log_store s) \<and> log_list l = es \<and>
        em_last_snapshot m = em_last_snapshot (sv_state_machine s) \<and>
        em_last_committed_idx m = em_last_committed_idx (sv_state_machine s))"

lemma stores_refl: "log_inv (sv_log_store s) \<Longrightarrow> stores s (log_list (sv_log_store s)) s"
  unfolding stores_def
  by (rule exI [of _ "sv_log_store s"], rule exI [of _ "sv_state_machine s"],
      rule exI [of _ "sv_config_changing s"]) simp

lemma stores_trans: "stores s es t \<Longrightarrow> stores t es' u \<Longrightarrow> stores s es' u"
  unfolding stores_def
  apply (elim exE conjE)
  subgoal for l l' m m' b b' by (rule exI [of _ l'], rule exI [of _ m'], rule exI [of _ b']) simp
  done

lemma stores_log:
  "stores s es t \<Longrightarrow> log_inv (sv_log_store t)"
  "stores s es t \<Longrightarrow> log_start (sv_log_store t) = log_start (sv_log_store s)"
  "stores s es t \<Longrightarrow> log_list (sv_log_store t) = es"
  by (auto simp: stores_def)

lemma storesI:
  assumes "log_inv l" "log_start l = log_start (sv_log_store s)" "log_list l = es"
    and "em_last_snapshot m = em_last_snapshot (sv_state_machine s)"
    and "em_last_committed_idx m = em_last_committed_idx (sv_state_machine s)"
  shows "stores s es (s\<lparr>sv_log_store := l, sv_state_machine := m, sv_config_changing := b\<rparr>)"
  using assms unfolding stores_def by blast

lemma pre_commit_entry_run:
  assumes "sayable e" "log_inv (sv_log_store s)"
  shows "\<exists>t. pre_commit_entry i e s = (Inr (), t) \<and> stores s (log_list (sv_log_store s)) t"
proof (cases "le_val_type e = app_log")
  case True
  then obtain b m c where "get_buf e = Inr b" "get_string b = Inr (m, c)"
    using assms by (auto simp: sayable_def)
  with True assms(2) show ?thesis
    using storesI [of "sv_log_store s" s _ "(sv_state_machine s)\<lparr>em_trace := em_trace (sv_state_machine s) @ [Pre_commit i (take 64 m)]\<rparr>" "sv_config_changing s"]
    by (simp add: pre_commit_entry_def on_machine_def sm_pre_commit_def sm_print_def run_simps)
next
  case False
  then show ?thesis
    using assms(2) storesI [of "sv_log_store s" s _ "sv_state_machine s"] stores_refl [of s]
    by (simp add: pre_commit_entry_def set_config_changing_def run_simps)
qed

lemma rollback_run:
  assumes "sayable e" "log_inv (sv_log_store s)"
  shows "\<exists>t. (if le_val_type e = app_log then
          bindM (liftR (get_buf e)) (\<lambda>buf. on_machine (sm_rollback i buf))
        else if le_val_type e = conf then set_config_changing False
        else ret ()) s = (Inr (), t) \<and> stores s (log_list (sv_log_store s)) t"
proof (cases "le_val_type e = app_log")
  case True
  then obtain b m c where "get_buf e = Inr b" "get_string b = Inr (m, c)"
    using assms by (auto simp: sayable_def)
  with True assms(2) show ?thesis
    using storesI [of "sv_log_store s" s _ "(sv_state_machine s)\<lparr>em_trace := em_trace (sv_state_machine s) @ [Rollback i m]\<rparr>" "sv_config_changing s"]
    by (simp add: on_machine_def sm_rollback_def sm_print_def run_simps)
next
  case False
  then show ?thesis
    using assms(2) storesI [of "sv_log_store s" s _ "sv_state_machine s"] stores_refl [of s]
    by (simp add: set_config_changing_def run_simps)
qed

lemma stores_log_store:
  assumes "log_inv l" "log_start l = log_start (sv_log_store s)" "log_list l = es"
  shows "stores s es (s\<lparr>sv_log_store := l\<rparr>)"
  using storesI [OF assms, of "sv_state_machine s" "sv_config_changing s"] by simp

lemma append_entry_run:
  assumes "log_inv (sv_log_store s)" "sayable e"
    and "Suc (log_next (sv_log_store s)) < 2 ^ 64"
  shows "\<exists>t. append_entry e s = (Inr (), t) \<and> stores s (log_list (sv_log_store s) @ [e]) t"
proof -
  have "make_clone e = Inr e" using assms(2) by (simp add: sayable_def)
  then obtain l where l: "append_log e (sv_log_store s) = (Inr (sv_next_slot s), l)" "log_inv l"
    "log_start l = log_start (sv_log_store s)" "log_list l = log_list (sv_log_store s) @ [e]"
    using in_memory.append_law [OF assms(1)] assms(3) by (auto simp: log_next_def)
  obtain t where t: "pre_commit_entry (sv_next_slot s) e (s\<lparr>sv_log_store := l\<rparr>) = (Inr (), t)"
    "stores (s\<lparr>sv_log_store := l\<rparr>) (log_list l) t"
    using pre_commit_entry_run [OF assms(2), of "s\<lparr>sv_log_store := l\<rparr>"] l(2) by auto
  have "stores s (log_list l) t"
    using stores_trans [OF stores_log_store [OF l(2,3) refl] t(2)] .
  then show ?thesis
    using l t(1) by (simp add: append_entry_def on_log_def run_simps)
qed

lemma append_entries_run:
  assumes "log_inv (sv_log_store s)" "list_all sayable es"
    and "log_next (sv_log_store s) + length es < 2 ^ 64"
  shows "\<exists>t. forM es append_entry s = (Inr (), t) \<and> stores s (log_list (sv_log_store s) @ es) t"
  using assms
proof (induction es arbitrary: s)
  case Nil
  then show ?case by (simp add: run_simps stores_refl)
next
  case (Cons e es)
  obtain t where t: "append_entry e s = (Inr (), t)" "stores s (log_list (sv_log_store s) @ [e]) t"
    using append_entry_run [of s e] Cons.prems by auto
  note log = stores_log [OF t(2)]
  obtain u where "forM es append_entry t = (Inr (), u)" "stores t (log_list (sv_log_store s) @ e # es) u"
    using Cons.IH [of t] Cons.prems log by (auto simp: log_next_def)
  with t show ?case
    by (auto simp: run_simps intro: stores_trans)
qed

lemma entry_at_log:
  assumes "log_inv l" "log_start l \<le> unat i" "unat i < log_next l"
  shows "entry_at i l = Inr (log_list l ! (unat i - log_start l))"
  using assms by (elim log_invE) (simp add: entry_at_rep log_next_def)

lemma term_at_log:
  assumes "log_inv l" "log_start l \<le> unat i" "unat i < log_next l"
  shows "term_at i l = Inr (le_term (log_list l ! (unat i - log_start l)))"
  using assms by (elim log_invE) (simp add: term_at_rep log_next_def)

lemma overwrite_entry_run:
  assumes inv: "log_inv (sv_log_store s)" and e: "sayable e" and old: "list_all sayable (log_list (sv_log_store s))"
    and i: "log_start (sv_log_store s) \<le> unat i" "unat i < log_next (sv_log_store s)"
    and room: "Suc (unat i) < 2 ^ 64"
  shows "\<exists>t. overwrite_entry i e s = (Inr (), t) \<and>
     stores s (take (unat i - log_start (sv_log_store s)) (log_list (sv_log_store s)) @ [e]) t"
proof -
  let ?l = "sv_log_store s"
  let ?d = "log_list ?l ! (unat i - log_start ?l)"
  have "unat i - log_start ?l < length (log_list ?l)"
    using i by (simp add: log_next_def less_diff_conv2)
  then have d: "entry_at i ?l = Inr ?d" "sayable ?d"
    using entry_at_log [OF inv i] old by (auto simp: list_all_length)
  obtain t1 where t1: "(if le_val_type ?d = app_log then
          bindM (liftR (get_buf ?d)) (\<lambda>buf. on_machine (sm_rollback i buf))
        else if le_val_type ?d = conf then set_config_changing False
        else ret ()) s = (Inr (), t1)" "stores s (log_list ?l) t1"
    using rollback_run [OF d(2) inv, of i] by blast
  note log1 = stores_log [OF t1(2)]
  have "make_clone e = Inr e" using e by (simp add: sayable_def)
  then obtain l where l: "write_at i e (sv_log_store t1) = (Inr (), l)" "log_inv l" "log_start l = log_start ?l"
    "log_list l = take (unat i - log_start ?l) (log_list ?l) @ [e]"
    using in_memory.overwrite_law [OF log1(1), of e e i] i room log1 by (auto simp: log_next_def)
  obtain t where t: "pre_commit_entry i e (t1\<lparr>sv_log_store := l\<rparr>) = (Inr (), t)"
    "stores (t1\<lparr>sv_log_store := l\<rparr>) (log_list l) t"
    using pre_commit_entry_run [OF e, of "t1\<lparr>sv_log_store := l\<rparr>" i] l(2) by auto
  have "stores t1 (log_list l) (t1\<lparr>sv_log_store := l\<rparr>)"
    using l log1 by (intro stores_log_store) simp_all
  then have "stores s (log_list l) t"
    using stores_trans t1(2) t(2) by blast
  have "read_log (entry_at i) s = (Inr ?d, s)"
    using d by (simp add: read_log_def run_simps)
  moreover have "on_log (write_at i e) t1 = (Inr (), t1\<lparr>sv_log_store := l\<rparr>)"
    using l(1) by (simp add: on_log_def run_simps)
  ultimately have "overwrite_entry i e s = (Inr (), t)"
    unfolding overwrite_entry_def blockM.simps
    using t1(1) t(1) by (simp add: run_bindM run_ret del: if_split)
  with \<open>stores s (log_list l) t\<close> l(4) show ?thesis by auto
qed

section \<open>The loops of the handler\<close>

lemma skip_matching_run:
  assumes "log_inv l" "log_start l \<le> unat i" "unat i \<le> log_next l" "log_next l + length es < 2 ^ 64"
  shows "skip_matching l es i =
    (let n = match_length (drop (unat i - log_start l) (log_list l)) es in Inr (i + of_nat n, drop n es))"
  using assms(2-)
proof (induction es arbitrary: i)
  case Nil
  then show ?case by simp
next
  case (Cons e es)
  have slot: "unat (next_slot l) = log_next l"
    using in_memory.unat_slot [OF assms(1)] by (simp add: log_next_def)
  show ?case
  proof (cases "unat i < log_next l")
    case True
    then have n: "unat i - log_start l < length (log_list l)"
      using Cons.prems by (simp add: log_next_def less_diff_conv2)
    have suc: "unat (i + 1) = Suc (unat i)"
      using True Cons.prems unat_of_nat_ulong [of "Suc (unat i)"] by (simp add: add.commute)
    have drop: "drop (unat i - log_start l) (log_list l) =
        log_list l ! (unat i - log_start l) # drop (unat (i + 1) - log_start l) (log_list l)"
      using n Cons.prems by (simp add: suc Cons_nth_drop_Suc Suc_diff_le)
    have "i < next_slot l" using True by (simp add: word_less_nat_alt slot)
    then show ?thesis
      using Cons.IH [of "i + 1"] Cons.prems True suc
      by (simp add: drop term_at_log [OF assms(1) _ True] Let_def add.assoc)
  next
    case False
    then have "\<not> i < next_slot l" "drop (unat i - log_start l) (log_list l) = []"
      using Cons.prems by (simp_all add: word_less_nat_alt slot log_next_def)
    then show ?thesis by simp
  qed
qed

lemma overwrite_entries_run:
  assumes inv: "log_inv (sv_log_store s)" and es: "list_all sayable es"
    and old: "list_all sayable (log_list (sv_log_store s))"
    and i: "log_start (sv_log_store s) \<le> unat i" "unat i \<le> log_next (sv_log_store s)"
    and room: "log_next (sv_log_store s) + length es < 2 ^ 64"
  shows "\<exists>t rest. overwrite_entries es i s = (Inr rest, t) \<and>
     (\<exists>log. stores s log t \<and> list_all sayable rest \<and> log_start (sv_log_store s) + length log + length rest < 2 ^ 64 \<and>
       log @ rest = (if es = [] then log_list (sv_log_store s)
          else take (unat i - log_start (sv_log_store s)) (log_list (sv_log_store s)) @ es))"
proof (cases es)
  case Nil
  then show ?thesis
    using stores_refl [OF inv] room by (auto simp: run_simps log_next_def)
next
  case (Cons e es')
  let ?l = "sv_log_store s"
  have slot: "log_inv l \<Longrightarrow> unat (next_slot l) = log_start l + length (log_list l)" for l
    by (rule in_memory.unat_slot)
  show ?thesis
  proof (cases "unat i < log_next ?l")
    case True
    have room_i: "Suc (unat i) < 2 ^ 64" using True room Cons by simp
    obtain t where t: "overwrite_entry i e s = (Inr (), t)"
      "stores s (take (unat i - log_start ?l) (log_list ?l) @ [e]) t"
      using overwrite_entry_run [OF inv _ old i(1) True room_i, of e] es Cons by auto
    have suc: "unat (i + 1) = Suc (unat i)"
      using room_i unat_of_nat_ulong [of "Suc (unat i)"] by (simp add: add.commute)
    have "unat (sv_next_slot t) = Suc (unat i)"
      using slot [OF stores_log(1) [OF t(2)]] stores_log [OF t(2)] i by (simp add: log_next_def)
    then have "overwrite_entries es' (i + 1) t = (Inr es', t)"
      by (cases es') (simp_all add: run_simps word_less_nat_alt suc)
    moreover have "i < sv_next_slot s" using True slot [OF inv] by (simp add: word_less_nat_alt log_next_def)
    ultimately have "overwrite_entries es i s = (Inr es', t)"
      using t(1) Cons by (simp add: run_simps)
    then show ?thesis
      using t(2) es Cons room i True
      by (intro exI [of _ t] exI [of _ es'] conjI exI [of _ "take (unat i - log_start ?l) (log_list ?l) @ [e]"])
         (simp_all add: log_next_def)
  next
    case False
    then have "overwrite_entries es i s = (Inr es, s)"
      using Cons slot [OF inv] by (simp add: run_simps word_less_nat_alt log_next_def)
    then show ?thesis
      using stores_refl [OF inv] False Cons es room i
      by (intro exI [of _ s] exI [of _ es] conjI exI [of _ "log_list ?l"]) (simp_all add: log_next_def)
  qed
qed

text \<open>The log after an append request that was accepted.\<close>

definition merged_log :: "log_store \<Rightarrow> ulong \<Rightarrow> log_entry list \<Rightarrow> log_entry list" where
  "merged_log l p es =
     (let n = Suc (unat p) - log_start l in take n (log_list l) @ merge_entries (drop n (log_list l)) es)"

lemma store_entries_run:
  assumes inv: "log_inv (sv_log_store s)" and es: "list_all sayable es"
    and old: "list_all sayable (log_list (sv_log_store s))"
    and p: "log_start (sv_log_store s) \<le> Suc (unat p)" "unat p < log_next (sv_log_store s)"
    and room: "log_next (sv_log_store s) + length es < 2 ^ 64"
  shows "\<exists>t. store_entries p es s = (Inr (), t) \<and> stores s (merged_log (sv_log_store s) p es) t"
proof -
  let ?l = "sv_log_store s"
  let ?k = "Suc (unat p) - log_start ?l"
  let ?n = "match_length (drop ?k (log_list ?l)) es"
  have suc: "unat (p + 1) = Suc (unat p)"
    using p room unat_of_nat_ulong [of "Suc (unat p)"] by (simp add: add.commute)
  have n: "?n \<le> length (log_list ?l) - ?k" "?n \<le> length es"
    using match_length_le [of "drop ?k (log_list ?l)" es] by simp_all
  have skip: "skip_matching ?l es (p + 1) = Inr (p + 1 + of_nat ?n, drop ?n es)"
    using skip_matching_run [OF inv, of "p + 1" es] p room by (simp add: suc Let_def)
  have idx: "unat (p + 1 + of_nat ?n) = Suc (unat p) + ?n"
  proof -
    have "p + 1 + of_nat ?n = of_nat (Suc (unat p) + ?n)" by simp
    moreover have "Suc (unat p) + ?n < 2 ^ 64" using n p room by (simp add: log_next_def)
    ultimately show ?thesis by (simp only: unat_of_nat_ulong)
  qed
  have len: "log_next ?l + length (drop ?n es) < 2 ^ 64" using room by simp
  have lo: "log_start ?l \<le> unat (p + 1 + of_nat ?n)" "unat (p + 1 + of_nat ?n) \<le> log_next ?l"
    using p n unfolding idx by (simp_all add: log_next_def)
  have rest: "list_all sayable (drop ?n es)" using es by (auto simp: list_all_iff dest: in_set_dropD)
  obtain t rest log where t: "overwrite_entries (drop ?n es) (p + 1 + of_nat ?n) s = (Inr rest, t)"
    "stores s log t" "list_all sayable rest" "log_start ?l + length log + length rest < 2 ^ 64"
    "log @ rest = (if drop ?n es = [] then log_list ?l
       else take (Suc (unat p) + ?n - log_start ?l) (log_list ?l) @ drop ?n es)"
    using overwrite_entries_run [OF inv rest old lo len] unfolding idx by auto
  obtain u where u: "forM rest append_entry t = (Inr (), u)" "stores t (log @ rest) u"
    using append_entries_run [of t rest] t stores_log [OF t(2)] by (auto simp: log_next_def)
  have "log @ rest = merged_log ?l p es"
  proof -
    have "Suc (unat p) + ?n - log_start ?l = ?k + ?n" using p by simp
    with t(5) n(2) show ?thesis by (simp add: merged_log_def Let_def merge_entries_match take_add)
  qed
  moreover have "store_entries p es s = (Inr (), u)"
    using skip t(1) u(1) by (simp add: store_entries_def read_log_def run_simps)
  ultimately show ?thesis
    using stores_trans [OF t(2) u(2)] by auto
qed


section \<open>The handler\<close>

text \<open>What replication is about, apart from the ballot.\<close>

definition log_view :: "raft_server \<Rightarrow>
    log_store \<times> echo_state_machine \<times> ulong \<times> ulong \<times> raft_params \<times> cluster_config" where
  "log_view s = (sv_log_store s, sv_state_machine s, sv_quick_commit_idx s, sv_sm_commit_index s,
     sv_params s, sv_config s)"

interpretation log: term_view "same log_view"
  by unfold_locales (simp_all add: log_view_def map_peer_def)

lemma hear_leader_run:
  assumes "sv_role s \<noteq> leader"
  shows "\<exists>t. hear_leader s = (Inr (), t) \<and> log_view t = log_view s \<and>
             ballot_view t = ballot_view (s\<lparr>sv_role := follower\<rparr>)"
proof (cases "sv_role s = candidate")
  case True
  obtain t where t: "become_follower s = (Inr (), t)"
    by (rule nothrowE [OF nothrow_become_follower, of s]) simp
  with sameD [OF log.keeps_become_follower, of s] become_follower_ballot [of s] True show ?thesis
    by (simp add: hear_leader_def run_simps)
next
  case False
  with assms have role: "sv_role s = follower" by (cases "sv_role s") simp_all
  obtain t where t: "restart_election_timer s = (Inr (), t)"
    by (rule nothrowE [OF nothrow_restart_election_timer, of s]) simp
  moreover have "ballot_view (s\<lparr>sv_role := follower\<rparr>) = ballot_view s"
    using role by (simp add: ballot_view_def)
  ultimately show ?thesis
    using sameD [OF log.keeps_restart_election_timer, of s]
      sameD [OF ballot.keeps_restart_election_timer, of s] role
    by (simp add: hear_leader_def run_simps)
qed

text \<open>
  The entry before those of a request is held with the given term: in the log, at the end of
  the snapshot the log starts after, or not at all at the very beginning.
\<close>

definition holds_prev :: "raft_server \<Rightarrow> ulong \<Rightarrow> ulong \<Rightarrow> bool" where
  "holds_prev s p t \<longleftrightarrow> (let l = sv_log_store s in
     if p = 0 then log_start l = 1
     else if log_start l \<le> unat p then
       unat p < log_next l \<and> le_term (log_list l ! (unat p - log_start l)) = t
     else log_start l = Suc (unat p) \<and>
       (\<exists>snp. em_last_snapshot (sv_state_machine s) = Some snp \<and>
              sn_last_log_idx snp = p \<and> sn_last_log_term snp = t))"

lemma holds_prev_range:
  assumes "log_inv (sv_log_store s)" "holds_prev s p t"
  shows "log_start (sv_log_store s) \<le> Suc (unat p)" "unat p < log_next (sv_log_store s)"
  using assms in_memory.bounds [OF assms(1)]
  by (auto simp: holds_prev_def Let_def log_next_def split: if_splits)

lemma next_slot_log: "log_inv l \<Longrightarrow> unat (next_slot l) = log_next l"
  using in_memory.unat_slot by (simp add: log_next_def)

lemma log_okay_for_run:
  assumes inv: "log_inv (sv_log_store s)" and "holds_prev s (rq_last_log_idx req) (rq_last_log_term req)"
  shows "log_okay_for req s = (Inr True, s)"
proof (cases "rq_last_log_idx req = 0")
  case True
  then show ?thesis by (simp add: log_okay_for_def run_simps)
next
  case False
  let ?p = "rq_last_log_idx req"
  have lt: "?p < sv_next_slot s"
    using holds_prev_range [OF assms] by (simp add: word_less_nat_alt next_slot_log [OF inv])
  have start: "?p \<ge> sv_start_index s \<longleftrightarrow> log_start (sv_log_store s) \<le> unat ?p"
    by (simp add: word_le_nat_alt start_index_def log_start_def)
  have "term_for_log ?p s = (Inr (rq_last_log_term req), s)"
    using assms False holds_prev_range [OF assms] term_at_log [OF inv, of ?p]
    by (auto simp: holds_prev_def Let_def term_for_log_def run_simps start read_log_def sm_last_snapshot_def
        split: if_splits)
  then show ?thesis
    using False lt by (simp add: log_okay_for_def run_simps)
qed

lemma commit_run:
  assumes "sv_role s \<noteq> leader"
  shows "\<exists>x. commit i s = (Inr (), s\<lparr>sv_quick_commit_idx := max (sv_quick_commit_idx s) i, sv_outbox := x\<rparr>)"
proof -
  let ?t = "s\<lparr>sv_quick_commit_idx := max (sv_quick_commit_idx s) i\<rparr>"
  let ?pending = "sv_next_slot ?t - 1 > sv_sm_commit_index ?t \<and> sv_quick_commit_idx ?t > sv_sm_commit_index ?t"
  have t: "?t = (if i > sv_quick_commit_idx s then s\<lparr>sv_quick_commit_idx := i\<rparr> else s)"
    by (simp add: max_def not_less)
  have "commit i s = whenM ?pending (emit Notify_commit) ?t"
    unfolding t using assms by (simp add: commit_def run_simps)
  also have "\<dots> = (Inr (), ?t\<lparr>sv_outbox := sv_outbox s @ (if ?pending then [Notify_commit] else [])\<rparr>)"
    by (simp add: run_simps emit_def)
  finally show ?thesis by (rule exI)
qed

text \<open>
  A request of the leader of the server's term whose previous entry the server holds.
\<close>

lemma handle_append_entries_run:
  fixes req s
  defines "l \<equiv> sv_log_store s"
  assumes inv: "log_inv l" and same_term: "rq_term req = sv_term s" and role: "sv_role s \<noteq> leader"
    and prev: "holds_prev s (rq_last_log_idx req) (rq_last_log_term req)"
    and es: "list_all sayable (rq_log_entries req)" "list_all sayable (log_list l)"
    and room: "log_next l + length (rq_log_entries req) < 2 ^ 64"
  shows "\<exists>t. handle_append_entries req s =
      (Inr (accept (rq_last_log_idx req + of_nat (length (rq_log_entries req)) + 1)
              (resp_msg_new (sv_term s) append_entries_response (sv_id s) (rq_src req) (next_slot l))), t) \<and>
     log_inv (sv_log_store t) \<and> log_start (sv_log_store t) = log_start l \<and>
     log_list (sv_log_store t) = merged_log l (rq_last_log_idx req) (rq_log_entries req) \<and>
     sv_quick_commit_idx t = max (sv_quick_commit_idx s) (rq_commit_idx req) \<and>
     sv_sm_commit_index t = sv_sm_commit_index s \<and> sv_state t = sv_state s \<and>
     sv_role t = follower \<and> sv_leader t = rq_src req"
proof -
  obtain a where a: "hear_leader s = (Inr (), a)" "log_view a = log_view s"
      "ballot_view a = ballot_view (s\<lparr>sv_role := follower\<rparr>)"
    using hear_leader_run [OF role] by blast
  have a': "sv_log_store a = l" "sv_state_machine a = sv_state_machine s" "sv_state a = sv_state s"
    "sv_id a = sv_id s" "sv_role a = follower" "sv_quick_commit_idx a = sv_quick_commit_idx s"
    "sv_sm_commit_index a = sv_sm_commit_index s"
    using a(2,3) by (simp_all add: log_view_def ballot_view_def l_def)
  have prev': "holds_prev a (rq_last_log_idx req) (rq_last_log_term req)"
    using prev unfolding holds_prev_def a' by (simp only: l_def)
  have okay: "log_okay_for req a = (Inr True, a)"
    using log_okay_for_run [OF _ prev'] inv a' by simp
  let ?store = "whenM (rq_log_entries req \<noteq> []) (store_entries (rq_last_log_idx req) (rq_log_entries req))"
  obtain b where b: "?store a = (Inr (), b)"
      "stores a (merged_log l (rq_last_log_idx req) (rq_log_entries req)) b"
  proof (cases "rq_log_entries req = []")
    case True
    then show ?thesis
      using that [of a] stores_refl [of a] inv a' by (simp add: run_simps merged_log_def Let_def)
  next
    case False
    then show ?thesis
      using store_entries_run [of a "rq_log_entries req" "rq_last_log_idx req"] that
        holds_prev_range [OF _ prev'] inv a' es room by (auto simp: run_simps)
  qed
  let ?c = "b\<lparr>sv_leader := rq_src req\<rparr>"
  have b': "sv_state b = sv_state s" "sv_role b = follower" "sv_quick_commit_idx b = sv_quick_commit_idx s"
    "sv_sm_commit_index b = sv_sm_commit_index s"
    using b(2) a' by (auto simp: stores_def)
  obtain x where x: "commit (rq_commit_idx req) ?c =
      (Inr (), ?c\<lparr>sv_quick_commit_idx := max (sv_quick_commit_idx s) (rq_commit_idx req), sv_outbox := x\<rparr>)"
    using commit_run [of ?c "rq_commit_idx req"] b' by auto
  have "handle_append_entries req s =
      (Inr (accept (rq_last_log_idx req + of_nat (length (rq_log_entries req)) + 1)
              (resp_msg_new (sv_term s) append_entries_response (sv_id s) (rq_src req) (next_slot l))),
       ?c\<lparr>sv_quick_commit_idx := max (sv_quick_commit_idx s) (rq_commit_idx req), sv_outbox := x\<rparr>)"
    unfolding handle_append_entries_def bind_steps
    by (simp add: whenM_def [of True] same_term bindM_run [of hear_leader s, OF a(1)] bindM_run [of "log_okay_for req" a, OF okay]
        bindM_run [of ?store a, OF b(1)] bindM_run [of "commit (rq_commit_idx req)" ?c, OF x] bind_steps a' run_ret)
  then show ?thesis
    using stores_log [OF b(2)] b' a' by simp
qed

text \<open>
  A request whose previous entry the server does not hold, because its log is shorter or has
  another term there, is refused; nothing but the timers changes.
\<close>

definition lacks_prev :: "raft_server \<Rightarrow> ulong \<Rightarrow> ulong \<Rightarrow> bool" where
  "lacks_prev s p t \<longleftrightarrow> (let l = sv_log_store s in p \<noteq> 0 \<and>
     (log_next l \<le> unat p \<or>
      log_start l \<le> unat p \<and> le_term (log_list l ! (unat p - log_start l)) \<noteq> t))"

lemma log_okay_for_lacks:
  assumes inv: "log_inv (sv_log_store s)" and lacks: "lacks_prev s (rq_last_log_idx req) (rq_last_log_term req)"
  shows "log_okay_for req s = (Inr False, s)"
proof (cases "unat (rq_last_log_idx req) < log_next (sv_log_store s)")
  case True
  let ?p = "rq_last_log_idx req"
  have "?p < sv_next_slot s" "?p \<ge> sv_start_index s"
    using True lacks by (auto simp: lacks_prev_def Let_def word_less_nat_alt next_slot_log [OF inv]
        word_le_nat_alt start_index_def log_start_def)
  then show ?thesis
    using True lacks term_at_log [OF inv, of ?p]
    by (auto simp: lacks_prev_def Let_def log_okay_for_def term_for_log_def run_simps read_log_def)
next
  case False
  then show ?thesis
    using lacks by (simp add: lacks_prev_def Let_def log_okay_for_def run_simps word_less_nat_alt next_slot_log [OF inv])
qed

lemma handle_append_entries_refuse:
  assumes inv: "log_inv (sv_log_store s)" and same_term: "rq_term req = sv_term s" and role: "sv_role s \<noteq> leader"
    and lacks: "lacks_prev s (rq_last_log_idx req) (rq_last_log_term req)"
  shows "\<exists>t. handle_append_entries req s =
      (Inr (resp_msg_new (sv_term s) append_entries_response (sv_id s) (rq_src req) (sv_next_slot s)), t) \<and>
     log_view t = log_view s \<and> sv_state t = sv_state s \<and> sv_role t = follower"
proof -
  obtain a where a: "hear_leader s = (Inr (), a)" "log_view a = log_view s"
      "ballot_view a = ballot_view (s\<lparr>sv_role := follower\<rparr>)"
    using hear_leader_run [OF role] by blast
  have a': "sv_log_store a = sv_log_store s" "sv_state a = sv_state s" "sv_id a = sv_id s" "sv_role a = follower"
    using a(2,3) by (simp_all add: log_view_def ballot_view_def)
  have "lacks_prev a (rq_last_log_idx req) (rq_last_log_term req)"
    using lacks unfolding lacks_prev_def a' .
  then have okay: "log_okay_for req a = (Inr False, a)"
    using log_okay_for_lacks [of a req] inv a' by simp
  have "handle_append_entries req s =
      (Inr (resp_msg_new (sv_term s) append_entries_response (sv_id s) (rq_src req) (sv_next_slot s)), a)"
    unfolding handle_append_entries_def bind_steps
    by (simp add: whenM_def [of True] same_term bindM_run [of hear_leader s, OF a(1)]
        bindM_run [of "log_okay_for req" a, OF okay] bind_steps a' run_ret)
  then show ?thesis using a(2) a' by simp
qed

text \<open>The term is adopted and the steps to down are reset before the handler runs.\<close>

lemma process_append_entries:
  assumes "rq_type req = append_entries_request" "sv_term s \<le> rq_term req"
    and "rq_term req = sv_term s \<Longrightarrow> sv_role s \<noteq> leader"
  obtains u where "process_req now req s = handle_append_entries req u" "log_view u = log_view s"
    "sv_term u = rq_term req" "sv_role u \<noteq> leader" "sv_id u = sv_id s"
proof -
  let ?steps = "\<lambda>s. if sint (sv_steps_to_down s) > 0 then s\<lparr>sv_steps_to_down := 2\<rparr> else s"
  have steps: "log_view (?steps v) = log_view v" "ballot_view (?steps v) = ballot_view v" for v
    by (simp_all add: log_view_def ballot_view_def)
  obtain x v where v: "update_term (rq_term req) s = (Inr x, v)" "log_view v = log_view s"
    "sv_term v = rq_term req" "sv_role v \<noteq> leader" "sv_id v = sv_id s"
  proof (cases "sv_term s < rq_term req")
    case True
    obtain v where v: "update_term (rq_term req) s = (Inr True, v)"
      using update_term_newer(1) [OF True] by (metis prod.collapse)
    moreover have "log_view v = log_view s"
      using sameD [OF log.keeps_update_term, of "rq_term req" s] v by simp
    moreover have "ballot_view v = (sv_id s, \<lparr>st_term = rq_term req, st_voted_for = - 1\<rparr>, follower, 0, [])"
      using update_term_newer(2) [OF True] v by simp
    ultimately show ?thesis using that by (simp add: ballot_view_def)
  next
    case False
    then show ?thesis
      using that [of False s] assms update_term_older [of "rq_term req" s] by simp
  qed
  have "process_req now req s = handle_append_entries req (?steps v)"
    unfolding process_req_def using assms(1)
    by (simp add: whenM_def bindM_assoc bindM_run [of "update_term (rq_term req)" s, OF v(1)] bind_steps)
  then show ?thesis
    using that [of "?steps v"] v steps [of v] by (simp add: ballot_view_def)
qed

end
