(* ===== verification/Commit_Loop.thy ===== *)
theory Commit_Loop
  imports Replication
begin

text \<open>
  The loop of the commit thread (\<^verbatim>\<open>commit_in_bg\<close>): it applies the committed entries one by one
  until the state machine has caught up with the commit index or the log ends. A round ends
  for every state, whatever the entries hold, and when it ends normally the state machine
  has been given exactly the application entries of the committed range, in order.
\<close>

section \<open>Progress\<close>

definition progress_view :: "raft_server \<Rightarrow> ulong \<times> ulong" where
  "progress_view s = (sv_quick_commit_idx s, sv_sm_commit_index s)"

interpretation progress: apply_view "same progress_view"
  by unfold_locales (simp_all add: progress_view_def map_peer_def)

lemma commit_one_progress:
  "progress_view (snd (commit_one s)) = (sv_quick_commit_idx s, sv_sm_commit_index s + 1)"
proof -
  define rest where "rest = bindM (getM sv_sm_commit_index) (\<lambda>idx.
     bindM (read_log (entry_at idx)) (\<lambda>entry.
     bindM
       (if le_val_type entry = app_log then
          bindM (liftR (get_buf entry)) (\<lambda>buf. on_machine (sm_commit idx buf))
        else if le_val_type entry = conf then
          bindM (liftR (get_buf entry)) commit_conf
        else ret ()) (\<lambda>_.
     snapshot_and_compact idx)))"
  have "keeps (same progress_view) rest"
    unfolding rest_def by (intro progress.apply_intros progress.keeps_commit_conf progress.keeps_snapshot_and_compact)
  from sameD [OF this, of "s\<lparr>sv_sm_commit_index := sv_sm_commit_index s + 1\<rparr>"] show ?thesis
    unfolding commit_one_def rest_def [symmetric] by (simp add: bind_steps progress_view_def)
qed

lemma commit_one_left:
  assumes "commit_pending s" "commit_one s = (r, t)"
  shows "unat (sv_quick_commit_idx t - sv_sm_commit_index t) < unat (sv_quick_commit_idx s - sv_sm_commit_index s)"
proof -
  have "sv_quick_commit_idx t = sv_quick_commit_idx s" "sv_sm_commit_index t = sv_sm_commit_index s + 1"
    using commit_one_progress [of s] assms(2) by (simp_all add: progress_view_def)
  moreover have lt: "sv_sm_commit_index s < sv_quick_commit_idx s"
    using assms(1) by (simp add: commit_pending_def)
  ultimately show ?thesis
    using measure_unat [of "sv_quick_commit_idx s - sv_sm_commit_index s"] by (simp add: algebra_simps)
qed

section \<open>The loop\<close>

function commit_loop :: "raft_server \<Rightarrow> unit res \<times> raft_server" where
  "commit_loop s =
     (if commit_pending s then
        (case commit_one s of
           (Inl e, t) \<Rightarrow> (Inl e, t)
         | (Inr _, t) \<Rightarrow> commit_loop t)
      else (Inr (), s))"
  by pat_completeness auto

termination
  by (relation "measure (\<lambda>s. unat (sv_quick_commit_idx s - sv_sm_commit_index s))")
     (auto dest: commit_one_left [OF _ sym])

declare commit_loop.simps [simp del]

text \<open>
  One pass of the thread after it has been woken: an exception of the loop stops the process.
\<close>

definition commit_in_bg :: "unit server_op" where
  "commit_in_bg = catchM commit_loop (\<lambda>_. exit_throw)"

section \<open>What is applied\<close>

text \<open>A stored configuration can be read back.\<close>

definition applicable :: "log_entry \<Rightarrow> bool" where
  "applicable e \<longleftrightarrow> sayable e \<and>
     (le_val_type e = conf \<longrightarrow>
       (\<exists>c. le_buff e = Some (fresh_buf (cluster_config_bytes c)) \<and> cluster_config_ok c \<and>
            length (cluster_config_bytes c) < 0x80000000))"

definition message_of :: "log_entry \<Rightarrow> cstring" where
  "message_of e = (case get_buf e of
     Inl _ \<Rightarrow> [] | Inr b \<Rightarrow> (case get_string b of Inl _ \<Rightarrow> [] | Inr (m, _) \<Rightarrow> m))"

text \<open>What the state machine prints for the entry at an index.\<close>

definition commit_events :: "nat \<Rightarrow> log_entry \<Rightarrow> sm_event list" where
  "commit_events i e = (if le_val_type e = app_log then [Commit (of_nat i) (take 64 (message_of e))] else [])"

definition store_view :: "raft_server \<Rightarrow> log_store \<times> echo_state_machine \<times> raft_params" where
  "store_view s = (sv_log_store s, sv_state_machine s, sv_params s)"

interpretation store: config_view "same store_view"
  by unfold_locales (simp_all add: store_view_def map_peer_def)

lemma nothrow_save_config_op:
  assumes "cluster_config_ok c" "length (cluster_config_bytes c) < 0x80000000"
  shows "nothrow (save_config_op c)"
  using save_config_run [OF assms]
  unfolding save_config_op_def on_mgr_def by (intro nothrow_intros) (simp add: nothrow_def)

lemma nothrow_set_config_changing [nothrow_intros]: "nothrow (set_config_changing b)"
  unfolding set_config_changing_def by (intro nothrow_intros)

lemma set_pos_fresh: "set_pos 0 (fresh_buf bs) = fresh_buf bs"
  by (simp add: set_pos_def fresh_buf_def)

lemma nothrow_option [nothrow_intros]:
  "nothrow m \<Longrightarrow> (\<And>x. nothrow (f x)) \<Longrightarrow> nothrow (case p of None \<Rightarrow> m | Some x \<Rightarrow> f x)"
  by (cases p) simp_all

lemma nothrow_add_peer [nothrow_intros]: "nothrow (add_peer srv)"
  unfolding add_peer_def blockM.simps by (intro nothrow_intros)

lemma nothrow_remove_peer [nothrow_intros]: "nothrow (remove_peer i)"
  unfolding remove_peer_def by (intro nothrow_intros)

lemma nothrow_remove_servers:
  assumes "cluster_config_ok c" "length (cluster_config_bytes c) < 0x80000000"
  shows "nothrow (remove_servers is c)"
  by (induction "is") (simp_all, (intro nothrow_intros nothrow_save_config_op assms | assumption)+)

lemma nothrow_reconfigure:
  assumes "cluster_config_ok c" "length (cluster_config_bytes c) < 0x80000000"
  shows "nothrow (reconfigure c)"
  unfolding reconfigure_def by (intro nothrow_intros nothrow_remove_servers assms)

lemma commit_conf_run:
  assumes "cluster_config_ok c" "length (cluster_config_bytes c) < 0x80000000"
  shows "\<exists>t. commit_conf (fresh_buf (cluster_config_bytes c)) s = (Inr (), t) \<and> store_view t = store_view s"
proof -
  let ?b = "fresh_buf (cluster_config_bytes c)"
  let ?rest = "\<lambda>new_conf. blockM
       [save_config_op new_conf,
        set_config_changing False,
        bindM (getM (\<lambda>s. cc_log_idx (sv_config s) < cc_log_idx new_conf)) (\<lambda>newer.
        whenM newer (reconfigure new_conf)),
        bindM (getM (\<lambda>s. sv_catching_up s \<and> get_server new_conf (sv_id s) \<noteq> None)) (\<lambda>joined.
        whenM joined (modM (\<lambda>s. s\<lparr>sv_catching_up := False\<rparr>)))]"
  have "rbind (cluster_config_deserialize (set_pos 0 ?b)) (\<lambda>(c, _). Inr c) = Inr c"
    using cluster_config_codec.dec_fresh [OF assms(1)] by (simp add: set_pos_fresh)
  then have eq: "commit_conf ?b = ?rest c"
    unfolding commit_conf_def by (intro ext) (simp only: bindM_run [of _ _ c] run_liftR)
  have "nothrow (?rest c)"
    unfolding blockM.simps
    by (intro nothrow_intros nothrow_save_config_op nothrow_reconfigure assms)
  then have "nothrow (commit_conf ?b)" by (simp only: eq)
  then obtain t where t: "commit_conf ?b s = (Inr (), t)" by (rule nothrowE [of _ s]) simp
  with sameD [OF store.keeps_commit_conf, of ?b s] show ?thesis by simp
qed

lemma sm_commit_run:
  assumes "sayable e" "le_val_type e = app_log"
  shows "\<exists>b. get_buf e = Inr b \<and> sm_commit i b m =
    (Inr (), m\<lparr>em_trace := em_trace m @ [Commit i (take 64 (message_of e))], em_last_committed_idx := i\<rparr>)"
  using assms
  by (auto simp: sayable_def message_of_def sm_commit_def sm_print_def run_simps)

text \<open>One round, with snapshots switched off.\<close>

lemma commit_one_run:
  fixes s
  defines "l \<equiv> sv_log_store s" and "i \<equiv> Suc (unat (sv_sm_commit_index s))"
  assumes inv: "log_inv l" and off: "pa_snapshot_distance (sv_params s) = 0"
    and i: "log_start l \<le> i" "i < log_next l" and e: "applicable (log_list l ! (i - log_start l))"
  shows "\<exists>t. commit_one s = (Inr (), t) \<and> sv_log_store t = l \<and> sv_params t = sv_params s \<and>
     em_trace (sv_state_machine t) =
       em_trace (sv_state_machine s) @ commit_events i (log_list l ! (i - log_start l))"
proof -
  let ?s = "s\<lparr>sv_sm_commit_index := sv_sm_commit_index s + 1\<rparr>" and ?e = "log_list l ! (i - log_start l)"
  let ?idx = "sv_sm_commit_index s + 1"
  let ?act = "if le_val_type ?e = app_log then
          bindM (liftR (get_buf ?e)) (\<lambda>buf. on_machine (sm_commit ?idx buf))
        else if le_val_type ?e = conf then
          bindM (liftR (get_buf ?e)) commit_conf
        else ret ()"
  have bnd: "i < 2 ^ 64" using i in_memory.bounds [OF inv] by (simp add: log_next_def)
  have word: "?idx = of_nat i" by (simp add: i_def)
  then have idx: "unat ?idx = i" using bnd by (simp only: unat_of_nat_ulong)
  have read: "read_log (entry_at ?idx) ?s = (Inr ?e, ?s)"
    using entry_at_log [OF inv, of ?idx] i by (simp add: idx read_log_def run_simps l_def)
  obtain t where t: "?act ?s = (Inr (), t)" "sv_log_store t = l" "sv_params t = sv_params s"
    "em_trace (sv_state_machine t) = em_trace (sv_state_machine s) @ commit_events i ?e"
  proof (cases "le_val_type ?e = app_log")
    case True
    then obtain b where "get_buf ?e = Inr b" "sm_commit ?idx b (sv_state_machine s) =
        (Inr (), (sv_state_machine s)\<lparr>em_trace := em_trace (sv_state_machine s) @ [Commit ?idx (take 64 (message_of ?e))],
           em_last_committed_idx := ?idx\<rparr>)"
      using sm_commit_run [of ?e ?idx "sv_state_machine s"] e by (auto simp: applicable_def)
    with True that show ?thesis
      by (simp add: on_machine_def run_simps l_def commit_events_def flip: word)
  next
    case app: False
    show ?thesis
    proof (cases "le_val_type ?e = conf")
      case True
      then obtain c where c: "le_buff ?e = Some (fresh_buf (cluster_config_bytes c))" "cluster_config_ok c"
        "length (cluster_config_bytes c) < 0x80000000"
        using e by (auto simp: applicable_def)
      from commit_conf_run [OF c(2,3), of ?s] that app True c(1) show ?thesis
        by (auto simp: run_simps get_buf_def store_view_def l_def commit_events_def)
    next
      case False
      with that app show ?thesis by (simp add: run_simps l_def commit_events_def)
    qed
  qed
  have sm: "sv_sm_commit_index ?s = ?idx" by simp
  have "commit_one s = snapshot_and_compact ?idx t"
    unfolding commit_one_def
    by (simp only: bind_steps sm bindM_run [of "read_log (entry_at ?idx)" ?s, OF read]
        bindM_run [of ?act ?s, OF t(1)])
  also have "\<dots> = (Inr (), t)"
    using off t(3) by (simp add: snapshot_and_compact_def run_simps)
  finally show ?thesis using t by blast
qed

text \<open>The last index the loop applies.\<close>

definition commit_target :: "raft_server \<Rightarrow> nat" where
  "commit_target s = max (unat (sv_sm_commit_index s))
     (min (unat (sv_quick_commit_idx s)) (log_next (sv_log_store s) - 1))"

lemma commit_pending_iff:
  assumes "log_inv (sv_log_store s)"
  shows "commit_pending s \<longleftrightarrow> unat (sv_sm_commit_index s) < commit_target s"
proof -
  have b: "1 \<le> log_next (sv_log_store s)" "log_next (sv_log_store s) < 2 ^ 64"
    using in_memory.bounds [OF assms] by (simp_all add: log_next_def)
  have "sv_next_slot s = of_nat (log_next (sv_log_store s))"
    using in_memory.slot_law [OF assms] by (simp add: log_next_def)
  then have "sv_next_slot s - 1 = of_nat (log_next (sv_log_store s) - 1)"
    using b(1) by (simp add: of_nat_diff)
  moreover have "log_next (sv_log_store s) - 1 < 2 ^ 64" using b by linarith
  ultimately have "unat (sv_next_slot s - 1) = log_next (sv_log_store s) - 1" by simp
  then show ?thesis
    by (auto simp: commit_pending_def commit_target_def word_less_nat_alt)
qed

lemma commit_loop_run:
  fixes s
  defines "l \<equiv> sv_log_store s"
  assumes "log_inv l" "pa_snapshot_distance (sv_params s) = 0" "log_start l \<le> Suc (unat (sv_sm_commit_index s))"
    and "list_all applicable (log_list l)"
  shows "\<exists>t. commit_loop s = (Inr (), t) \<and> sv_log_store t = l \<and>
     unat (sv_sm_commit_index t) = commit_target s \<and> sv_quick_commit_idx t = sv_quick_commit_idx s \<and>
     em_trace (sv_state_machine t) = em_trace (sv_state_machine s) @
       concat (map (\<lambda>i. commit_events i (log_list l ! (i - log_start l)))
         [Suc (unat (sv_sm_commit_index s)) ..< Suc (commit_target s)])"
  using assms(2-) unfolding l_def
proof (induction s rule: commit_loop.induct)
  case (1 s)
  let ?l = "sv_log_store s" and ?i = "Suc (unat (sv_sm_commit_index s))"
  show ?case
  proof (cases "commit_pending s")
    case False
    then have "commit_target s = unat (sv_sm_commit_index s)"
      using commit_pending_iff [OF 1(2)] by (simp add: commit_target_def)
    with False show ?thesis
      by (subst (1) commit_loop.simps) simp
  next
    case True
    have i: "log_start ?l \<le> ?i" "?i \<le> commit_target s" "?i < log_next ?l"
      using 1(4) True commit_pending_iff [OF 1(2)] by (auto simp: commit_target_def)
    have "?i - log_start ?l < length (log_list ?l)"
      using i by (simp add: log_next_def less_diff_conv2)
    then have "applicable (log_list ?l ! (?i - log_start ?l))"
      using 1(5) by (simp add: list_all_length)
    from commit_one_run [OF 1(2,3) i(1,3) this] obtain t where t: "commit_one s = (Inr (), t)"
      "sv_log_store t = ?l" "sv_params t = sv_params s"
      "em_trace (sv_state_machine t) =
         em_trace (sv_state_machine s) @ commit_events ?i (log_list ?l ! (?i - log_start ?l))" by blast
    have prog: "sv_quick_commit_idx t = sv_quick_commit_idx s" "sv_sm_commit_index t = sv_sm_commit_index s + 1"
      using commit_one_progress [of s] t(1) by (simp_all add: progress_view_def)
    have "?i < 2 ^ 64" using i in_memory.bounds [OF 1(2)] by (simp add: log_next_def)
    then have sm: "unat (sv_sm_commit_index t) = ?i"
      using unat_of_nat_ulong [of ?i] by (simp add: prog add.commute)
    have target: "commit_target t = commit_target s"
      using i True commit_pending_iff [OF 1(2)] unfolding commit_target_def [of t] commit_target_def [of s]
      by (auto simp: sm prog(1) t(2))
    have "log_start ?l \<le> Suc ?i" using i by simp
    with 1(1) [OF True t(1) [symmetric] refl] 1(2,3,5) t(2,3)
    obtain u where u: "commit_loop t = (Inr (), u)" "sv_log_store u = ?l"
      "unat (sv_sm_commit_index u) = commit_target s" "sv_quick_commit_idx u = sv_quick_commit_idx s"
      "em_trace (sv_state_machine u) = em_trace (sv_state_machine t) @
       concat (map (\<lambda>i. commit_events i (log_list ?l ! (i - log_start ?l))) [Suc ?i ..< Suc (commit_target s)])"
      by (auto simp: sm target prog(1) simp del: upt_Suc)
    have "[?i ..< Suc (commit_target s)] = ?i # [Suc ?i ..< Suc (commit_target s)]"
      using i by (intro upt_conv_Cons) simp
    with u t(1,4) True show ?thesis
      by (subst (1) commit_loop.simps) (simp del: upt_Suc)
  qed
qed

section \<open>The configuration of a snapshot\<close>

text \<open>The configuration stored at an index of the log.\<close>

definition conf_at :: "log_store \<Rightarrow> ulong \<Rightarrow> cluster_config res" where
  "conf_at l i = rbind (entry_at i l) (\<lambda>conf_log.
     rbind (get_buf conf_log) (\<lambda>buf.
     rbind (cluster_config_deserialize buf) (\<lambda>(c, _). Inr c)))"

definition points_back :: "log_store \<Rightarrow> bool" where
  "points_back l \<longleftrightarrow> (\<forall>i c. conf_at l i = Inr c \<longrightarrow> cc_prev_log_idx c < i)"

lemma find_conf_step:
  "find_conf l k cfg =
     (if cc_log_idx cfg > k \<and> cc_prev_log_idx cfg \<ge> start_index l then
        (case conf_at l (cc_prev_log_idx cfg) of Inl e \<Rightarrow> Some (Inl e) | Inr c \<Rightarrow> find_conf l k c)
      else Some (Inr cfg))"
  unfolding conf_at_def by (subst find_conf.simps) simp

lemma find_conf_returns:
  assumes "points_back l"
  shows "\<exists>r. find_conf l k cfg = Some r \<and>
    (\<forall>c. r = Inr c \<longrightarrow> cc_log_idx c \<le> k \<or> cc_prev_log_idx c < start_index l)"
proof (induction "unat (cc_prev_log_idx cfg)" arbitrary: cfg rule: less_induct)
  case less
  show ?case
  proof (cases "cc_log_idx cfg > k \<and> cc_prev_log_idx cfg \<ge> start_index l")
    case True
    show ?thesis
    proof (cases "conf_at l (cc_prev_log_idx cfg)")
      case (Inl e)
      with True show ?thesis by (subst find_conf_step) simp
    next
      case (Inr c)
      with assms have "cc_prev_log_idx c < cc_prev_log_idx cfg" by (auto simp: points_back_def)
      then have "unat (cc_prev_log_idx c) < unat (cc_prev_log_idx cfg)" by (simp add: word_less_nat_alt)
      from less [OF this] True Inr show ?thesis by (subst find_conf_step) simp
    qed
  next
    case False
    then show ?thesis by (subst find_conf_step) (auto simp: not_less)
  qed
qed

end
