(* ===== verification/Enclave_Invariants.thy ===== *)
theory Enclave_Invariants
  imports Remote_Call Commit_Loop
begin

text \<open>
  Everything the host can do with the enclave as one type of events, and what holds however
  the host orders them: the keys in the key store come from verified reports, the server's own
  report is one over its own key, a response number is not given out twice before the counter
  wraps around, and a response stays under its number.
\<close>

section \<open>The entry points\<close>

datatype ecall =
    Handle_rpc_request time_point bool bytes
  | Fetch_rpc_response uint bytes
  | Rpc_response time_point uint bytes "cstring option"
  | Get_report "uint + bytes \<times> bytes" "bytes \<Rightarrow> uint \<times> bytes"
  | Register_verification_report cstring
  | Raft_instance_run int32 cstring "nat \<Rightarrow> int32"
  | Raft_instance_commit_bg
  | Election_timer
  | Heartbeat_timer nat
  | Retry_timer nat req_msg

definition no_result :: "'a enclave_op \<Rightarrow> unit enclave_op" where
  "no_result m = bindM m (\<lambda>_. ret ())"

fun run_ecall :: "library \<Rightarrow> ecall \<Rightarrow> unit enclave_op" where
  "run_ecall lib (Handle_rpc_request now answer message) =
     no_result (ecall_handle_rpc_request lib now answer message)"
| "run_ecall lib (Fetch_rpc_response msg_id buffer) = no_result (ecall_fetch_rpc_response msg_id buffer)"
| "run_ecall lib (Rpc_response now req_uid msg exception) = ecall_rpc_response lib now req_uid msg exception"
| "run_ecall lib (Get_report key_pair create_report) = no_result (ecall_get_report key_pair create_report)"
| "run_ecall lib (Register_verification_report packet) =
     no_result (ecall_register_verification_report lib packet)"
| "run_ecall lib (Raft_instance_run srv_id endpoint rand) = run_raft_instance lib srv_id endpoint rand"
| "run_ecall lib Raft_instance_commit_bg = on_server lib commit_in_bg"
| "run_ecall lib Election_timer = on_server lib handle_election_timeout"
| "run_ecall lib (Heartbeat_timer u) = on_server lib (handle_hb_timeout u)"
| "run_ecall lib (Retry_timer u req) = on_server lib (on_retryable_req_err u req)"

text \<open>Entry points called one after the other; an exception leaves the state it found.\<close>

definition run_ecalls :: "library \<Rightarrow> ecall list \<Rightarrow> enclave \<Rightarrow> enclave" where
  "run_ecalls lib cs e = fold (\<lambda>c e. snd (run_ecall lib c e)) cs e"

section \<open>What an entry point can do to the state\<close>

definition report_over :: "library \<Rightarrow> bytes \<Rightarrow> bytes \<Rightarrow> bool" where
  "report_over lib packet pk \<longleftrightarrow>
     (\<exists>quote. validate_verification_report lib packet = Inr (Some quote) \<and> report_data quote = Inr pk)"

definition attested :: "library \<Rightarrow> bytes \<Rightarrow> bool" where
  "attested lib pk \<longleftrightarrow> (\<exists>packet. report_over lib packet pk)"

text \<open>All entry points but the one that handles requests leave the kept responses alone.\<close>

fun keeps_responses :: "ecall \<Rightarrow> bool" where
  "keeps_responses (Handle_rpc_request _ _ _) = False"
| "keeps_responses _ = True"

text \<open>
  A relation that the single updates of the enclave's state respect is respected by every
  entry point. The keys in the store are updated only with attested ones; the responses are
  left to the locale that extends this one.
\<close>

locale enclave_view = step_order R for R :: "enclave \<Rightarrow> enclave \<Rightarrow> bool" +
  fixes lib :: library
  assumes f_server: "R e (e\<lparr>en_server := sv\<rparr>)"
    and f_out: "R e (e\<lparr>en_out := out\<rparr>)"
    and f_draws: "R e (e\<lparr>en_draws := n\<rparr>)"
    and f_last_req_uid: "R e (e\<lparr>en_last_req_uid := uid\<rparr>)"
    and f_callback_pool: "R e (e\<lparr>en_callback_pool := pool\<rparr>)"
    and f_clients: "R e (e\<lparr>en_clients := n\<rparr>)"
    and f_results: "R e (e\<lparr>en_results := rs\<rparr>)"
    and f_temp: "R e (e\<lparr>en_key_store :=
                   map_option (\<lambda>ks. ks\<lparr>ks_temp_connections := g (ks_temp_connections ks)\<rparr>) (en_key_store e)\<rparr>)"
    and f_self: "en_key_store e = Some ks \<Longrightarrow> report_over lib (c_str packet) (ks_public ks) \<Longrightarrow>
                 R e (e\<lparr>en_key_store := Some (ks\<lparr>ks_self_report := c_str packet\<rparr>)\<rparr>)"
    and f_store: "attested lib pk \<Longrightarrow>
                  R e (e\<lparr>en_key_store := map_option (\<lambda>ks. ks\<lparr>ks_store := umap_put sid pk (ks_store ks)\<rparr>)
                           (en_key_store e)\<rparr>)"
    and f_new_keys: "en_key_store e = None \<Longrightarrow> R e (e\<lparr>en_key_store := Some (er_key_store_new sk pk)\<rparr>)"
begin

lemma keeps_ocall: "keeps R (ocall c)"
  unfolding ocall_def by (intro keeps_modM f_out)

lemma keeps_encrypt: "keeps R (encrypt lib data)"
  unfolding encrypt_def draw_def by (intro keeps_intros keeps_modM f_draws)

lemma keeps_next_req_uid: "keeps R next_req_uid"
  unfolding next_req_uid_def by (intro keeps_intros keeps_modM f_last_req_uid)

lemma keeps_client_send: "keeps R (client_send lib c req cb)"
  unfolding client_send_def raw_send_def
  by (intro keeps_intros keeps_encrypt keeps_next_req_uid keeps_ocall keeps_modM f_callback_pool)

lemma keeps_perform: "keeps R (perform lib x)"
  by (cases x) (auto intro!: keeps_intros keeps_client_send keeps_ocall)

lemma keeps_on_server: "keeps R (on_server lib m)"
  unfolding on_server_def by (intro keeps_intros keeps_perform keeps_modM f_server)

lemma keeps_handler_id: "keeps R handler_id"
  unfolding handler_id_def by (intro keeps_intros)

lemma keeps_with_keys: "(\<And>ks. keeps R (f ks)) \<Longrightarrow> keeps R (with_keys f)"
  unfolding with_keys_def by (intro keeps_intros)

lemma keeps_temp_connections: "keeps R (upd_keys (\<lambda>ks. ks\<lparr>ks_temp_connections := g (ks_temp_connections ks)\<rparr>))"
  unfolding upd_keys_def by (intro keeps_modM f_temp)

lemma keeps_rpc_client: "keeps R (rpc_client_create ep)" "keeps R (rpc_client_destroy c)"
  unfolding rpc_client_create_def rpc_client_destroy_def
  by (intro keeps_intros keeps_ocall keeps_modM f_clients f_callback_pool)+

lemma keeps_send_xchg_request: "keeps R (send_xchg_request lib c i r)"
  unfolding send_xchg_request_def raw_send_def by (intro keeps_intros keeps_next_req_uid keeps_ocall)

lemmas port_intros =
  keeps_intros keeps_ocall keeps_encrypt keeps_on_server keeps_handler_id keeps_with_keys
  keeps_rpc_client keeps_send_xchg_request

text \<open>The one place where a key is stored: its report has been validated.\<close>

lemma keeps_receive_report: "keeps R (receive_report lib sid packet)"
proof -
  have "keeps R (bindM (liftR (report_data quote)) (\<lambda>pk.
         bindM (upd_keys (\<lambda>ks. ks\<lparr>ks_store := umap_put sid pk (ks_store ks)\<rparr>)) (\<lambda>_. ret True)))"
    if "validate_verification_report lib (c_str packet) = Inr (Some quote)" for quote
  proof (cases "report_data quote")
    case (Inr pk)
    then have "attested lib pk" using that by (auto simp: attested_def report_over_def)
    then show ?thesis
      using Inr f_store [of pk] by (simp add: keeps_def run_simps upd_keys_def)
  qed (simp add: keeps_def run_simps R_refl)
  then have "keeps R (bindM (liftR (validate_verification_report lib (c_str packet))) (\<lambda>quote_bytes.
     case quote_bytes of
       None \<Rightarrow> ret False
     | Some quote \<Rightarrow>
         bindM (liftR (report_data quote)) (\<lambda>pk.
         bindM (upd_keys (\<lambda>ks. ks\<lparr>ks_store := umap_put sid pk (ks_store ks)\<rparr>)) (\<lambda>_.
         ret True))))"
    by (cases "validate_verification_report lib (c_str packet)")
       (auto simp: keeps_def run_simps R_refl split: option.split)
  then show ?thesis
    unfolding receive_report_def by (intro keeps_with_keys)
qed

text \<open>The server's own report is taken only with the server's own key in it.\<close>

lemma keeps_register_report: "keeps R (register_report lib packet)"
proof (rule keepsI)
  fix e :: enclave
  show "R e (snd (register_report lib packet e))"
  proof (cases "en_key_store e")
    case (Some ks)
    have "report_over lib (c_str packet) (ks_public ks)"
      if "validate_verification_report lib (c_str packet) = Inr (Some quote)" "report_data quote = Inr (ks_public ks)"
      for quote
      using that by (auto simp: report_over_def)
    then show ?thesis
      using Some f_self [OF Some, of packet] R_refl
      by (auto simp: register_report_def with_keys_def upd_keys_def run_simps split: sum.split option.split)
  qed (simp add: register_report_def with_keys_def run_simps R_refl)
qed

lemma keeps_build_key_xchg_req: "keeps R (build_key_xchg_req lib now sid endpoint)"
  unfolding build_key_xchg_req_def by (intro port_intros keeps_temp_connections)

lemma keeps_handle_key_xchg_resp: "keeps R (handle_key_xchg_resp lib now payload exception)"
  unfolding handle_key_xchg_resp_def Let_def
  by (intro port_intros keeps_receive_report keeps_temp_connections)

lemma keeps_client_request: "keeps R (handle_client_request lib now answer type payload)"
  by (cases type) (auto simp: handle_client_request_def intro!: port_intros keeps_build_key_xchg_req)

lemma keeps_system_request: "keeps R (handle_system_request lib type payload)"
  by (cases type) (auto simp: handle_system_request_def intro!: port_intros keeps_receive_report)

lemma keeps_raft_message: "keeps R (handle_raft_message lib now data)"
  unfolding handle_raft_message_def answer_raft_request_def by (intro port_intros)

lemma keeps_rpc_response: "keeps R (ecall_rpc_response lib now uid msg exception)"
proof -
  have callback: "keeps R (run_callback lib now req cb rsp)" for req cb rsp
    by (cases cb) (auto simp: run_callback_def intro!: port_intros keeps_modM f_results)
  have "keeps R (handle_raft_response lib now uid d)" for d
    unfolding handle_raft_response_def by (intro port_intros callback keeps_modM f_callback_pool)
  moreover have "keeps R (handle_system_resp lib now type d)" for type d
    by (cases type) (auto simp: handle_system_resp_def intro!: port_intros keeps_handle_key_xchg_resp)
  ultimately have "keeps R (case type of
          system_key_exchange_resp \<Rightarrow> handle_system_resp lib now type d
        | system_key_setup_resp \<Rightarrow> handle_system_resp lib now type d
        | raft_message \<Rightarrow> handle_raft_response lib now uid d
        | _ \<Rightarrow> ret ())" for type d
    by (cases type) (auto intro!: port_intros)
  then show ?thesis
    unfolding ecall_rpc_response_def by (intro port_intros)
qed

lemma keeps_get_report: "keeps R (ecall_get_report key_pair create_report)"
proof (rule keepsI)
  fix e :: enclave
  have same: "e\<lparr>en_key_store := Some ks\<rparr> = e" if "en_key_store e = Some ks" for ks
    using that by simp
  show "R e (snd (ecall_get_report key_pair create_report e))"
    by (cases "en_key_store e")
       (auto simp: ecall_get_report_def run_simps Let_def same R_refl f_new_keys
         split: sum.split prod.split)
qed

lemma keeps_run_raft_instance: "keeps R (run_raft_instance lib i ep rand)"
  unfolding run_raft_instance_def
  by (auto intro!: port_intros keeps_perform keeps_modM f_server split: prod.split sum.split)

lemma keeps_run_ecall: "keeps_responses c \<Longrightarrow> keeps R (run_ecall lib c)"
  by (cases c)
     (auto simp: no_result_def ecall_register_verification_report_def ecall_fetch_rpc_response_def
       intro!: port_intros keeps_rpc_response keeps_get_report keeps_register_report
         keeps_run_raft_instance)

end

text \<open>With the responses: the request handlers, whose result is kept.\<close>

locale response_view = enclave_view +
  assumes f_kept: "R e (kept resp e)"
begin

lemma keeps_keep_response: "keeps R (keep_response response)"
  by (cases response) (simp_all add: keeps_def keep_response_run f_kept, simp add: keep_response_def ret_def R_refl)

lemma keeps_handle_rpc_request: "keeps R (ecall_handle_rpc_request lib now answer message)"
proof -
  have "keeps R (case type of
       client_add_srv_req \<Rightarrow> bindM (handle_client_request lib now answer type p) keep_response
     | client_remove_srv_req \<Rightarrow> bindM (handle_client_request lib now answer type p) keep_response
     | client_append_entries_req \<Rightarrow> bindM (handle_client_request lib now answer type p) keep_response
     | system_key_exchange_req \<Rightarrow> bindM (handle_system_request lib type p) keep_response
     | system_key_setup_req \<Rightarrow> bindM (handle_system_request lib type p) keep_response
     | raft_message \<Rightarrow> bindM (handle_raft_message lib now p) keep_response
     | _ \<Rightarrow> ret (- 1, 0))" for type p
    by (cases type) (auto intro!: port_intros keeps_client_request keeps_system_request
        keeps_raft_message keeps_keep_response)
  then show ?thesis
    unfolding ecall_handle_rpc_request_def Let_def by (intro port_intros)
qed

lemma keeps_any_ecall: "keeps R (run_ecall lib c)"
  by (cases "keeps_responses c")
     (simp add: keeps_run_ecall, cases c, auto simp: no_result_def intro!: port_intros keeps_handle_rpc_request)

lemma run_ecalls_R: "R e (run_ecalls lib cs e)"
proof (induction cs arbitrary: e)
  case (Cons c cs)
  have "R e (snd (run_ecall lib c e))"
    using keeps_any_ecall [of c] by (simp add: keeps_def)
  then show ?case
    using Cons [of "snd (run_ecall lib c e)"] by (auto simp: run_ecalls_def intro: R_trans)
qed (simp add: run_ecalls_def R_refl)

end

section \<open>Keys come from reports\<close>

definition stored_keys :: "enclave \<Rightarrow> (int32 \<times> bytes) list" where
  "stored_keys e = (case en_key_store e of None \<Rightarrow> [] | Some ks \<Rightarrow> ks_store ks)"

definition key_order :: "library \<Rightarrow> enclave \<Rightarrow> enclave \<Rightarrow> bool" where
  "key_order lib e e' \<longleftrightarrow>
     (\<forall>pk \<in> ran (map_of (stored_keys e')). pk \<in> ran (map_of (stored_keys e)) \<or> attested lib pk)"

interpretation keys: response_view "key_order lib" lib for lib
proof unfold_locales
  fix s t u
  assume "key_order lib s t" "key_order lib t u"
  then show "key_order lib s u" unfolding key_order_def by blast
next
  fix e pk sid
  assume "attested lib pk"
  then show "key_order lib e (e\<lparr>en_key_store := map_option (\<lambda>ks. ks\<lparr>ks_store := umap_put sid pk (ks_store ks)\<rparr>)
               (en_key_store e)\<rparr>)"
    by (auto simp: key_order_def stored_keys_def find_umap_put ran_def split: option.splits if_splits)
qed (auto simp: key_order_def stored_keys_def er_key_store_new_def kept_def split: option.split)

section \<open>The server's own report\<close>

text \<open>
  The key pair stays what it was drawn as, and the report of the server, once it has one, is
  an accepted one over its public key.
\<close>

definition own_ok :: "library \<Rightarrow> key_store \<Rightarrow> bool" where
  "own_ok lib ks \<longleftrightarrow> ks_self_report ks = [] \<or> report_over lib (ks_self_report ks) (ks_public ks)"

definition own_order :: "library \<Rightarrow> enclave \<Rightarrow> enclave \<Rightarrow> bool" where
  "own_order lib e e' \<longleftrightarrow>
     (case en_key_store e of
        None \<Rightarrow> (\<forall>ks. en_key_store e' = Some ks \<longrightarrow> own_ok lib ks)
      | Some ks \<Rightarrow> (\<exists>ks'. en_key_store e' = Some ks' \<and> ks_public ks' = ks_public ks \<and>
                      ks_private ks' = ks_private ks \<and> (own_ok lib ks \<longrightarrow> own_ok lib ks')))"

interpretation own: response_view "own_order lib" lib for lib
proof unfold_locales
  fix s t u
  assume "own_order lib s t" "own_order lib t u"
  then show "own_order lib s u" by (auto simp: own_order_def split: option.splits)
qed (auto simp: own_order_def own_ok_def er_key_store_new_def kept_def split: option.split)

section \<open>Response numbers\<close>

definition ids_view :: "enclave \<Rightarrow> uint \<times> (uint \<times> bytes) list" where
  "ids_view e = (en_id_counter e, en_response_buffer e)"

interpretation ids: enclave_view "same ids_view" lib for lib
  by unfold_locales (simp_all add: ids_view_def)

text \<open>The numbers in use are at most the counter.\<close>

definition ids_ok :: "enclave \<Rightarrow> bool" where
  "ids_ok e \<longleftrightarrow> (\<forall>k \<in> dom (map_of (en_response_buffer e)). k \<le> en_id_counter e)"

text \<open>A request is answered with a response that is kept, or with the size -1.\<close>

lemma rpc_request_cases:
  obtains (unanswered) "ids_view (snd (ecall_handle_rpc_request lib now answer message e)) = ids_view e"
      "\<And>len n. fst (ecall_handle_rpc_request lib now answer message e) = Inr (len, n) \<Longrightarrow> len = - 1"
  | (response) resp e0 where "ids_view e0 = ids_view e"
      "ecall_handle_rpc_request lib now answer message e =
         (Inr (of_nat (length resp), en_id_counter e + 1), kept resp e0)"
proof -
  let ?run = "ecall_handle_rpc_request lib now answer message e"
  let ?P = "\<lambda>run. (ids_view (snd run) = ids_view e \<and> (\<forall>len n. fst run = Inr (len, n) \<longrightarrow> len = - 1)) \<or>
      (\<exists>resp e0. ids_view e0 = ids_view e \<and> run = (Inr (of_nat (length resp), en_id_counter e + 1), kept resp e0))"
  have kept: "?P (bindM m keep_response e)" if "keeps (same ids_view) m" for m
  proof -
    obtain r e' where m: "m e = (r, e')" by fastforce
    have view: "ids_view e' = ids_view e" using sameD [OF that, of e] m by simp
    then have "en_id_counter e' = en_id_counter e" by (simp add: ids_view_def)
    note view = view this
    show ?thesis
    proof (cases r)
      case (Inr response)
      then show ?thesis
        using m view by (cases response) (auto simp: bindM_def keep_response_run, simp_all add: keep_response_def ret_def)
    qed (use m view in \<open>simp add: bindM_def\<close>)
  qed
  have "?P ?run"
  proof (cases "read_type message")
    case (Inl err)
    then show ?thesis by (simp add: ecall_handle_rpc_request_def run_simps)
  next
    case (Inr type)
    then have "liftR (read_type message) e = (Inr type, e)" by (simp add: liftR_def)
    note run = bindM_run [of "liftR (read_type message)" e, OF this]
    show ?thesis
      using kept [OF ids.keeps_client_request [of lib]] kept [OF ids.keeps_system_request [of lib]]
        kept [OF ids.keeps_raft_message [of lib]]
      by (cases type) (simp_all add: ecall_handle_rpc_request_def run Let_def ret_def)
  qed
  then show ?thesis
  proof (elim disjE exE conjE)
    assume "ids_view (snd ?run) = ids_view e" "\<forall>len n. fst ?run = Inr (len, n) \<longrightarrow> len = - 1"
    then show ?thesis by (intro unanswered) blast+
  qed (rule response)
qed

lemma ids_handle_rpc_request:
  "ids_view (snd (ecall_handle_rpc_request lib now answer message e)) = ids_view e \<or>
   (\<exists>resp. ids_view (snd (ecall_handle_rpc_request lib now answer message e)) = ids_view (kept resp e))"
proof (cases rule: rpc_request_cases [of lib now answer message e])
  case (response resp e0)
  then have "ids_view (snd (ecall_handle_rpc_request lib now answer message e)) = ids_view (kept resp e)"
    by (simp add: ids_view_def kept_def)
  then show ?thesis by blast
qed simp

lemma ids_step:
  "ids_view (snd (run_ecall lib c e)) = ids_view e \<or>
   (\<exists>resp. ids_view (snd (run_ecall lib c e)) = ids_view (kept resp e))"
proof (cases "keeps_responses c")
  case True
  then show ?thesis using sameD [OF ids.keeps_run_ecall] by blast
next
  case False
  then obtain now answer message where "c = Handle_rpc_request now answer message"
    by (cases c) auto
  then show ?thesis
    using ids_handle_rpc_request [of lib now answer message e]
      same_tail [of ids_view "\<lambda>_. ret ()" "ecall_handle_rpc_request lib now answer message" e]
    by (simp add: no_result_def unchanged.keeps_ret)
qed

lemma uint_less_Suc: "x \<noteq> - 1 \<Longrightarrow> x < x + (1 :: uint)"
  by (simp add: word_less_nat_alt unatSuc add.commute add_eq_0_iff)

lemma ids_ok_kept:
  assumes "ids_ok e" "en_id_counter e \<noteq> - 1"
  shows "ids_ok (kept resp e)"
proof -
  have "k \<le> en_id_counter e + 1" if "map_of (en_response_buffer e) k = Some r" for k r
  proof -
    have "k \<le> en_id_counter e" using assms(1) that by (auto simp: ids_ok_def)
    with uint_less_Suc [OF assms(2)] show ?thesis by simp
  qed
  then show ?thesis
    by (auto simp: ids_ok_def kept_def find_umap_insert split: option.splits if_splits)
qed

lemma ids_ok_view: "ids_view e = ids_view e' \<Longrightarrow> ids_ok e = ids_ok e'"
  by (simp add: ids_ok_def ids_view_def)

lemma ids_run:
  assumes "ids_ok e" "unat (en_id_counter e) + length cs < 2 ^ 32"
  shows "ids_ok (run_ecalls lib cs e) \<and>
    unat (en_id_counter (run_ecalls lib cs e)) \<le> unat (en_id_counter e) + length cs"
  using assms
proof (induction cs arbitrary: e)
  case (Cons c cs)
  let ?e = "snd (run_ecall lib c e)"
  have max: "en_id_counter e \<noteq> - 1"
  proof
    assume "en_id_counter e = - 1"
    then have "unat (en_id_counter e) = 2 ^ 32 - 1" by (simp add: unsigned_minus_1_eq_mask mask_eq_exp_minus_1)
    with Cons.prems(2) show False by simp
  qed
  have "ids_ok ?e \<and> unat (en_id_counter ?e) \<le> Suc (unat (en_id_counter e))"
    using ids_step [of lib c e]
  proof
    assume view: "ids_view ?e = ids_view e"
    then show ?thesis using Cons.prems(1) ids_ok_view [OF view] by (simp add: ids_view_def)
  next
    assume "\<exists>resp. ids_view ?e = ids_view (kept resp e)"
    then obtain resp where view: "ids_view ?e = ids_view (kept resp e)" ..
    have "unat (en_id_counter e + 1) = Suc (unat (en_id_counter e))"
      using uint_less_Suc [OF max] by (rule unat_Suc_less)
    then show ?thesis
      using ids_ok_kept [OF Cons.prems(1) max, of resp] ids_ok_view [OF view] view
      by (simp add: ids_view_def kept_def)
  qed
  then show ?case
    using Cons.IH [of ?e] Cons.prems(2) by (simp add: run_ecalls_def)
qed (simp add: run_ecalls_def)

lemma ids_free:
  assumes "ids_ok e" "en_id_counter e \<noteq> - 1"
  shows "map_of (en_response_buffer e) (en_id_counter e + 1) = None"
proof (rule ccontr)
  assume "map_of (en_response_buffer e) (en_id_counter e + 1) \<noteq> None"
  then have "en_id_counter e + 1 \<le> en_id_counter e" using assms(1) by (auto simp: ids_ok_def)
  with uint_less_Suc [OF assms(2)] show False by simp
qed

section \<open>Responses are kept\<close>

text \<open>A response stays under its number, whatever is called before it is fetched.\<close>

definition kept_order :: "enclave \<Rightarrow> enclave \<Rightarrow> bool" where
  "kept_order e e' \<longleftrightarrow> map_of (en_response_buffer e) \<subseteq>\<^sub>m map_of (en_response_buffer e')"

interpretation resps: response_view kept_order lib for lib
proof unfold_locales
  fix e resp
  show "kept_order e (kept resp e)"
    by (auto simp: kept_order_def kept_def find_umap_insert map_le_def split: option.split)
qed (auto simp: kept_order_def intro: map_le_trans)

lemma response_fetched:
  assumes "ids_ok e" "en_id_counter e \<noteq> - 1"
    and "ecall_handle_rpc_request lib now answer message e = (Inr (len, n), e1)" "len \<noteq> - 1"
  obtains resp where "of_nat (length resp) = len" "map_of (en_response_buffer e) n = None"
    "\<And>cs. ecall_fetch_rpc_response n (replicate (length resp) 0) (run_ecalls lib cs e1) = (Inr (True, resp), run_ecalls lib cs e1)"
proof (cases rule: rpc_request_cases [of lib now answer message e])
  case unanswered
  then show ?thesis using assms(3,4) by simp
next
  case (response resp e0)
  have free: "map_of (en_response_buffer e) (en_id_counter e + 1) = None" using assms(1,2) by (rule ids_free)
  with response have "map_of (en_response_buffer (kept resp e0)) (en_id_counter e + 1) = Some resp"
    by (simp add: kept_def ids_view_def find_umap_insert)
  then have "map_of (en_response_buffer (run_ecalls lib cs (kept resp e0))) (en_id_counter e + 1) = Some resp" for cs
    using resps.run_ecalls_R [of "kept resp e0" lib cs] by (auto simp: kept_order_def dest: map_le_imp_Some)
  then show ?thesis
    using that [of resp] free assms(3) response(2)
    by (simp add: ecall_fetch_rpc_response_def run_simps memcpy_s_whole)
qed

end
