(* ===== verification/Leader.thy ===== *)
theory Leader
  imports Commit_Loop
begin

text \<open>
  The leader: the commit index it derives from what its peers have confirmed, the entries it
  takes from clients, and the peers it talks to after a change of the configuration.
\<close>

section \<open>The index a majority has\<close>

lemma length_filter_sorted_ge:
  assumes "sorted xs" "k < length xs"
  shows "length (filter (\<lambda>x. xs ! k \<le> x) xs) \<ge> length xs - k"
proof -
  have "filter (\<lambda>x. xs ! k \<le> x) (drop k xs) = drop k xs"
    using assms by (intro filter_True) (auto simp: in_set_conv_nth sorted_nth_mono)
  moreover have "filter P xs = filter P (take k xs) @ filter P (drop k xs)" for P
    by (metis append_take_drop_id filter_append)
  ultimately show ?thesis by simp
qed

lemma length_filter_sorted_gt:
  assumes "sorted xs" "k < length xs" "xs ! k < v"
  shows "length (filter (\<lambda>x. v \<le> x) xs) \<le> length xs - Suc k"
proof -
  have "filter (\<lambda>x. v \<le> x) (take (Suc k) xs) = []"
    unfolding filter_empty_conv
  proof
    fix x assume "x \<in> set (take (Suc k) xs)"
    then obtain j where "j \<le> k" "x = xs ! j"
      using assms(2) by (auto simp: in_set_conv_nth less_Suc_eq_le)
    then have "x \<le> xs ! k" using assms sorted_nth_mono by blast
    then show "\<not> v \<le> x" using assms(3) by simp
  qed
  moreover have "filter P xs = filter P (take (Suc k) xs) @ filter P (drop (Suc k) xs)" for P
    by (metis append_take_drop_id filter_append)
  ultimately have "length (filter (\<lambda>x. v \<le> x) xs) = length (filter (\<lambda>x. v \<le> x) (drop (Suc k) xs))"
    by simp
  also have "\<dots> \<le> length (drop (Suc k) xs)" by (rule length_filter_le)
  finally show ?thesis by simp
qed

text \<open>The last index of the leader and those its peers have confirmed.\<close>

definition known_indexes :: "raft_server \<Rightarrow> ulong list" where
  "known_indexes s = (sv_next_slot s - 1) # map (\<lambda>(_, p). pr_matched_idx p) (sv_peers s)"

definition holders :: "raft_server \<Rightarrow> ulong \<Rightarrow> nat" where
  "holders s i = length (filter (\<lambda>x. i \<le> x) (known_indexes s))"

lemma holders_sort: "holders s i = length (filter (\<lambda>x. i \<le> x) (sort (known_indexes s)))"
  unfolding holders_def by (metis filter_sort length_sort)

lemma majority_index_sort:
  "majority_index s = sort (known_indexes s) ! (length (sv_peers s) - (length (sv_peers s) + 1) div 2)"
proof -
  let ?n = "length (sv_peers s)"
  have "(?n + 1) div 2 < length (known_indexes s)" by (simp add: known_indexes_def)
  moreover have "length (known_indexes s) - Suc ((?n + 1) div 2) = ?n - (?n + 1) div 2"
    by (simp add: known_indexes_def)
  ultimately show ?thesis
    unfolding majority_index_def matched_indexes_def known_indexes_def [symmetric]
    by (simp add: rev_nth)
qed

lemma majority_index_held: "length (sv_peers s) + 1 < 2 * holders s (majority_index s)"
proof -
  let ?n = "length (sv_peers s)" and ?k = "length (sv_peers s) - (length (sv_peers s) + 1) div 2"
  have "?k < length (sort (known_indexes s))" by (simp add: known_indexes_def)
  from length_filter_sorted_ge [OF sorted_sort this]
  have "?n + 1 - ?k \<le> holders s (majority_index s)"
    unfolding holders_sort majority_index_sort by (simp add: known_indexes_def)
  then show ?thesis by linarith
qed

lemma majority_index_greatest:
  assumes "majority_index s < v"
  shows "2 * holders s v \<le> length (sv_peers s) + 1"
proof -
  let ?n = "length (sv_peers s)" and ?k = "length (sv_peers s) - (length (sv_peers s) + 1) div 2"
  have "?k < length (sort (known_indexes s))" by (simp add: known_indexes_def)
  from length_filter_sorted_gt [OF sorted_sort this assms [unfolded majority_index_sort]]
  have "holders s v \<le> ?n - ?k"
    unfolding holders_sort by (simp add: known_indexes_def)
  then show ?thesis by linarith
qed

section \<open>The commit index\<close>

interpretation quick: peer_view "same sv_quick_commit_idx"
  by unfold_locales (simp_all add: map_peer_def)

lemma commit_quick: "sv_quick_commit_idx (snd (commit i s)) = max (sv_quick_commit_idx s) i"
proof -
  define tell where "tell = for_peers (\<lambda>u.
             bindM (request_append_entries_to u) (\<lambda>sent.
             whenM (\<not> sent) (upd_peer u set_pending_commit)))"
  define rest where "rest = bindM (getM (\<lambda>s. sv_next_slot s - 1 > sv_sm_commit_index s \<and>
                      sv_quick_commit_idx s > sv_sm_commit_index s)) (\<lambda>pending.
     whenM pending (emit Notify_commit))"
  have k: "keeps (same sv_quick_commit_idx) tell" "keeps (same sv_quick_commit_idx) rest"
    unfolding tell_def rest_def
    by (intro quick.basic_intros quick.keeps_request_append_entries_to)+
  have tail: "keeps (same sv_quick_commit_idx) (bindM (whenM b tell) (\<lambda>_. rest))" for b
    by (intro quick.basic_intros k)
  have "commit i s =
    (if i > sv_quick_commit_idx s
     then bindM (whenM (sv_role s = leader) tell) (\<lambda>_. rest) (s\<lparr>sv_quick_commit_idx := i\<rparr>)
     else rest s)"
    unfolding commit_def tell_def [symmetric] rest_def [symmetric]
    by (simp add: run_simps bindM_assoc)
  with sameD [OF tail, of "sv_role s = leader" "s\<lparr>sv_quick_commit_idx := i\<rparr>"] sameD [OF k(2), of s]
  show ?thesis by (auto simp: max_def)
qed

text \<open>What the leader knows after an accepted answer of a peer.\<close>

definition confirm :: "peer \<Rightarrow> resp_msg \<Rightarrow> raft_server \<Rightarrow> raft_server" where
  "confirm p resp = map_peer (pr_uid p) (\<lambda>p. p\<lparr>pr_next_log_idx := rs_next_idx resp,
     pr_matched_idx := rs_next_idx resp - 1\<rparr>)"

lemma handle_append_entries_resp_commit:
  assumes "map_of (sv_peers s) (rs_src resp) = Some p"
  shows "sv_quick_commit_idx (snd (handle_append_entries_resp resp s)) =
    (if rs_accepted resp then max (sv_quick_commit_idx s) (majority_index (confirm p resp s))
     else sv_quick_commit_idx s)"
proof -
  have catch_up: "keeps (same sv_quick_commit_idx) (catch_up_peer u b)" for u b
    unfolding catch_up_peer_def by (intro quick.basic_intros quick.keeps_request_append_entries_to)
  have clear: "keeps (same sv_quick_commit_idx) (clear_pending u)" for u
    unfolding clear_pending_def by (intro quick.basic_intros)
  show ?thesis
  proof (cases "rs_accepted resp")
    case True
    let ?i = "majority_index (confirm p resp s)"
    define rest where "rest = bindM (clear_pending (pr_uid p)) (\<lambda>was_pending.
      bindM (getM (\<lambda>s. was_pending \<or> rs_next_idx resp < sv_next_slot s)) (catch_up_peer (pr_uid p)))"
    have "keeps (same sv_quick_commit_idx) rest"
      unfolding rest_def by (intro quick.basic_intros clear catch_up)
    then have "sv_quick_commit_idx (snd (bindM (commit ?i) (\<lambda>_. rest) (confirm p resp s))) =
        sv_quick_commit_idx (snd (commit ?i (confirm p resp s)))"
      by (rule same_tail)
    moreover have "handle_append_entries_resp resp s = bindM (commit ?i) (\<lambda>_. rest) (confirm p resp s)"
      unfolding handle_append_entries_resp_def rest_def
      using assms True by (simp add: bind_steps bindM_assoc upd_peer_def confirm_def Let_def)
    ultimately show ?thesis
      using True by (simp add: commit_quick) (simp add: confirm_def map_peer_def)
  next
    case False
    have "keeps (same sv_quick_commit_idx) (handle_append_entries_resp resp)"
      unfolding handle_append_entries_resp_def Let_def using False
      by (simp, intro quick.basic_intros catch_up)
    from sameD [OF this] False show ?thesis by simp
  qed
qed

section \<open>Entries of clients\<close>

definition printable :: "log_entry \<Rightarrow> bool" where
  "printable e \<longleftrightarrow> stored_entry e \<and> (\<exists>b m. get_buf e = Inr b \<and> get_string b = Inr m)"

definition stamp :: "ulong \<Rightarrow> log_entry \<Rightarrow> log_entry" where
  "stamp t e = e\<lparr>le_term := t\<rparr>"

lemma stored_stamp: "stored_entry e \<Longrightarrow> stored_entry (stamp t e)"
  by (simp add: stored_entry_def stamp_def)

lemma append_client_entry_run:
  assumes inv: "log_inv (sv_log_store s)" and e: "printable e" and room: "Suc (log_next (sv_log_store s)) < 2 ^ 64"
  shows "\<exists>t. append_client_entry e s = (Inr (), t) \<and>
    stores s (log_list (sv_log_store s) @ [stamp (sv_term s) e]) t"
proof -
  let ?e = "stamp (sv_term s) e"
  have "make_clone ?e = Inr ?e"
    using e stored_stamp by (simp add: printable_def)
  then obtain l where l: "append_log ?e (sv_log_store s) = (Inr (sv_next_slot s), l)" "log_inv l"
    "log_start l = log_start (sv_log_store s)" "log_list l = log_list (sv_log_store s) @ [?e]"
    using in_memory.append_law [OF inv] room by (auto simp: log_next_def)
  obtain b m c where b: "get_buf ?e = Inr b" "get_string b = Inr (m, c)"
    using e by (auto simp: printable_def stamp_def get_buf_def)
  have "append_client_entry e s =
    (Inr (), s\<lparr>sv_log_store := l, sv_state_machine := (sv_state_machine s)
       \<lparr>em_trace := em_trace (sv_state_machine s) @ [Pre_commit (next_slot l - 1) (take 64 m)]\<rparr>\<rparr>)"
    unfolding append_client_entry_def stamp_def [symmetric]
    using l(1) b by (simp add: on_log_def on_machine_def sm_pre_commit_def sm_print_def run_simps)
  with storesI [OF l(2-4), of "(sv_state_machine s)
       \<lparr>em_trace := em_trace (sv_state_machine s) @ [Pre_commit (next_slot l - 1) (take 64 m)]\<rparr>"
       "sv_config_changing s"]
  show ?thesis by simp
qed

lemma stores_state: "stores s es t \<Longrightarrow> sv_state t = sv_state s"
  by (auto simp: stores_def)

lemma append_client_entries_run:
  assumes "log_inv (sv_log_store s)" "list_all printable es" "log_next (sv_log_store s) + length es < 2 ^ 64"
  shows "\<exists>t. forM es append_client_entry s = (Inr (), t) \<and>
    stores s (log_list (sv_log_store s) @ map (stamp (sv_term s)) es) t"
  using assms
proof (induction es arbitrary: s)
  case Nil
  then show ?case by (simp add: run_simps stores_refl)
next
  case (Cons e es)
  obtain t where t: "append_client_entry e s = (Inr (), t)"
    "stores s (log_list (sv_log_store s) @ [stamp (sv_term s) e]) t"
    using append_client_entry_run [of s e] Cons.prems by auto
  note log = stores_log [OF t(2)] stores_state [OF t(2)]
  obtain u where "forM es append_client_entry t = (Inr (), u)"
    "stores t (log_list (sv_log_store s) @ map (stamp (sv_term s)) (e # es)) u"
    using Cons.IH [of t] Cons.prems log by (auto simp: log_next_def)
  with t show ?case
    by (auto simp: run_simps intro: stores_trans)
qed

interpretation log_only: commit_view "same sv_log_store"
  by unfold_locales (simp_all add: map_peer_def)

lemma handle_cli_req_log:
  assumes inv: "log_inv (sv_log_store s)" and role: "sv_role s = leader"
    and fresh: "fst (leader_expired now s) = Inr False"
    and es: "list_all printable (rq_log_entries req)" "log_next (sv_log_store s) + length (rq_log_entries req) < 2 ^ 64"
  shows "log_inv (sv_log_store (snd (handle_cli_req now req s)))"
    and "log_list (sv_log_store (snd (handle_cli_req now req s))) =
           log_list (sv_log_store s) @ map (stamp (sv_term s)) (rq_log_entries req)"
proof -
  obtain a where a: "leader_expired now s = (Inr False, a)" "sv_log_store a = sv_log_store s"
    "sv_role a = leader" "sv_state a = sv_state s"
    using fresh role
    by (cases "sv_peers s \<noteq> [] \<and> sint (sv_quorum_elapsed s) > sint (pa_election_timeout_upper_bound (sv_params s) * 2)")
       (auto simp: leader_expired_def run_simps)
  obtain b where b: "forM (rq_log_entries req) append_client_entry a = (Inr (), b)"
    "stores a (log_list (sv_log_store s) @ map (stamp (sv_term s)) (rq_log_entries req)) b"
    using append_client_entries_run [of a "rq_log_entries req"] inv es a by auto
  let ?r = "resp_msg_new (sv_term a) append_entries_response (sv_id a) (sv_leader a) 0"
  have "handle_cli_req now req s = bindM request_append_entries (\<lambda>_.
         bindM (getM sv_next_slot) (\<lambda>nxt. ret (accept nxt ?r))) b"
    unfolding handle_cli_req_def
    by (simp add: bindM_run [of "leader_expired now" s, OF a(1)] bind_steps a(3)
        bindM_run [of "forM (rq_log_entries req) append_client_entry" a, OF b(1)])
  moreover have "keeps (same sv_log_store) (bindM request_append_entries (\<lambda>_.
         bindM (getM sv_next_slot) (\<lambda>nxt. ret (accept nxt ?r))))"
    by (intro log_only.basic_intros log_only.keeps_request_append_entries)
  ultimately have log: "sv_log_store (snd (handle_cli_req now req s)) = sv_log_store b"
    using sameD by metis
  show "log_inv (sv_log_store (snd (handle_cli_req now req s)))"
    "log_list (sv_log_store (snd (handle_cli_req now req s))) =
           log_list (sv_log_store s) @ map (stamp (sv_term s)) (rq_log_entries req)"
    unfolding log using stores_log [OF b(2)] by simp_all
qed

section \<open>Changes of the configuration\<close>

abbreviation peer_ids :: "raft_server \<Rightarrow> int32 list" where
  "peer_ids s \<equiv> map fst (sv_peers s)"

definition config_ids :: "cluster_config \<Rightarrow> int32 set" where
  "config_ids c = sc_id ` set (cc_servers c)"

definition member_view :: "raft_server \<Rightarrow> int32 list \<times> int32 \<times> bool \<times> cluster_config" where
  "member_view s = (peer_ids s, sv_id s, sv_catching_up s, sv_config s)"

interpretation member: peer_view "same member_view"
  by unfold_locales (auto simp: member_view_def map_peer_def split_beta)

lemma keys_umap_insert: "set (map fst (umap_insert k v m)) = insert k (set (map fst m))"
  by (auto simp: umap_insert_def split: option.split dest: map_of_SomeD intro: rev_image_eqI)

lemma distinct_umap_insert: "distinct (map fst m) \<Longrightarrow> distinct (map fst (umap_insert k v m))"
  by (auto simp: umap_insert_def map_of_eq_None_iff split: option.split)

lemma add_peer_ids:
  "\<exists>t. add_peer srv s = (Inr (), t) \<and> set (peer_ids t) = insert (sc_id srv) (set (peer_ids s)) \<and>
     (distinct (peer_ids s) \<longrightarrow> distinct (peer_ids t)) \<and>
     sv_id t = sv_id s \<and> sv_catching_up t = sv_catching_up s"
proof -
  obtain t where t: "add_peer srv s = (Inr (), t)"
    by (rule nothrowE [OF nothrow_add_peer, of srv s]) simp
  define p where "p = (peer_new (sv_next_uid s) srv (sv_params s))\<lparr>pr_next_log_idx := sv_next_slot s\<rparr>"
  let ?s = "s\<lparr>sv_next_uid := Suc (sv_next_uid s), sv_peers := umap_insert (sc_id srv) p (sv_peers s)\<rparr>"
  define rest where "rest = bindM (getM sv_role) (\<lambda>role.
     whenM (role = leader)
       (blockM
         [upd_peer (pr_uid p) (\<lambda>p. resume_hb_speed (p\<lparr>pr_hb_enabled := True\<rparr>)),
          emit (Schedule_hb (pr_uid p) (pr_hb_interval p)),
          bindM (getM sv_srv_to_join) (\<lambda>srv_to_join.
          case srv_to_join of
            None \<Rightarrow> ret ()
          | Some j \<Rightarrow>
              whenM (pr_id j = pr_id p)
                (blockM
                  [upd_peer (pr_uid p) (\<lambda>p. p\<lparr>pr_next_log_idx := pr_next_log_idx j\<rparr>),
                   modM (\<lambda>s. s\<lparr>sv_srv_to_join := None\<rparr>)]))]))"
  have run: "add_peer srv s = rest ?s"
    unfolding add_peer_def rest_def p_def by (simp add: bind_steps)
  have "keeps (same member_view) rest"
    unfolding rest_def blockM.simps
    by (intro member.basic_intros) (simp add: member_view_def)
  from sameD [OF this, of ?s] t have "member_view t = member_view ?s"
    by (simp add: run [symmetric])
  then show ?thesis
    using t keys_umap_insert [of "sc_id srv" p "sv_peers s"] distinct_umap_insert [of "sv_peers s"]
    by (simp add: member_view_def del: set_map)
qed

lemma add_peers_ids:
  "\<exists>t. forM srvs add_peer s = (Inr (), t) \<and> set (peer_ids t) = sc_id ` set srvs \<union> set (peer_ids s) \<and>
     (distinct (peer_ids s) \<longrightarrow> distinct (peer_ids t)) \<and>
     sv_id t = sv_id s \<and> sv_catching_up t = sv_catching_up s"
proof (induction srvs arbitrary: s)
  case Nil
  show ?case by (simp add: run_simps)
next
  case (Cons srv srvs)
  obtain t where t: "add_peer srv s = (Inr (), t)" "set (peer_ids t) = insert (sc_id srv) (set (peer_ids s))"
     "distinct (peer_ids s) \<longrightarrow> distinct (peer_ids t)" "sv_id t = sv_id s" "sv_catching_up t = sv_catching_up s"
    using add_peer_ids [of srv s] by blast
  from Cons.IH [of t] show ?case
    using t by (auto simp: run_simps)
qed

lemma remove_peer_ids:
  "\<exists>t. remove_peer i s = (Inr (), t) \<and> peer_ids t = filter (\<lambda>k. k \<noteq> i) (peer_ids s) \<and>
     sv_id t = sv_id s \<and> sv_catching_up t = sv_catching_up s"
proof (cases "map_of (sv_peers s) i")
  case None
  then have "filter (\<lambda>k. k \<noteq> i) (peer_ids s) = peer_ids s"
    by (intro filter_True) (auto simp: map_of_eq_None_iff)
  with None show ?thesis by (simp add: remove_peer_def run_simps)
next
  case (Some p)
  obtain t where t: "enable_hb (pr_uid p) False s = (Inr (), t)"
    by (rule nothrowE [OF nothrow_enable_hb, of "pr_uid p" False s]) simp
  with sameD [OF member.keeps_enable_hb, of "pr_uid p" False s] have "member_view t = member_view s" by simp
  moreover have "remove_peer i s = (Inr (), t\<lparr>sv_peers := map_erase i (sv_peers t)\<rparr>)"
    using Some t by (simp add: remove_peer_def run_simps)
  moreover have "map fst (map_erase i m) = filter (\<lambda>k. k \<noteq> i) (map fst m)" for m :: "(int32 \<times> peer) list"
    by (induction m) (auto simp: map_erase_def)
  ultimately show ?thesis by (simp add: member_view_def)
qed

lemma remove_servers_ids:
  assumes "sv_id s \<notin> set is \<or> sv_catching_up s"
  shows "\<exists>t. remove_servers is c s = (Inr (), t) \<and>
     peer_ids t = filter (\<lambda>k. k \<notin> set is) (peer_ids s) \<and> sv_config t = c \<and> sv_id t = sv_id s"
  using assms
proof (induction "is" arbitrary: s)
  case Nil
  show ?case by (simp add: run_simps)
next
  case (Cons i "is")
  obtain t where t: "remove_peer i s = (Inr (), t)" "peer_ids t = filter (\<lambda>k. k \<noteq> i) (peer_ids s)"
     "sv_id t = sv_id s" "sv_catching_up t = sv_catching_up s"
    using remove_peer_ids [of i s] by blast
  have "\<not> (i = sv_id s \<and> \<not> sv_catching_up s)" using Cons.prems by auto
  with Cons.IH [of t] Cons.prems t show ?case
    by (auto simp: run_simps filter_filter conj_commute)
qed

lemma get_server_None: "get_server c i = None \<longleftrightarrow> i \<notin> config_ids c"
  by (auto simp: get_server_def config_ids_def find_None_iff)

lemma reconfigure_members:
  assumes "distinct (peer_ids s)" "sv_id s \<notin> set (peer_ids s)" "sv_id s \<in> config_ids c"
  shows "\<exists>t. reconfigure c s = (Inr (), t) \<and> distinct (peer_ids t) \<and>
    set (peer_ids t) = config_ids c - {sv_id s} \<and> sv_config t = c \<and> sv_id t = sv_id s"
proof -
  let ?added = "srvs_added s c" and ?removed = "srvs_removed s c"
  have removed: "set ?removed = set (peer_ids s) - config_ids c"
    using assms(3) by (auto simp: srvs_removed_def get_server_None)
  have added: "sc_id ` set ?added = config_ids c - set (peer_ids s) - {sv_id s}"
    by (auto simp: srvs_added_def config_ids_def map_of_eq_None_iff)
  obtain t where t: "forM ?added add_peer s = (Inr (), t)"
    "set (peer_ids t) = sc_id ` set ?added \<union> set (peer_ids s)" "distinct (peer_ids t)" "sv_id t = sv_id s"
    using add_peers_ids [of ?added s] assms(1) by blast
  obtain u where u: "remove_servers ?removed c t = (Inr (), u)"
     "peer_ids u = filter (\<lambda>k. k \<notin> set ?removed) (peer_ids t)" "sv_config u = c" "sv_id u = sv_id s"
    using remove_servers_ids [of t ?removed c] removed t(4) assms(3) by auto
  have "reconfigure c s = (Inr (), u)"
    unfolding reconfigure_def using t(1) u(1) by (simp add: run_simps)
  moreover have "set (peer_ids u) = config_ids c - {sv_id s}"
    unfolding u(2) set_filter t(2) added removed using assms(2) by blast
  moreover have "distinct (peer_ids u)" unfolding u(2) using t(3) by (rule distinct_filter)
  ultimately show ?thesis using u by blast
qed

end
