(* ===== verification/Composition.thy ===== *)
theory Composition
  imports Client Enclave_Invariants Leader
begin

text \<open>
  The parts put together: a call between two servers through the ports, the connection and
  the session; a client's log on its way into the log of the leader; what a call that the
  host reports as failed leaves behind.
\<close>

section \<open>On the wire\<close>

text \<open>What a client has written to its socket.\<close>

definition wire :: "asio_rpc_client \<Rightarrow> bytes" where
  "wire c = concat (map (\<lambda>a. case a of Write bs \<Rightarrow> bs | Write_async _ bs \<Rightarrow> bs | _ \<Rightarrow> []) (ac_actions c))"

lemma asio_send_wire:
  assumes "ac_is_open c" "map_sorted (ac_req_map c)" "length message < 2 ^ 32"
  obtains c' where "asio_send True uid message c = Inr c'" "wire c' = wire c @ frame message"
  using assms
  by (simp add: asio_send_def send_message_def find_map_put act_def wire_def frame_eq)

section \<open>A call between two servers\<close>

lemma remote_call_run:
  assumes cipher: "ctr_cipher (lb_cipher lib)" and rand: "rand_ok caller" "rand_ok callee" and req: "req_ok req"
    and handled: "on_server lib (process_req now req) callee = (Inr resp, callee')"
    and resp: "msg_type_ok (rs_type resp)"
    and ids: "ids_ok callee" "en_id_counter callee \<noteq> - 1"
    and pool: "map_sorted (en_callback_pool caller)"
  obtains message caller' reply callee'' where
    "client_send lib client req when_done caller = (Inr (), caller')"
    "en_out caller' = en_out caller @ [Send_rpc_request client message (en_last_req_uid caller + 1)]"
    "length message = 63 + length (req_body_bytes req)"
    "\<And>chunks. concat chunks = frame message \<Longrightarrow>
       session_view (fold (receive (enclave_handler lib now answer)) chunks (session_new callee)) =
         (frame reply, Some [], callee'')"
    "length reply = 44" "en_server callee'' = en_server callee'"
    "\<And>now'. ecall_rpc_response lib now' (en_last_req_uid caller + 1) reply None caller' =
       run_callback lib now' req when_done resp
         (caller'\<lparr>en_callback_pool := map_erase (ucast (en_last_req_uid caller + 1)) (en_callback_pool caller')\<rparr>)"
proof -
  let ?uid = "en_last_req_uid caller + 1"
  obtain out where out:
    "client_send lib client req when_done caller =
       (Inr (), caller\<lparr>en_draws := en_draws caller + 1, en_last_req_uid := ?uid,
          en_callback_pool := map_put (ucast ?uid) (req, when_done) (en_callback_pool caller),
          en_out := en_out caller @ [Send_rpc_request client (type_bytes raft_message @ out) ?uid]\<rparr>)"
    "raft_decrypt (lb_cipher lib) out = Inr (req_header_bytes req @ req_body_bytes req)"
    "length out = S_BLOCK_SIZE + RPC_REQ_HEADER_SIZE + length (req_body_bytes req)"
    by (rule client_send_run [OF cipher rand(1) req])
  define message where "message = type_bytes raft_message @ out"
  let ?caller = "caller\<lparr>en_draws := en_draws caller + 1, en_last_req_uid := ?uid,
          en_callback_pool := map_put (ucast ?uid) (req, when_done) (en_callback_pool caller),
          en_out := en_out caller @ [Send_rpc_request client message ?uid]\<rparr>"
  have len: "length message = 63 + length (req_body_bytes req)"
    using out(3) by (simp add: message_def type_bytes_def S_BLOCK_SIZE_def RPC_REQ_HEADER_SIZE_def)
  obtain reply where reply:
    "message_handler lib now answer message callee =
       (Inr (Some (type_bytes raft_message @ reply)),
        kept (type_bytes raft_message @ reply) (callee'\<lparr>en_draws := en_draws callee' + 1\<rparr>))"
    "raft_decrypt (lb_cipher lib) reply = Inr (resp_bytes resp)"
    "length reply = S_BLOCK_SIZE + RPC_RESP_HEADER_SIZE"
    unfolding message_def
    by (rule message_handler_run [OF cipher rand(2) req out(2) handled ids_free [OF ids]])
  define callee'' where "callee'' = kept (type_bytes raft_message @ reply) (callee'\<lparr>en_draws := en_draws callee' + 1\<rparr>)"
  have "list_all (\<lambda>m. length m < 2 ^ 32) [message]" using req len by (simp add: req_ok_def)
  moreover have "answers (enclave_handler lib now answer) [message] callee =
      Some ([type_bytes raft_message @ reply], callee'')"
    by (simp add: enclave_handler_def reply(1) callee''_def)
  ultimately have "serve (enclave_handler lib now answer) (concat (map frame [message])) callee =
      (concat (map frame [type_bytes raft_message @ reply]), Some [], callee'')"
    by (rule serve_frames)
  then have session: "session_view (fold (receive (enclave_handler lib now answer)) chunks (session_new callee)) =
      (frame (type_bytes raft_message @ reply), Some [], callee'')" if "concat chunks = frame message" for chunks
    using that by (simp add: receive_chunks)
  show ?thesis
  proof (rule that [of ?caller message "type_bytes raft_message @ reply" callee''])
    show "length (type_bytes raft_message @ reply) = 44"
      using reply(3) by (simp add: type_bytes_def S_BLOCK_SIZE_def RPC_RESP_HEADER_SIZE_def)
  next
    fix now'
    show "ecall_rpc_response lib now' ?uid (type_bytes raft_message @ reply) None ?caller =
      run_callback lib now' req when_done resp
        (?caller\<lparr>en_callback_pool := map_erase (ucast ?uid) (en_callback_pool ?caller)\<rparr>)"
      by (rule rpc_response_run [OF reply(2) resp]) (simp add: find_map_put pool)
  qed (use out(1) len session in \<open>simp_all add: message_def callee''_def kept_def\<close>)
qed

section \<open>A client's log in the log of the leader\<close>

lemma server_client_send: "keeps (same en_server) (client_send lib c req cb)"
  unfolding client_send_def encrypt_def draw_def next_req_uid_def raw_send_def ocall_def
  by (intro unchanged.keeps_intros; simp add: keeps_def modM_def)

lemma server_perform: "keeps (same en_server) (perform lib x)"
  by (cases x) (auto intro!: unchanged.keeps_intros server_client_send keeps_modM simp: ocall_def)

lemma on_server_server:
  assumes "en_server e = Some sv"
  shows "en_server (snd (on_server lib m e)) = Some ((snd (m (sv\<lparr>sv_outbox := []\<rparr>)))\<lparr>sv_outbox := []\<rparr>)"
proof -
  obtain r sv' where m: "m (sv\<lparr>sv_outbox := []\<rparr>) = (r, sv')" by fastforce
  let ?e = "e\<lparr>en_server := Some (sv'\<lparr>sv_outbox := []\<rparr>)\<rparr>"
  have "on_server lib m e = bindM (forM (sv_outbox sv') (perform lib)) (\<lambda>_. liftR r) ?e"
    using assms m by (simp add: on_server_def run_simps)
  moreover have "keeps (same en_server) (bindM (forM (sv_outbox sv') (perform lib)) (\<lambda>_. liftR r))"
    by (intro unchanged.keeps_intros server_perform)
  ultimately show ?thesis using sameD [of en_server _ ?e] m by simp
qed

lemma server_keep_response: "keeps (same en_server) (keep_response r)"
  unfolding keep_response_def by (cases r) (auto intro!: unchanged.keeps_intros keeps_modM)

lemma expired_outbox: "fst (leader_expired now (s\<lparr>sv_outbox := x\<rparr>)) = fst (leader_expired now s)"
  by (simp add: leader_expired_def run_simps quorum_elapsed_def)

text \<open>The state machine prints a log as a string, so its first byte must not end the string.\<close>

lemma client_log_printable:
  assumes "log \<noteq> []" "hd log \<noteq> 0" "length log + 8 < 2 ^ 31"
  shows "printable (log_entry_new 0 (fresh_buf (log @ replicate 8 0)) app_log)"
proof -
  have "takeWhile (\<lambda>c. c \<noteq> 0) (log @ replicate 8 0) = takeWhile (\<lambda>c. c \<noteq> 0) log"
    by (induction log) simp_all
  moreover have "takeWhile (\<lambda>c. c \<noteq> 0) log \<noteq> []" using assms(1,2) by (cases log) simp_all
  moreover have "length (takeWhile (\<lambda>c. c \<noteq> 0) log) \<le> length log" by (rule length_takeWhile_le)
  ultimately have "\<exists>m. get_string (fresh_buf (log @ replicate 8 0)) = Inr m"
    by (auto simp: get_string_def get_str_def brest_def fresh_buf_def bsize_def Let_def)
  then show ?thesis
    using assms(3) by (auto simp: printable_def stored_entry_def get_buf_def log_entry_new_def)
qed

lemma client_log_appended:
  assumes json: "lb_json_items lib (dump_array [base64_encode log]) = [base64_encode log]"
      "lb_base64_decode lib (base64_encode log) = Some log" "length log + 8 < 2 ^ 31"
    and nonempty: "log \<noteq> []" "hd log \<noteq> 0"
    and sv: "en_server e = Some sv" "log_inv (sv_log_store sv)" "sv_role sv = leader"
      "sv_leader sv = sv_id sv" "sv_id sv \<noteq> - 1" "fst (leader_expired now sv) = Inr False"
      "log_next (sv_log_store sv) + 1 < 2 ^ 64"
  obtains sv' where
    "en_server (snd (ecall_handle_rpc_request lib now answer (rb_append_entries base64_encode dump_array log) e)) = Some sv'"
    "log_inv (sv_log_store sv')"
    "log_list (sv_log_store sv') =
       log_list (sv_log_store sv) @ [log_entry_new (sv_term sv) (fresh_buf (log @ replicate 8 0)) app_log]"
proof -
  let ?buf = "fresh_buf (log @ replicate 8 0)"
  let ?req = "(req_msg_new 0 client_request 0 0 0 0 0)\<lparr>rq_log_entries := [log_entry_new 0 ?buf app_log]\<rparr>"
  let ?sv = "sv\<lparr>sv_outbox := []\<rparr>"
  let ?m = "append_entries now [?buf]"
  have "snd (?m ?sv) = snd (handle_cli_req now ?req ?sv)"
    using sv(4,5)
    by (simp add: append_entries_def send_msg_to_leader_def process_req_def run_simps whenM_def req_msg_new_def
        split: prod.split sum.split)
  moreover have "log_inv (sv_log_store (snd (handle_cli_req now ?req ?sv)))"
    "log_list (sv_log_store (snd (handle_cli_req now ?req ?sv))) =
       log_list (sv_log_store ?sv) @ map (stamp (sv_term ?sv)) (rq_log_entries ?req)"
    using handle_cli_req_log [of ?sv now ?req] sv client_log_printable [OF nonempty json(3)]
    by (simp_all add: expired_outbox)
  moreover have "en_server (snd (ecall_handle_rpc_request lib now answer (rb_append_entries base64_encode dump_array log) e)) =
      en_server (snd (on_server lib ?m e))"
    unfolding append_request_run [of lib dump_array base64_encode log now answer e, OF json]
    by (rule same_tail) (intro server_keep_response)
  ultimately show ?thesis
    using on_server_server [OF sv(1), of lib ?m]
    by (intro that [of "(snd (?m ?sv))\<lparr>sv_outbox := []\<rparr>"]) (simp_all add: stamp_def log_entry_new_def)
qed

section \<open>A call that failed outside\<close>

text \<open>
  The host reports a call that failed with a text. The callback is not run, so the peer the
  call was made for stays busy, and a busy peer is sent nothing.
\<close>

fun no_message :: "ocall \<Rightarrow> bool" where
  "no_message (Send_rpc_request _ _ _) = False"
| "no_message _ = True"

lemma busy_heartbeat:
  assumes "en_server e = Some sv" "sv_outbox sv = []" "get_peer u sv = (Inr p, sv)" "pr_busy p"
  obtains out where "run_ecall lib (Heartbeat_timer u) e = (Inr (), e\<lparr>en_out := en_out e @ out\<rparr>)"
    "list_all no_message out"
proof -
  let ?xs = "if sv_role sv = leader \<and> pr_hb_enabled p then [Schedule_hb u (pr_current_hb_interval p)] else []"
  have sv: "sv\<lparr>sv_outbox := []\<rparr> = sv" using assms(2) by simp
  have "request_append_entries_to u sv = (Inr False, sv)"
    using assms(3,4) by (simp add: request_append_entries_to_def bindM_run [of "get_peer u" sv, OF assms(3)] make_busy_def ret_def)
  then have "handle_hb_timeout u sv = (Inr (), sv\<lparr>sv_outbox := ?xs\<rparr>)"
    using assms(2,3) by (simp add: handle_hb_timeout_def run_simps whenM_def emit_def sv)
  then have "run_ecall lib (Heartbeat_timer u) e = (Inr (), e\<lparr>en_out := en_out e @ map Server_effect ?xs\<rparr>)"
    using assms(1) sv by (simp add: on_server_def run_simps ocall_def)
  then show ?thesis by (rule that) simp
qed

lemma failed_call_run:
  assumes "en_server e = Some sv" "sv_outbox sv = []" "get_peer u sv = (Inr p, sv)" "pr_busy p"
  obtains out where
    "run_ecalls lib (Rpc_response now uid msg (Some reason) # replicate n (Heartbeat_timer u)) e = e\<lparr>en_out := en_out e @ out\<rparr>"
    "list_all no_message out"
proof -
  have "\<exists>out. run_ecalls lib (replicate n (Heartbeat_timer u)) e = e\<lparr>en_out := en_out e @ out\<rparr> \<and> list_all no_message out"
    using assms(1)
  proof (induction n arbitrary: e)
    case (Suc n)
    obtain out where out: "run_ecall lib (Heartbeat_timer u) e = (Inr (), e\<lparr>en_out := en_out e @ out\<rparr>)" "list_all no_message out"
      using busy_heartbeat [OF Suc.prems assms(2-4)] .
    obtain out' where "run_ecalls lib (replicate n (Heartbeat_timer u)) (e\<lparr>en_out := en_out e @ out\<rparr>) =
        e\<lparr>en_out := en_out e @ out @ out'\<rparr>" "list_all no_message out'"
      using Suc.IH [of "e\<lparr>en_out := en_out e @ out\<rparr>"] Suc.prems by auto
    then show ?case
      using out by (intro exI [of _ "out @ out'"]) (simp add: run_ecalls_def del: run_ecall.simps)
  qed (auto simp: run_ecalls_def intro: exI [of _ "[]"])
  then show ?thesis
    using that by (auto simp: run_ecalls_def ecall_rpc_response_def ret_def)
qed

section \<open>A server whose report is rejected\<close>

lemma rejected_report_run:
  assumes "validate_verification_report lib (c_str (lb_json_string lib payload ''report'')) = Inr None"
  shows "en_server (snd (ecall_rpc_response lib now uid (type_bytes system_key_exchange_resp @ payload) None e)) = en_server e"
    "stored_keys (snd (ecall_rpc_response lib now uid (type_bytes system_key_exchange_resp @ payload) None e)) = stored_keys e"
proof -
  have type: "read_type (type_bytes system_key_exchange_resp @ payload) = Inr system_key_exchange_resp"
    by (rule read_type_bytes) (simp add: er_types_def)
  let ?run = "handle_key_xchg_resp lib now payload [] e"
  have run: "ecall_rpc_response lib now uid (type_bytes system_key_exchange_resp @ payload) None e = ?run"
    using type by (simp add: ecall_rpc_response_def handle_system_resp_def run_simps type_bytes_def)
  show "en_server (snd (ecall_rpc_response lib now uid (type_bytes system_key_exchange_resp @ payload) None e)) = en_server e"
    using assms unfolding run
    by (cases "en_key_store e")
       (auto simp: handle_key_xchg_resp_def receive_report_def with_keys_def upd_keys_def run_simps
         rpc_client_destroy_def ocall_def Let_def whenM_def split: option.split)
  show "stored_keys (snd (ecall_rpc_response lib now uid (type_bytes system_key_exchange_resp @ payload) None e)) = stored_keys e"
    using assms unfolding run
    by (cases "en_key_store e")
       (auto simp: handle_key_xchg_resp_def receive_report_def with_keys_def upd_keys_def run_simps
         rpc_client_destroy_def ocall_def Let_def whenM_def stored_keys_def split: option.split)
qed

end
