(* ===== verification/Host.thy ===== *)
theory Host
  imports Composition
begin

text \<open>
  The program around the enclave (\<^verbatim>\<open>src/raft_app\<close>): the listener and its sessions, the quote and
  the report of the attestation service, the start of the process, and the driver of the
  client program (\<^verbatim>\<open>src/client/client.cxx\<close>). What the operating system, the SGX platform and the
  network do are arguments.
\<close>

section \<open>The listener\<close>

text \<open>
  \<^verbatim>\<open>active_sessions_\<close> with whether the connection of the session has been accepted, and the
  session whose acceptance is awaited.
\<close>

record listener =
  ln_sid_counter :: uint
  ln_open :: bool
  ln_sessions :: "(uint \<times> bool) list"
  ln_waiting :: "uint option"

definition listener_new :: listener where
  "listener_new = \<lparr>ln_sid_counter = 0, ln_open = True, ln_sessions = [], ln_waiting = None\<rparr>"

definition listener_stop :: "listener \<Rightarrow> listener" where
  "listener_stop l = l\<lparr>ln_open := False\<rparr>"

definition listener_start :: "listener \<Rightarrow> listener" where
  "listener_start l =
     (if \<not> ln_open l then l\<lparr>ln_waiting := None\<rparr>
      else
        let sid = ln_sid_counter l + 1
        in l\<lparr>ln_sid_counter := sid,
             ln_sessions := (if map_of (ln_sessions l) sid = None then map_put sid False (ln_sessions l)
                             else ln_sessions l),
             ln_waiting := Some sid\<rparr>)"

definition listen :: "listener \<Rightarrow> listener" where
  "listen = listener_start"

text \<open>The completion of \<^verbatim>\<open>async_accept\<close>: a session that was not accepted stays in the list.\<close>

definition accepted :: "bool \<Rightarrow> listener \<Rightarrow> listener" where
  "accepted ok l =
     (case ln_waiting l of
        None \<Rightarrow> l
      | Some sid \<Rightarrow> listener_start (if ok then l\<lparr>ln_sessions := map_put sid True (ln_sessions l)\<rparr> else l))"

definition remove_session :: "uint \<Rightarrow> listener \<Rightarrow> listener" where
  "remove_session session_id l = l\<lparr>ln_sessions := map_erase session_id (ln_sessions l)\<rparr>"

datatype listener_event = Accept bool | Session_stops uint | Stop

text \<open>Only a session that was accepted stops.\<close>

fun run_listener :: "listener_event \<Rightarrow> listener \<Rightarrow> listener" where
  "run_listener (Accept ok) l = accepted ok l"
| "run_listener (Session_stops sid) l =
     (if map_of (ln_sessions l) sid = Some True then remove_session sid l else l)"
| "run_listener Stop l = listener_stop l"

text \<open>The numbers in use are at most the counter, and the last one is not accepted yet.\<close>

definition listener_ok :: "listener \<Rightarrow> bool" where
  "listener_ok l \<longleftrightarrow>
     map_sorted (ln_sessions l) \<and>
     (\<forall>k \<in> dom (map_of (ln_sessions l)). k \<le> ln_sid_counter l) \<and>
     (\<forall>sid. ln_waiting l = Some sid \<longrightarrow> sid = ln_sid_counter l \<and> map_of (ln_sessions l) sid = Some False)"

lemma listener_fresh:
  assumes "listener_ok l" "ln_sid_counter l \<noteq> - 1"
  shows "map_of (ln_sessions l) (ln_sid_counter l + 1) = None"
proof (rule ccontr)
  assume "map_of (ln_sessions l) (ln_sid_counter l + 1) \<noteq> None"
  then have "ln_sid_counter l + 1 \<le> ln_sid_counter l" using assms(1) by (auto simp: listener_ok_def)
  with uint_less_Suc [OF assms(2)] show False by simp
qed

lemma listener_ok_start:
  assumes "listener_ok l" "ln_sid_counter l \<noteq> - 1"
  shows "listener_ok (listener_start l)"
proof -
  have "k \<le> ln_sid_counter l + 1" if "k \<in> dom (map_of (ln_sessions l))" for k
    using assms(1) that uint_less_Suc [OF assms(2)] unfolding listener_ok_def by (meson le_less_trans less_imp_le)
  then show ?thesis
    using assms(1) listener_fresh [OF assms]
    by (auto simp: listener_ok_def listener_start_def Let_def find_map_put map_sorted_put split: if_splits)
qed

lemma listener_step:
  assumes "listener_ok l" "ln_sid_counter l \<noteq> - 1"
  shows "listener_ok (run_listener ev l)"
    "unat (ln_sid_counter (run_listener ev l)) \<le> Suc (unat (ln_sid_counter l))"
proof -
  have suc: "unat (ln_sid_counter l + 1) = Suc (unat (ln_sid_counter l))"
    using uint_less_Suc [OF assms(2)] by (rule unat_Suc_less)
  have "listener_ok (run_listener ev l) \<and> unat (ln_sid_counter (run_listener ev l)) \<le> Suc (unat (ln_sid_counter l))"
  proof (cases ev)
    case (Accept ok)
    show ?thesis
    proof (cases "ln_waiting l")
      case (Some sid)
      let ?l = "if ok then l\<lparr>ln_sessions := map_put sid True (ln_sessions l), ln_waiting := None\<rparr> else l"
      have "listener_ok ?l" "ln_sid_counter ?l = ln_sid_counter l"
        using assms(1) Some by (auto simp: listener_ok_def find_map_put map_sorted_put split: if_splits)
      moreover have "accepted ok l = listener_start ?l"
        using Some by (simp add: accepted_def listener_start_def Let_def)
      ultimately show ?thesis
        using Accept listener_ok_start [of ?l] assms(2) suc by (simp add: listener_start_def Let_def)
    qed (use Accept assms(1) in \<open>simp add: accepted_def\<close>)
  next
    case (Session_stops sid)
    then show ?thesis
      using assms(1) by (auto simp: listener_ok_def remove_session_def find_erase map_sorted_erase split: if_splits)
  next
    case Stop
    then show ?thesis using assms(1) by (simp add: listener_ok_def listener_stop_def)
  qed
  then show "listener_ok (run_listener ev l)"
    "unat (ln_sid_counter (run_listener ev l)) \<le> Suc (unat (ln_sid_counter l))" by simp_all
qed

lemma listener_run:
  assumes "listener_ok l" "unat (ln_sid_counter l) + length evs < 2 ^ 32"
  shows "listener_ok (fold run_listener evs l) \<and>
    unat (ln_sid_counter (fold run_listener evs l)) \<le> unat (ln_sid_counter l) + length evs"
  using assms
proof (induction evs arbitrary: l)
  case (Cons ev evs)
  have "ln_sid_counter l \<noteq> - 1"
  proof
    assume "ln_sid_counter l = - 1"
    then have "unat (ln_sid_counter l) = 2 ^ 32 - 1" by (simp add: unsigned_minus_1_eq_mask mask_eq_exp_minus_1)
    with Cons.prems(2) show False by simp
  qed
  note step = listener_step [OF Cons.prems(1) this, of ev]
  then have "unat (ln_sid_counter (run_listener ev l)) + length evs < 2 ^ 32" using Cons.prems(2) by simp
  with Cons.IH [OF step(1)] step(2) show ?case by simp
qed simp

section \<open>The quote of the enclave\<close>

definition SGX_SUCCESS :: uint where
  "SGX_SUCCESS = 0"

definition SGX_ERROR_BUSY :: uint where
  "SGX_ERROR_BUSY = 0x400a"

text \<open>
  What the platform does: the status of the calls of \<^verbatim>\<open>sgx_init_quote\<close> one after the other, the
  status of the call into the enclave, the key pair and the report the enclave gets, the
  size of a quote, and the quote over a report.
\<close>

record platform =
  pf_init_quote :: "nat \<Rightarrow> uint"
  pf_ecall :: uint
  pf_key_pair :: "uint + bytes \<times> bytes"
  pf_create_report :: "bytes \<Rightarrow> uint \<times> bytes"
  pf_calc_quote_size :: "uint \<times> uint"
  pf_get_quote :: "bytes \<Rightarrow> uint \<Rightarrow> uint \<times> bytes"

text \<open>The loop around \<^verbatim>\<open>sgx_init_quote\<close>, with the number of calls made.\<close>

function init_quote :: "(nat \<Rightarrow> uint) \<Rightarrow> nat \<Rightarrow> uint \<times> nat" where
  "init_quote call retry_counter =
     (let status = call retry_counter
      in if status \<noteq> SGX_ERROR_BUSY then (status, Suc retry_counter)
         else if retry_counter + 1 < 3 then init_quote call (retry_counter + 1)
         else (status, Suc retry_counter))"
  by pat_completeness auto
termination
  by (relation "measure (\<lambda>(_, n). 3 - n)") auto

declare init_quote.simps [simp del]

text \<open>The quote, or the status of the \<^verbatim>\<open>sgx_error\<close> that is thrown.\<close>

definition get_enclave_quote :: "platform \<Rightarrow> (uint + bytes) enclave_op" where
  "get_enclave_quote pf =
     (let status = fst (init_quote (pf_init_quote pf) 0)
      in if status \<noteq> SGX_SUCCESS then ret (Inl status)
         else if pf_ecall pf \<noteq> SGX_SUCCESS then ret (Inl (pf_ecall pf))
         else
           bindM (ecall_get_report (pf_key_pair pf) (pf_create_report pf)) (\<lambda>(sgx_ret, report).
           if sgx_ret \<noteq> SGX_SUCCESS then ret (Inl sgx_ret)
           else
             let (status, quote_size) = pf_calc_quote_size pf
             in if status \<noteq> SGX_SUCCESS then ret (Inl status)
                else
                  let (status, quote) = pf_get_quote pf (case report of None \<Rightarrow> [] | Some r \<Rightarrow> r) quote_size
                  in ret (if status \<noteq> SGX_SUCCESS then Inl status else Inr quote)))"

lemma init_quote_calls:
  assumes "n < 3"
  shows "snd (init_quote call n) \<le> 3" "fst (init_quote call n) = call (snd (init_quote call n) - 1)"
proof -
  have "snd (init_quote call n) \<le> 3 \<and> 0 < snd (init_quote call n) \<and>
      fst (init_quote call n) = call (snd (init_quote call n) - 1)"
    using assms
  proof (induction call n rule: init_quote.induct)
    case (1 call n)
    then show ?case unfolding init_quote.simps [of call n] by (auto simp: Let_def)
  qed
  then show "snd (init_quote call n) \<le> 3" "fst (init_quote call n) = call (snd (init_quote call n) - 1)"
    by simp_all
qed

section \<open>The attestation service\<close>

definition crlf :: bytes where
  "crlf = [13, 10]"

definition ias_host :: bytes where
  "ias_host = ascii ''api.trustedservices.intel.com''"

text \<open>\<^verbatim>\<open>IntelIAS::report\<close>: the request for a quote in base64.\<close>

definition ias_path :: "bool \<Rightarrow> bytes" where
  "ias_path production =
     (if production then ascii ''/sgx/attestation/v3/report'' else ascii ''/sgx/dev/attestation/v3/report'')"

definition ias_body :: "bytes \<Rightarrow> bytes" where
  "ias_body quote_b64 = ascii ''{'' @ [34] @ ascii ''isvEnclaveQuote'' @ [34] @ ascii '': '' @ [34] @
     quote_b64 @ [34] @ ascii ''}''"

definition ias_request :: "bool \<Rightarrow> bytes \<Rightarrow> bytes \<Rightarrow> bytes" where
  "ias_request production key quote_b64 =
     (let body = ias_body quote_b64
      in ascii ''POST '' @ ias_path production @ ascii '' HTTP/1.1'' @ crlf @
         ascii ''Host: '' @ ias_host @ crlf @
         ascii ''Content-Type: application/json'' @ crlf @
         ascii ''Ocp-Apim-Subscription-Key: '' @ key @ crlf @
         ascii ''Content-Length: '' @ decimal (length body) @ crlf @
         crlf @ body @ crlf)"

subsection \<open>Reading the response\<close>

text \<open>
  The stream comes in chunks; running out of them is an error of the connection.
  \<^verbatim>\<open>asio::read_until\<close> reads until the delimiter is in the buffer, which may then hold more.
\<close>

fun read_until :: "bytes list \<Rightarrow> bytes \<Rightarrow> (bytes \<times> bytes list) option" where
  "read_until chunks response =
     (if strstr response double_delimiter \<noteq> None then Some (response, chunks)
      else case chunks of [] \<Rightarrow> None | c # cs \<Rightarrow> read_until cs (response @ c))"

declare read_until.simps [simp del]

text \<open>
  \<^verbatim>\<open>sscanf(ptr, "Content-Length: %lu\r\n", &size_)\<close>; without a number the size is not
  initialised.
\<close>

definition scan_length :: "bytes \<Rightarrow> ulong res" where
  "scan_length ptr =
     (let s = dropWhile is_space (drop (length (ascii ''Content-Length:'')) ptr)
      in if prefix (ascii ''Content-Length:'') ptr \<and> s \<noteq> [] \<and>
            (is_digit (hd s) \<or> hd s \<in> {43, 45} \<and> tl s \<noteq> [] \<and> is_digit (hd (tl s)))
         then Inr (strtoul s) else Inl Undefined_behaviour)"

definition recv_response_header :: "bytes \<Rightarrow> ulong res" where
  "recv_response_header response =
     (let data = c_str response
      in case strstr data (ascii ''Content-Length'') of
           None \<Rightarrow> Inl Undefined_behaviour
         | Some ptr \<Rightarrow>
             rbind (scan_length ptr) (\<lambda>sz.
             case strstr data double_delimiter of
               None \<Rightarrow> Inl Undefined_behaviour
             | Some ptr \<Rightarrow> Inr (sz + of_nat (length data - length ptr) + of_nat (length double_delimiter))))"

fun recv_response_body :: "bytes list \<Rightarrow> bytes \<Rightarrow> ulong \<Rightarrow> bytes res" where
  "recv_response_body chunks response sz =
     (if length response < unat sz then
        (case chunks of [] \<Rightarrow> Inl Runtime_error | c # cs \<Rightarrow> recv_response_body cs (response @ c) sz)
      else Inr response)"

declare recv_response_body.simps [simp del]

text \<open>\<^verbatim>\<open>ssl_client::request\<close>, once the request has been sent.\<close>

definition ssl_response :: "bytes list \<Rightarrow> bytes res" where
  "ssl_response chunks =
     (case read_until chunks [] of
        None \<Rightarrow> Inl Runtime_error
      | Some (response, chunks) \<Rightarrow>
          rbind (recv_response_header response) (\<lambda>sz.
          rbind (recv_response_body chunks response sz) (\<lambda>response.
          Inr (take (unat sz) response))))"

text \<open>
  \<^verbatim>\<open>IntelIAS::report\<close> with its \<^verbatim>\<open>ssl_client\<close>: \<open>network\<close> gives the chunks that come back for a request,
  none when connecting, the handshake or sending fails.
\<close>

definition ias_report :: "bool \<Rightarrow> bytes \<Rightarrow> (bytes \<Rightarrow> bytes list) \<Rightarrow> bytes \<Rightarrow> bytes res" where
  "ias_report production key network quote_b64 = ssl_response (network (ias_request production key quote_b64))"

subsection \<open>The chunks make no difference\<close>

lemma strstr_split:
  assumes "strstr s needle = Some r"
  obtains u where "s = u @ r" "prefix needle r"
proof -
  have "\<exists>u. s = u @ r \<and> prefix needle r"
    using assms by (induction s) (auto split: if_splits intro: exI [of _ "_ # _"])
  then show ?thesis using that by blast
qed

lemma strstr_append: "strstr s needle = Some r \<Longrightarrow> strstr (s @ x) needle = Some (r @ x)"
proof (induction s)
  case Nil
  then show ?case by (cases x) (auto split: if_splits)
next
  case (Cons c s)
  show ?case
  proof (cases "prefix needle (c # s)")
    case True
    moreover from this have "prefix needle (c # s @ x)" using prefix_prefix [of needle "c # s" x] by simp
    ultimately show ?thesis using Cons.prems by auto
  next
    case False
    then have r: "strstr s needle = Some r" using Cons.prems by simp
    then obtain u where "s = u @ r" "prefix needle r" by (rule strstr_split)
    then have "length needle \<le> length (c # s)" using prefix_length_le by fastforce
    then have "\<not> prefix needle (c # s @ x)" using False prefix_length_prefix [of needle "c # s @ x" "c # s"] by auto
    then show ?thesis using Cons.IH [OF r] by simp
  qed
qed

lemma strstr_delimiter:
  assumes "strstr (head @ [13, 10, 13]) double_delimiter = None"
  shows "strstr (head @ double_delimiter @ x) double_delimiter = Some (double_delimiter @ x)"
  using assms
proof (induction head)
  case Nil
  then show ?case by (simp add: double_delimiter_def)
next
  case (Cons c head)
  have "length double_delimiter \<le> length (c # head @ [13, 10, 13])" by (simp add: double_delimiter_def)
  then have "\<not> prefix double_delimiter (c # head @ double_delimiter @ x)"
    using Cons.prems prefix_length_prefix [of double_delimiter "c # head @ double_delimiter @ x" "c # head @ [13, 10, 13]"]
    by (auto simp: double_delimiter_def split: if_splits)
  then show ?case using Cons by (simp split: if_splits)
qed

lemma read_until_ends:
  assumes "strstr (response @ concat chunks) double_delimiter \<noteq> None"
  obtains response' chunks' where "read_until chunks response = Some (response', chunks')"
    "response' @ concat chunks' = response @ concat chunks" "strstr response' double_delimiter \<noteq> None"
proof -
  have "\<exists>response' chunks'. read_until chunks response = Some (response', chunks') \<and>
      response' @ concat chunks' = response @ concat chunks \<and> strstr response' double_delimiter \<noteq> None"
    using assms
  proof (induction chunks arbitrary: response)
    case Nil
    then show ?case by (subst read_until.simps) simp
  next
    case (Cons c cs)
    show ?case
    proof (cases "strstr response double_delimiter = None")
      case True
      then have "read_until (c # cs) response = read_until cs (response @ c)" by (subst read_until.simps) simp
      then show ?thesis using Cons.IH [of "response @ c"] Cons.prems by simp
    next
      case False
      then show ?thesis by (subst read_until.simps) simp
    qed
  qed
  then show ?thesis using that by blast
qed

lemma recv_response_body_whole:
  assumes "unat sz = length (response @ concat chunks)"
  shows "recv_response_body chunks response sz = Inr (response @ concat chunks)"
  using assms
proof (induction chunks arbitrary: response)
  case Nil
  then show ?case by (subst recv_response_body.simps) simp
next
  case (Cons c cs)
  then have "recv_response_body cs (response @ c) sz = Inr (response @ concat (c # cs))"
    by simp
  moreover have "concat (c # cs) = []" if "\<not> length response < unat sz"
    using that Cons.prems by (simp del: length_concat)
  ultimately show ?case by (subst recv_response_body.simps) auto
qed

lemma response_header_run:
  assumes "strstr (head @ [13, 10, 13]) double_delimiter = None" "0 \<notin> set head"
    and "strstr head (ascii ''Content-Length'') = Some (ascii ''Content-Length: '' @ decimal n @ 13 # rest)"
    and "length head + 4 + n < 2 ^ 64"
  shows "\<exists>sz. recv_response_header (head @ double_delimiter @ x) = Inr sz \<and> unat sz = length head + 4 + n"
proof -
  let ?x = "takeWhile (\<lambda>c. c \<noteq> 0) x"
  let ?tail = "13 # rest @ double_delimiter @ ?x"
  have data: "c_str (head @ double_delimiter @ x) = head @ double_delimiter @ ?x"
    using assms(2) by (simp add: c_str_def takeWhile_append double_delimiter_def)
  have ptr: "strstr (head @ double_delimiter @ ?x) (ascii ''Content-Length'') =
      Some (ascii ''Content-Length: '' @ decimal n @ ?tail)"
    using strstr_append [OF assms(3), of "double_delimiter @ ?x"] by simp
  obtain c ds where c: "decimal n = c # ds" using decimal_nonempty by (cases "decimal n") auto
  have "is_digit c" using decimal_digits [of n] by (simp add: c)
  moreover from this have "\<not> is_space c" by (auto simp: is_digit_def is_space_def word_le_nat_alt)
  moreover have "\<not> is_digit 13" "is_space 32" by (simp_all add: is_digit_def is_space_def)
  ultimately have "scan_length (ascii ''Content-Length: '' @ decimal n @ ?tail) = Inr (of_nat n)"
    using strtoul_decimal [of n ?tail] assms(4) by (simp add: scan_length_def c ascii_def Let_def)
  then have "recv_response_header (head @ double_delimiter @ x) =
      Inr (of_nat n + of_nat (length head) + of_nat (length double_delimiter))"
    using strstr_delimiter [OF assms(1), of ?x] by (simp add: recv_response_header_def data ptr Let_def)
  moreover have "unat (of_nat n + of_nat (length head) + of_nat (length double_delimiter) :: ulong) =
      unat (of_nat (length head + 4 + n) :: ulong)"
    by (simp add: double_delimiter_def algebra_simps)
  moreover have "\<dots> = length head + 4 + n"
    using assms(4) by (simp only: unat_of_nat) (simp add: take_bit_nat_eq_self)
  ultimately show ?thesis by auto
qed

lemma ssl_response_whole:
  assumes "concat chunks = head @ double_delimiter @ body"
    and "strstr (head @ [13, 10, 13]) double_delimiter = None" "0 \<notin> set head"
    and "strstr head (ascii ''Content-Length'') = Some (ascii ''Content-Length: '' @ decimal (length body) @ 13 # rest)"
    and "length head + 4 + length body < 2 ^ 64"
  shows "ssl_response chunks = Inr (head @ double_delimiter @ body)"
proof -
  let ?s = "head @ double_delimiter @ body"
  have found: "strstr ?s double_delimiter = Some (double_delimiter @ body)"
    using assms(2) by (rule strstr_delimiter)
  then obtain response chunks' where run: "read_until chunks [] = Some (response, chunks')"
    "response @ concat chunks' = ?s" "strstr response double_delimiter \<noteq> None"
    using read_until_ends [of "[]" chunks] assms(1) by auto
  then obtain r where r: "strstr response double_delimiter = Some r" by blast
  then obtain u where u: "response = u @ r" "prefix double_delimiter r" by (rule strstr_split)
  have "r @ concat chunks' = double_delimiter @ body"
    using strstr_append [OF r, of "concat chunks'"] found run(2) by simp
  moreover from this have "u = head" using run(2) u(1) by simp
  ultimately obtain x where "response = head @ double_delimiter @ x"
    using u by (auto simp: prefix_def)
  with response_header_run [OF assms(2-5), of x]
  obtain sz where sz: "recv_response_header response = Inr sz" "unat sz = length ?s"
    by (auto simp: double_delimiter_def)
  moreover have "recv_response_body chunks' response sz = Inr ?s"
    using recv_response_body_whole [of sz response chunks'] sz(2) run(2) by simp
  ultimately show ?thesis using run(1) by (simp add: ssl_response_def)
qed

end
