(* ===== verification/Cluster.thy ===== *)
theory Cluster
  imports Events
begin

text \<open>
  A cluster: one server per member, and the set of all responses sent so far. In a step one
  member handles any event but a join request, where a response must have been sent to it;
  requests, timers and errors may come at any time and in any order, responses may be lost,
  repeated and reordered, and a handler that ends in an exception leaves the server in the
  state it had reached. The membership is fixed: a step may not change the ids of the peers.
  Terms and the counter of votes are machine words, so a term must be left to open and the
  members must be fewer than the counter can hold. The result is election safety: no term
  has two leaders.
\<close>

section \<open>Quorums\<close>

locale quorum_system =
  fixes quorum :: "'p set \<Rightarrow> bool"
  assumes intersect: "quorum Q \<Longrightarrow> quorum R \<Longrightarrow> Q \<inter> R \<noteq> {}"
begin

text \<open>Two candidates with quorums behind them are one, if nobody supports two.\<close>

lemma unique_choice:
  assumes "quorum {p. chose p a}" "quorum {p. chose p b}"
    and "\<And>p. chose p a \<Longrightarrow> chose p b \<Longrightarrow> a = b"
  shows "a = b"
  using intersect [OF assms(1,2)] assms(3) by blast

end

definition majority :: "'p set \<Rightarrow> 'p set \<Rightarrow> bool" where
  "majority M Q \<longleftrightarrow> finite M \<and> card M < 2 * card (Q \<inter> M)"

interpretation majority: quorum_system "majority M" for M
proof
  fix Q R :: "'a set"
  assume "majority M Q" "majority M R"
  then have fin: "finite M" and q: "card M < 2 * card (Q \<inter> M)" "card M < 2 * card (R \<inter> M)"
    by (simp_all add: majority_def)
  show "Q \<inter> R \<noteq> {}"
  proof
    assume "Q \<inter> R = {}"
    then have "card (Q \<inter> M) + card (R \<inter> M) = card ((Q \<inter> M) \<union> (R \<inter> M))"
      using fin by (subst card_Un_disjoint) auto
    also have "\<dots> \<le> card M"
      using fin by (intro card_mono) auto
    finally show False using q by simp
  qed
qed

section \<open>A cluster of servers\<close>

type_synonym cluster = "(int32 \<Rightarrow> raft_server) \<times> resp_msg set"

definition members_ok :: "int32 set \<Rightarrow> int32 \<Rightarrow> raft_server \<Rightarrow> bool" where
  "members_ok M i s \<longleftrightarrow> distinct (map fst (sv_peers s)) \<and> set (map fst (sv_peers s)) = M - {i}"

fun deliverable :: "int32 \<Rightarrow> resp_msg set \<Rightarrow> event \<Rightarrow> bool" where
  "deliverable i net (Rpc_result _ _ _ _ (Inr resp)) = (resp \<in> net \<and> rs_dst resp = i)"
| "deliverable i net _ = True"

definition answered :: "resp_msg option res \<Rightarrow> resp_msg set" where
  "answered r = (case r of Inr (Some resp) \<Rightarrow> {resp} | _ \<Rightarrow> {})"

inductive cluster_step :: "int32 set \<Rightarrow> cluster \<Rightarrow> cluster \<Rightarrow> bool" for M where
  event: "i \<in> M \<Longrightarrow> \<not> joins e \<Longrightarrow> deliverable i net e \<Longrightarrow>
     (e = Election_timeout \<longrightarrow> sv_term (srv i) \<noteq> - 1) \<Longrightarrow>
     run_event e (srv i) = (r, s') \<Longrightarrow> members_ok M i s' \<Longrightarrow>
     cluster_step M (srv, net) (srv(i := s'), net \<union> answered r)"

definition cluster_start :: "int32 set \<Rightarrow> cluster \<Rightarrow> bool" where
  "cluster_start M c \<longleftrightarrow> (case c of (srv, net) \<Rightarrow> net = {} \<and>
     (\<forall>i\<in>M. sv_id (srv i) = i \<and> members_ok M i (srv i) \<and> sv_role (srv i) = follower \<and>
             sv_votes_granted (srv i) = 0 \<and> sv_voted_servers (srv i) = []))"

inductive reachable :: "int32 set \<Rightarrow> cluster \<Rightarrow> bool" for M where
  init: "cluster_start M c \<Longrightarrow> reachable M c"
| next_step: "reachable M c \<Longrightarrow> cluster_step M c c' \<Longrightarrow> reachable M c'"

inductive_cases cluster_stepE: "cluster_step M (srv, net) c'"

section \<open>Responses that grant a vote\<close>

definition accepted_vote :: "resp_msg set \<Rightarrow> int32 \<Rightarrow> ulong \<Rightarrow> int32 \<Rightarrow> bool" where
  "accepted_vote net j t c \<longleftrightarrow>
     (\<exists>m\<in>net. rs_type m = request_vote_response \<and> rs_accepted m \<and> rs_src m = j \<and>
              rs_term m = t \<and> rs_dst m = c)"

definition cast_vote :: "raft_server \<Rightarrow> ulong \<Rightarrow> int32 \<Rightarrow> bool" where
  "cast_vote s t c \<longleftrightarrow> t < sv_term s \<or> t = sv_term s \<and> sv_voted_for s = c"

lemma cast_vote_kept: "vote_kept s t \<Longrightarrow> cast_vote s k c \<Longrightarrow> c \<noteq> - 1 \<Longrightarrow> cast_vote t k c"
  by (auto simp: vote_kept_def cast_vote_def)

text \<open>Only a vote request is answered with a vote response.\<close>

definition no_vote :: "resp_msg \<Rightarrow> bool" where
  "no_vote resp \<longleftrightarrow> rs_type resp \<noteq> request_vote_response"

lemma no_vote_new [simp]: "no_vote (resp_msg_new t ty src dst i) \<longleftrightarrow> ty \<noteq> request_vote_response"
  by (simp add: no_vote_def resp_msg_new_def)

lemma no_vote_accept [simp]: "no_vote (accept i resp) \<longleftrightarrow> no_vote resp"
  by (simp add: no_vote_def accept_def)

lemma results_getM_bind:
  "(\<And>s. results P (f (g s))) \<Longrightarrow> results P (bindM (getM g) f)"
  by (auto simp: results_def run_simps)

lemma results_accept_at_next_slot: "no_vote resp \<Longrightarrow> results no_vote (accept_at_next_slot resp)"
  unfolding accept_at_next_slot_def by (intro results_intros) simp

lemma results_exit_throw: "results P exit_throw"
  unfolding exit_throw_def by (intro results_intros)

lemmas no_vote_intros = results_getM_bind results_intros results_accept_at_next_slot results_exit_throw

lemma no_vote_process_req:
  assumes "rq_type req \<noteq> request_vote_request"
  shows "results no_vote (process_req now req)"
proof -
  have "results no_vote (handle_append_entries req)" "results no_vote (handle_cli_req now req)"
    "results no_vote (handle_add_srv_req req)" "results no_vote (handle_rm_srv_req req)"
    "results no_vote (handle_log_sync_req req)" "results no_vote (handle_join_cluster_req req)"
    "results no_vote (handle_leave_cluster_req req)" "results no_vote (handle_install_snapshot_req req)"
    unfolding handle_append_entries_def handle_cli_req_def handle_add_srv_req_def
      handle_rm_srv_req_def handle_log_sync_req_def handle_join_cluster_req_def
      handle_leave_cluster_req_def handle_install_snapshot_req_def
    by (intro no_vote_intros; simp)+
  then show ?thesis
    unfolding process_req_def handle_extended_msg_def using assms
    by (cases "rq_type req") (auto intro!: results_bindM_all results_exit_throw)
qed


section \<open>The invariant\<close>

definition supporters :: "cluster \<Rightarrow> int32 \<Rightarrow> int32 set" where
  "supporters c i = (case c of (srv, net) \<Rightarrow>
     {j. j \<in> set (sv_voted_servers (srv i)) \<and>
         (j = i \<and> sv_voted_for (srv i) = i \<or> accepted_vote net j (sv_term (srv i)) i)})"

definition tally_ok :: "int32 set \<Rightarrow> cluster \<Rightarrow> int32 \<Rightarrow> bool" where
  "tally_ok M c i \<longleftrightarrow>
     set (sv_voted_servers (fst c i)) \<subseteq> M \<and> distinct (sv_voted_servers (fst c i)) \<and>
     sint (sv_votes_granted (fst c i)) \<le> int (card (supporters c i)) \<and>
     (sv_role (fst c i) = leader \<longrightarrow> int (card M div 2) < sint (sv_votes_granted (fst c i)))"

definition cluster_inv :: "int32 set \<Rightarrow> cluster \<Rightarrow> bool" where
  "cluster_inv M c \<longleftrightarrow> (case c of (srv, net) \<Rightarrow>
     (\<forall>i\<in>M. sv_id (srv i) = i \<and> members_ok M i (srv i) \<and> tally_ok M c i) \<and>
     (\<forall>m\<in>net. rs_type m = request_vote_response \<longrightarrow> rs_src m \<in> M) \<and>
     (\<forall>j t k. accepted_vote net j t k \<longrightarrow> k \<noteq> - 1 \<longrightarrow> cast_vote (srv j) t k) \<and>
     (\<forall>j t k k'. accepted_vote net j t k \<longrightarrow> accepted_vote net j t k' \<longrightarrow>
        k \<noteq> - 1 \<longrightarrow> k' \<noteq> - 1 \<longrightarrow> k = k'))"

text \<open>The bounds under which counting votes in an \<^verbatim>\<open>int32\<close> is exact.\<close>

definition cluster_ok :: "int32 set \<Rightarrow> bool" where
  "cluster_ok M \<longleftrightarrow> finite M \<and> card M < 2 ^ 31 - 1 \<and> - 1 \<notin> M"

lemma length_peers:
  assumes "cluster_ok M" "members_ok M i s" "i \<in> M"
  shows "length (sv_peers s) + 1 = card M"
proof -
  have "length (sv_peers s) = card (M - {i})"
    using assms(2) distinct_card [of "map fst (sv_peers s)"] unfolding members_ok_def by simp
  moreover have "Suc (card (M - {i})) = card M"
    using assms unfolding cluster_ok_def by (intro card_Suc_Diff1) simp_all
  ultimately show ?thesis by simp
qed

lemma accepted_vote_mono: "accepted_vote net j t k \<Longrightarrow> net \<subseteq> net' \<Longrightarrow> accepted_vote net' j t k"
  by (auto simp: accepted_vote_def)

lemma finite_supporters: "finite (supporters c i)"
  by (auto simp: supporters_def split: prod.split)

text \<open>A server that did not act keeps its tally: the network only grows.\<close>

lemma tally_ok_other:
  assumes "tally_ok M (srv, net) j" "j \<noteq> i" "net \<subseteq> net'"
  shows "tally_ok M (srv(i := s'), net') j"
proof -
  have "supporters (srv, net) j \<subseteq> supporters (srv(i := s'), net') j"
    using assms by (auto simp: supporters_def intro: accepted_vote_mono)
  then have "card (supporters (srv, net) j) \<le> card (supporters (srv(i := s'), net') j)"
    by (rule card_mono [OF finite_supporters])
  then show ?thesis using assms by (auto simp: tally_ok_def)
qed

text \<open>The server that acted, when the tally is untouched or reset.\<close>

lemma tally_ok_ballot_order:
  assumes "tally_ok M (srv, net) i" "ballot_order (srv i) s'" "net \<subseteq> net'"
  shows "tally_ok M (srv(i := s'), net') i"
proof -
  have "sv_state s' = sv_state (srv i) \<Longrightarrow> sv_voted_servers s' = sv_voted_servers (srv i) \<Longrightarrow>
      supporters (srv, net) i \<subseteq> supporters (srv(i := s'), net') i"
    using assms(3) by (auto simp: supporters_def intro: accepted_vote_mono)
  then have "sv_state s' = sv_state (srv i) \<Longrightarrow> sv_voted_servers s' = sv_voted_servers (srv i) \<Longrightarrow>
      card (supporters (srv, net) i) \<le> card (supporters (srv(i := s'), net') i)"
    by (intro card_mono finite_supporters)
  then show ?thesis
    using assms(1,2) unfolding ballot_order_def by (auto simp: tally_ok_def)
qed


lemma tally_ok_vote:
  assumes tally: "tally_ok M (srv(i := u), net) i" and "i \<noteq> - 1" "net \<subseteq> net'"
    and vote: "handle_vote_req req u = (r, s')"
  shows "tally_ok M (srv(i := s'), net') i"
proof -
  note same = handle_vote_req_ballot [OF vote]
  have "supporters (srv(i := u), net) i \<subseteq> supporters (srv(i := s'), net') i"
    using same(4,5,6) assms(2,3) by (auto simp: supporters_def intro: accepted_vote_mono)
  then have "card (supporters (srv(i := u), net) i) \<le> card (supporters (srv(i := s'), net') i)"
    by (rule card_mono [OF finite_supporters])
  with tally show ?thesis
    using same(2,3,4) by (auto simp: tally_ok_def)
qed

lemma supporters_members:
  assumes "tally_ok M (srv, net) i" "cluster_ok M"
  shows "sint (sv_votes_granted (srv i)) < 2 ^ 31 - 1"
proof -
  have "supporters (srv, net) i \<subseteq> M"
    using assms(1) by (auto simp: tally_ok_def supporters_def)
  then have "card (supporters (srv, net) i) \<le> card M"
    using assms(2) unfolding cluster_ok_def by (intro card_mono) simp_all
  then show ?thesis
    using assms unfolding tally_ok_def cluster_ok_def by simp
qed

lemma sint_incr:
  fixes v :: int32
  assumes "sint v < 2 ^ 31 - 1"
  shows "sint (v + 1) = sint v + 1"
proof -
  have one: "sint (1 :: int32) = 1" by simp
  have "- (2 ^ 31) \<le> sint v" using sint_ge [of v] by simp
  with assms show ?thesis
    using sint_add_int32 [of v 1] one by simp
qed

lemma tally_ok_response:
  assumes ok: "cluster_ok M" and i: "i \<in> M" and tally: "tally_ok M (srv(i := u), net) i"
    and len: "length (sv_peers u) + 1 = card M"
    and resp: "resp \<in> net" "rs_type resp = request_vote_response" "rs_dst resp = i" "rs_src resp \<in> M"
  shows "tally_ok M (srv(i := snd (handle_voting_resp resp u)), net) i"
proof -
  let ?t = "snd (handle_voting_resp resp u)"
  let ?votes = "sv_votes_granted u + (if rs_accepted resp then 1 else 0)"
  consider "ballot_view ?t = ballot_view u"
    | role where "rs_term resp = sv_term u" "rs_src resp \<notin> set (sv_voted_servers u)"
        "ballot_view ?t = (sv_id u, sv_state u, role, ?votes, rs_src resp # sv_voted_servers u)"
        "role = sv_role u \<or> role = leader \<and> sint ?votes > sint (of_nat ((length (sv_peers u) + 1) div 2) :: int32)"
    using handle_voting_resp_ballot [of resp u] by blast
  then show ?thesis
  proof cases
    case 1
    then have "ballot_order u ?t"
      by (simp add: ballot_order_def ballot_view_def)
    then show ?thesis
      using tally_ok_ballot_order [of M "srv(i := u)" net i ?t net] tally by simp
  next
    case 2
    have votes: "sint ?votes = sint (sv_votes_granted u) + (if rs_accepted resp then 1 else 0)"
      using supporters_members [OF tally ok] sint_incr [of "sv_votes_granted u"] by simp
    have "card (supporters (srv(i := u), net) i) + (if rs_accepted resp then 1 else 0) \<le>
          card (supporters (srv(i := ?t), net) i)"
    proof -
      have new: "rs_src resp \<notin> supporters (srv(i := u), net) i"
        using 2(2) by (simp add: supporters_def)
      have "supporters (srv(i := u), net) i \<union> (if rs_accepted resp then {rs_src resp} else {})
          \<subseteq> supporters (srv(i := ?t), net) i"
        using 2(1,3) resp by (auto simp: supporters_def ballot_view_def accepted_vote_def)
      then have "card (supporters (srv(i := u), net) i \<union> (if rs_accepted resp then {rs_src resp} else {}))
          \<le> card (supporters (srv(i := ?t), net) i)"
        by (intro card_mono finite_supporters)
      then show ?thesis
        using new finite_supporters [of "(srv(i := u), net)" i] by (simp split: if_splits)
    qed
    moreover have "role = leader \<longrightarrow> int (card M div 2) < sint ?votes"
    proof
      assume l: "role = leader"
      have "card M < 2 ^ 31 - 1" using ok by (simp add: cluster_ok_def)
      then have "card M div 2 < 2 ^ 31" by linarith
      then have "sint (of_nat ((length (sv_peers u) + 1) div 2) :: int32) = int (card M div 2)"
        unfolding len by (rule sint_of_nat_int32)
      then show "int (card M div 2) < sint ?votes"
        using l 2(4) tally votes by (auto simp: tally_ok_def)
    qed
    moreover have "sv_voted_servers ?t = rs_src resp # sv_voted_servers u" "sv_role ?t = role"
      "sv_votes_granted ?t = ?votes"
      using 2(3) by (simp_all add: ballot_view_def)
    ultimately show ?thesis
      using tally 2(2) votes resp(4) unfolding tally_ok_def by auto
  qed
qed

lemma tally_ok_election:
  assumes ok: "cluster_ok M" and i: "i \<in> M" "sv_id (srv i) = i" "members_ok M i (srv i)"
    and t: "ballot_view t = ballot_view (snd (start_election (srv i)))"
  shows "tally_ok M (srv(i := t), net) i"
proof -
  have len: "length (sv_peers (srv i)) + 1 = card M"
    using length_peers ok i by blast
  obtain role where role: "ballot_view t =
      (i, \<lparr>st_term = sv_term (srv i) + 1, st_voted_for = i\<rparr>, role, 1, [i])"
    "role = candidate \<or> role = leader \<and> sint (1 :: int32) > sint (of_nat (card M) :: int32) sdiv 2"
    using start_election_ballot [of "srv i"] t i(2) unfolding len by metis
  have "supporters (srv(i := t), net) i = {i}"
    using role(1) by (auto simp: supporters_def ballot_view_def)
  moreover have "role = leader \<longrightarrow> int (card M div 2) < 1"
  proof -
    have "card M < 2 ^ 31" using ok by (simp add: cluster_ok_def)
    then have "sint (of_nat (card M) :: int32) = int (card M)" by (rule sint_of_nat_int32)
    then show ?thesis using role(2) by (cases "card M = 0") (auto simp: signed_divide_int_def zdiv_int)
  qed
  ultimately show ?thesis
    using role(1) i(1) by (auto simp: tally_ok_def ballot_view_def)
qed


section \<open>Every step keeps it\<close>

lemma accepted_vote_new:
  "accepted_vote (net \<union> answered r) j t k \<longleftrightarrow>
   accepted_vote net j t k \<or>
   (\<exists>m. r = Inr (Some m) \<and> rs_type m = request_vote_response \<and> rs_accepted m \<and> rs_src m = j \<and>
        rs_term m = t \<and> rs_dst m = k)"
  by (auto simp: accepted_vote_def answered_def split: sum.splits option.splits)

text \<open>A step in which the server gives no answer to a vote request.\<close>

lemma cluster_inv_quiet:
  assumes inv: "cluster_inv M (srv, net)" and i: "i \<in> M"
    and kept: "vote_kept (srv i) s'" and members: "members_ok M i s'"
    and tally: "tally_ok M (srv(i := s'), net \<union> answered r) i"
    and quiet: "\<And>m. r = Inr (Some m) \<Longrightarrow> no_vote m"
  shows "cluster_inv M (srv(i := s'), net \<union> answered r)"
proof -
  have old: "accepted_vote (net \<union> answered r) j t k \<longleftrightarrow> accepted_vote net j t k" for j t k
    using quiet by (auto simp: accepted_vote_new no_vote_def)
  have src: "\<forall>m \<in> net \<union> answered r. rs_type m = request_vote_response \<longrightarrow> rs_src m \<in> M"
    using inv quiet by (auto simp: cluster_inv_def answered_def no_vote_def split: sum.splits option.splits)
  have "tally_ok M (srv(i := s'), net \<union> answered r) j" if "j \<in> M" for j
    using inv that tally tally_ok_other [of M srv net j i] by (cases "j = i") (auto simp: cluster_inv_def)
  moreover have "cast_vote ((srv(i := s')) j) t k" if "accepted_vote net j t k" "k \<noteq> - 1" for j t k
    using inv that kept cast_vote_kept [of "srv i" s'] by (auto simp: cluster_inv_def)
  ultimately show ?thesis
    using inv i kept members src by (auto simp: cluster_inv_def old vote_kept_def)
qed

text \<open>A vote request.\<close>

lemma cluster_inv_vote:
  assumes ok: "cluster_ok M" and inv: "cluster_inv M (srv, net)" and i: "i \<in> M"
    and u: "ballot_order (srv i) u" and vote: "handle_vote_req req u = (r', s')"
    and r: "r = (case r' of Inl e \<Rightarrow> Inl e | Inr resp \<Rightarrow> Inr (Some resp))"
    and members: "members_ok M i s'"
  shows "cluster_inv M (srv(i := s'), net \<union> answered r)"
proof -
  note same = handle_vote_req_ballot [OF vote]
  have id: "sv_id s' = i"
    using inv i u same(1) by (auto simp: cluster_inv_def ballot_order_def)
  have kept: "vote_kept (srv i) u" "vote_kept u s'"
    using u vote vote_kept_handle_vote_req [of u req] by (auto simp: ballot_order_vote_kept)
  have old: "cast_vote u t k" if "accepted_vote net i t k" "k \<noteq> - 1" for t k
    using inv that kept(1) cast_vote_kept by (auto simp: cluster_inv_def)
  have resp: "rs_src m = i \<and> rs_dst m = rq_src req \<and> rs_term m = sv_term u \<and>
      (rs_accepted m \<longrightarrow> sv_voted_for s' = rq_src req)" if "r = Inr (Some m)" for m
    using that r same(7) [of m] same(1) id by (auto split: sum.splits)
  have new: "k = rq_src req \<and> j = i \<and> t = sv_term u \<and> sv_voted_for s' = rq_src req \<or> accepted_vote net j t k"
    if "accepted_vote (net \<union> answered r) j t k" for j t k
    using that resp by (auto simp: accepted_vote_new)
  have tally: "tally_ok M (srv(i := s'), net \<union> answered r) j" if "j \<in> M" for j
  proof (cases "j = i")
    case True
    have "tally_ok M (srv(i := u), net) i"
      using inv i u tally_ok_ballot_order [of M srv net i u net] by (auto simp: cluster_inv_def)
    moreover have "i \<noteq> - 1" using ok i by (auto simp: cluster_ok_def)
    ultimately show ?thesis
      using True tally_ok_vote [of M srv i u net "net \<union> answered r", OF _ _ _ vote] by simp
  next
    case False
    then show ?thesis
      using inv that tally_ok_other [of M srv net j i] by (auto simp: cluster_inv_def)
  qed
  have cast: "cast_vote ((srv(i := s')) j) t k" if "accepted_vote (net \<union> answered r) j t k" "k \<noteq> - 1" for j t k
    using new [OF that(1)]
  proof
    assume "k = rq_src req \<and> j = i \<and> t = sv_term u \<and> sv_voted_for s' = rq_src req"
    then show ?thesis using same(5) by (simp add: cast_vote_def)
  next
    assume "accepted_vote net j t k"
    then show ?thesis
      using inv old cast_vote_kept [OF kept(2)] that(2) by (auto simp: cluster_inv_def)
  qed
  have unique: "k = k'"
    if "accepted_vote (net \<union> answered r) j t k" "accepted_vote (net \<union> answered r) j t k'" "k \<noteq> - 1" "k' \<noteq> - 1"
    for j t k k'
  proof (cases "accepted_vote net j t k \<and> accepted_vote net j t k'")
    case True
    then show ?thesis using inv that by (auto simp: cluster_inv_def)
  next
    case False
    then have "j = i" "t = sv_term u"
      using new [OF that(1)] new [OF that(2)] by auto
    then show ?thesis
      using cast [OF that(1,3)] cast [OF that(2,4)] same(5) by (auto simp: cast_vote_def)
  qed
  have src: "\<forall>m \<in> net \<union> answered r. rs_type m = request_vote_response \<longrightarrow> rs_src m \<in> M"
    using inv resp i by (auto simp: cluster_inv_def answered_def split: sum.splits option.splits)
  show ?thesis
    unfolding cluster_inv_def prod.case
    using inv i id members tally cast unique src
    by (intro conjI ballI allI impI) (auto simp: cluster_inv_def)
qed


lemma length_peers_upd [simp]: "length (sv_peers (map_peer u g s)) = length (sv_peers s)"
  by (simp add: map_peer_def)

text \<open>A response to a vote request.\<close>

lemma rpc_vote_response:
  assumes "rs_type resp = request_vote_response"
  shows "ballot_order s (snd (on_rpc_result now u req Resp_handler (Inr resp) s)) \<or>
    (\<exists>v. ballot_view v = ballot_view s \<and> length (sv_peers v) = length (sv_peers s) \<and>
         snd (on_rpc_result now u req Resp_handler (Inr resp) s) = snd (handle_voting_resp resp v))"
proof (cases "get_peer u s")
  case (Pair r s0)
  then have s0: "s0 = s"
    by (auto simp: get_peer_def run_simps split: option.splits)
  show ?thesis
  proof (cases r)
    case (Inl e)
    then show ?thesis
      using Pair s0 by (simp add: on_rpc_result_def run_bindM ballot_order_def)
  next
    case (Inr p)
    define v where "v = map_peer u (rpc_done req False) s"
    define w where "w = (case map_of (sv_peers v) (rs_src resp) of
        None \<Rightarrow> v | Some p \<Rightarrow> map_peer (pr_uid p) (\<lambda>p. p\<lparr>pr_last_resp := now\<rparr>) v)"
    have w: "ballot_view w = ballot_view s" "length (sv_peers w) = length (sv_peers s)"
      by (auto simp: w_def v_def ballot.f_peer split: option.split)
    have run: "on_rpc_result now u req Resp_handler (Inr resp) s =
      bindM (update_term (rs_term resp)) (\<lambda>updated.
        if updated then ret () else handle_voting_resp resp) w"
      using Pair s0 Inr assms
      by (simp add: on_rpc_result_def bindM_run [of "get_peer u" s p s] upd_peer_def bind_steps
          handle_peer_resp_def w_def v_def split: option.split cong: if_cong)
    show ?thesis
    proof (cases "sv_term w < rs_term resp")
      case True
      obtain t where t: "update_term (rs_term resp) w = (Inr True, t)"
        using update_term_newer(1) [OF True] by (metis prod.collapse)
      have "ballot_order w t"
        using ballot_update_term [of "rs_term resp"] t by (metis keeps_def snd_conv)
      then have "ballot_order s t"
        using w(1) by (simp add: ballot_order_def ballot_view_def)
      then show ?thesis
        unfolding run using t by (simp add: bindM_run run_ret)
    next
      case False
      then have "update_term (rs_term resp) w = (Inr False, w)"
        by (intro update_term_older) simp
      then have "on_rpc_result now u req Resp_handler (Inr resp) s = handle_voting_resp resp w"
        unfolding run by (simp add: run_bindM)
      with w show ?thesis by auto
    qed
  qed
qed


lemma answered_no_response [simp]: "answered (fst (no_response m s)) = {}"
  by (simp add: answered_def no_response_def run_simps split: prod.split sum.split)

lemma cluster_inv_step:
  assumes ok: "cluster_ok M" and inv: "cluster_inv M (srv, net)" and i: "i \<in> M"
    and e: "\<not> joins e" "deliverable i net e" "e = Election_timeout \<longrightarrow> sv_term (srv i) \<noteq> - 1"
    and run: "run_event e (srv i) = (r, s')" and members: "members_ok M i s'"
  shows "cluster_inv M (srv(i := s'), net \<union> answered r)"
proof -
  have kept: "vote_kept (srv i) s'"
    using vote_kept_event [of e "srv i"] e run by simp
  have tally: "tally_ok M (srv, net) i" and id: "sv_id (srv i) = i" "members_ok M i (srv i)"
    using inv i by (simp_all add: cluster_inv_def)
  consider (vote) now req where "e = Request now req" "rq_type req = request_vote_request"
    | (response) now u req resp where "e = Rpc_result now u req Resp_handler (Inr resp)"
        "rs_type resp = request_vote_response"
    | (timeout) "e = Election_timeout"
    | (other) "\<not> is_vote_request e" "\<not> is_vote_response e" "e \<noteq> Election_timeout"
    by (cases e rule: is_vote_response.cases) auto
  then show ?thesis
  proof cases
    case vote
    obtain u where u: "ballot_order (srv i) u" "process_req now req (srv i) = handle_vote_req req u"
      using process_vote_req vote(2) by blast
    obtain r' where r': "handle_vote_req req u = (r', s')"
        "r = (case r' of Inl e \<Rightarrow> Inl e | Inr resp \<Rightarrow> Inr (Some resp))"
      using run vote(1) u(2) by (auto simp: run_simps split: prod.splits sum.splits)
    show ?thesis
      by (rule cluster_inv_vote [OF ok inv i u(1) r' members])
  next
    case response
    have net: "net \<union> answered r = net"
      using run response(1) answered_no_response [of _ "srv i"] by (metis fst_conv run_event.simps(5) sup_bot_right)
    have s': "s' = snd (on_rpc_result now u req Resp_handler (Inr resp) (srv i))"
      using run response(1) by (auto simp: no_response_def run_simps split: prod.splits sum.splits)
    have src: "resp \<in> net" "rs_dst resp = i" "rs_src resp \<in> M"
      using e(2) inv response by (auto simp: cluster_inv_def)
    have "tally_ok M (srv(i := s'), net) i"
      using rpc_vote_response [OF response(2), of "srv i" now u req]
    proof
      assume "ballot_order (srv i) (snd (on_rpc_result now u req Resp_handler (Inr resp) (srv i)))"
      then show ?thesis
        using tally_ok_ballot_order [OF tally] s' by blast
    next
      assume "\<exists>v. ballot_view v = ballot_view (srv i) \<and> length (sv_peers v) = length (sv_peers (srv i)) \<and>
         snd (on_rpc_result now u req Resp_handler (Inr resp) (srv i)) = snd (handle_voting_resp resp v)"
      then obtain v where v: "ballot_view v = ballot_view (srv i)" "length (sv_peers v) = length (sv_peers (srv i))"
         "s' = snd (handle_voting_resp resp v)"
        using s' by blast
      have "ballot_order (srv i) v"
        using v(1) by (simp add: ballot_order_def ballot_view_def)
      then have "tally_ok M (srv(i := v), net) i"
        using tally_ok_ballot_order [OF tally] by blast
      moreover have "length (sv_peers v) + 1 = card M"
        using v(2) length_peers [OF ok id(2) i] by simp
      ultimately show ?thesis
        using tally_ok_response [OF ok i _ _ src(1) response(2) src(2,3)] v(3) by blast
    qed
    then show ?thesis
      using cluster_inv_quiet [OF inv i kept members, of "Inr None"] net
      by (simp add: answered_def)
  next
    case timeout
    have net: "net \<union> answered r = net"
      using run timeout answered_no_response [of _ "srv i"] by (metis fst_conv run_event.simps(6) sup_bot_right)
    have s': "s' = snd (handle_election_timeout (srv i))"
      using run timeout by (auto simp: no_response_def run_simps split: prod.splits sum.splits)
    have "tally_ok M (srv(i := s'), net) i"
      using election_timeout_ballot [of "srv i"]
    proof
      assume "ballot_view (snd (handle_election_timeout (srv i))) = ballot_view (srv i)"
      then have "ballot_order (srv i) s'"
        unfolding s' by (simp add: ballot_order_def ballot_view_def)
      then show ?thesis
        using tally_ok_ballot_order [OF tally] by blast
    next
      assume "ballot_view (snd (handle_election_timeout (srv i))) = ballot_view (snd (start_election (srv i)))"
      then show ?thesis
        using tally_ok_election [of M i srv s' net] ok i id s' by simp
    qed
    then show ?thesis
      using cluster_inv_quiet [OF inv i kept members, of "Inr None"] net
      by (simp add: answered_def)
  next
    case other
    have "ballot_order (srv i) s'"
      using ballot_event [OF e(1) other] run by (metis keeps_def snd_conv)
    then have "tally_ok M (srv(i := s'), net \<union> answered r) i"
      using tally_ok_ballot_order [OF tally] by blast
    moreover have "no_vote m" if "r = Inr (Some m)" for m
    proof (cases e)
      case (Request now req)
      then show ?thesis
        using run that other(1) resultsD [OF no_vote_process_req, of req now "srv i" m s']
        by (auto simp: run_simps split: prod.splits sum.splits)
    qed (use run that in \<open>auto simp: no_response_def run_simps split: prod.splits sum.splits\<close>)
    ultimately show ?thesis
      by (intro cluster_inv_quiet [OF inv i kept members])
  qed
qed

lemma cluster_inv_start: "cluster_start M c \<Longrightarrow> cluster_inv M c"
  by (auto simp: cluster_start_def cluster_inv_def tally_ok_def accepted_vote_def)

lemma reachable_inv:
  assumes "cluster_ok M" "reachable M c"
  shows "cluster_inv M c"
  using assms(2)
proof (induction rule: reachable.induct)
  case (init c)
  then show ?case by (rule cluster_inv_start)
next
  case (next_step c c')
  from next_step.hyps(2) next_step.IH show ?case
    by (cases rule: cluster_step.cases) (blast intro: cluster_inv_step [OF assms(1)])
qed


section \<open>Election safety\<close>

lemma leader_majority:
  assumes ok: "cluster_ok M" and inv: "cluster_inv M (srv, net)" and i: "i \<in> M" "sv_role (srv i) = leader"
  shows "majority M (supporters (srv, net) i)"
proof -
  have tally: "tally_ok M (srv, net) i"
    using inv i by (simp add: cluster_inv_def)
  then have "supporters (srv, net) i \<inter> M = supporters (srv, net) i"
    by (auto simp: tally_ok_def supporters_def)
  moreover have "int (card M div 2) < int (card (supporters (srv, net) i))"
    using tally i(2) by (simp add: tally_ok_def)
  ultimately show ?thesis
    using ok unfolding majority_def cluster_ok_def by simp
qed

lemma supporters_unique:
  assumes ok: "cluster_ok M" and inv: "cluster_inv M (srv, net)" and "i \<in> M" "k \<in> M"
    and same: "sv_term (srv i) = sv_term (srv k)"
    and j: "j \<in> supporters (srv, net) i" "j \<in> supporters (srv, net) k"
  shows "i = k"
proof -
  have ids: "i \<noteq> - 1" "k \<noteq> - 1"
    using ok assms by (auto simp: cluster_ok_def)
  have cast: "accepted_vote net j t c \<Longrightarrow> c \<noteq> - 1 \<Longrightarrow> cast_vote (srv j) t c"
    and uniq: "accepted_vote net j t c \<Longrightarrow> accepted_vote net j t c' \<Longrightarrow> c \<noteq> - 1 \<Longrightarrow> c' \<noteq> - 1 \<Longrightarrow> c = c'"
    for t c c'
    using inv unfolding cluster_inv_def prod.case by blast+
  from j have "j = i \<and> sv_voted_for (srv i) = i \<or> accepted_vote net j (sv_term (srv i)) i"
    "j = k \<and> sv_voted_for (srv k) = k \<or> accepted_vote net j (sv_term (srv i)) k"
    using same by (auto simp: supporters_def)
  then show ?thesis
    using cast [of "sv_term (srv i)" i] cast [of "sv_term (srv i)" k] uniq ids same
    by (auto simp: cast_vote_def)
qed

lemma leaders_agree:
  assumes ok: "cluster_ok M" and "cluster_inv M (srv, net)" "i \<in> M" "k \<in> M"
    and "sv_role (srv i) = leader" "sv_role (srv k) = leader" "sv_term (srv i) = sv_term (srv k)"
  shows "i = k"
proof -
  have "majority M {j. j \<in> supporters (srv, net) i}" "majority M {j. j \<in> supporters (srv, net) k}"
    using leader_majority [of M srv net] assms by simp_all
  then show ?thesis
    by (rule majority.unique_choice [where chose = "\<lambda>j i. j \<in> supporters (srv, net) i"])
       (rule supporters_unique [OF assms(1-4,7)])
qed

end
