(* ===== verification/Log_Matching.thy ===== *)
theory Log_Matching
  imports Replication
begin

text \<open>
  Replication between two servers: the request a leader builds for a peer
  (\<^verbatim>\<open>create_append_entries_req\<close>), handled by the follower, makes the follower's log agree with
  the leader's up to the last entry of the request, and keeps the log matching property:
  logs with an entry of the same index and term have the same entries before it.
\<close>

section \<open>Logs by index\<close>

definition log_at :: "log_store \<Rightarrow> nat \<Rightarrow> log_entry option" where
  "log_at l i = (if log_start l \<le> i \<and> i < log_next l then Some (log_list l ! (i - log_start l)) else None)"

definition log_match :: "log_store \<Rightarrow> log_store \<Rightarrow> bool" where
  "log_match l k \<longleftrightarrow>
     (\<forall>i d e. log_at l i = Some d \<longrightarrow> log_at k i = Some e \<longrightarrow> le_term d = le_term e \<longrightarrow>
        (\<forall>j\<le>i. \<forall>d e. log_at l j = Some d \<longrightarrow> log_at k j = Some e \<longrightarrow> d = e))"

lemma log_matchD:
  "log_match l k \<Longrightarrow> log_at l i = Some d \<Longrightarrow> log_at k i = Some e \<Longrightarrow> le_term d = le_term e \<Longrightarrow>
   j \<le> i \<Longrightarrow> log_at l j = Some d' \<Longrightarrow> log_at k j = Some e' \<Longrightarrow> d' = e'"
  unfolding log_match_def by blast

lemma log_match_sym: "log_match l k \<Longrightarrow> log_match k l"
  unfolding log_match_def by (metis)

lemma match_length_nth:
  "i < match_length old new \<Longrightarrow> le_term (old ! i) = le_term (new ! i)"
proof (induction old new arbitrary: i rule: match_length.induct)
  case (1 d old e new)
  then show ?case by (cases i) (auto split: if_splits)
qed simp_all

text \<open>The entries of the merged log.\<close>

lemma merged_at:
  fixes l k p es
  defines "n \<equiv> match_length (drop (Suc p - log_start l) (log_list l)) es"
  assumes l: "log_start l \<le> Suc p" "p < log_next l"
    and k: "log_start k = log_start l"
      "log_list k = (let m = Suc p - log_start l in take m (log_list l) @ merge_entries (drop m (log_list l)) es)"
  shows "log_at k i =
    (if i \<le> p + n \<or> n = length es then log_at l i
     else if i \<le> p + length es then Some (es ! (i - Suc p)) else None)"
proof (cases "n = length es")
  case True
  then have "log_list k = log_list l"
    using k(2) by (simp add: merge_entries_match Let_def n_def)
  then show ?thesis using True k(1) by (simp add: log_at_def log_next_def)
next
  case False
  let ?m = "Suc p - log_start l"
  have n: "n \<le> length (log_list l) - ?m" "n \<le> length es"
    using match_length_le [of "drop ?m (log_list l)" es] by (simp_all add: n_def)
  have "log_list k = take (?m + n) (log_list l) @ drop n es"
    using False k(2) by (simp add: merge_entries_match Let_def n_def take_add)
  moreover have "log_start l + (?m + n) = Suc p + n" "?m + n \<le> length (log_list l)"
    using l n by (simp_all add: log_next_def)
  ultimately have "log_list k = take (?m + n) (log_list l) @ drop n es" and
    len: "length (log_list k) = ?m + length es" and b: "log_start l + (?m + n) = Suc p + n" "?m + n \<le> length (log_list l)"
    using n by simp_all
  moreover have "i - log_start l - (?m + n) + n = i - Suc p" if "Suc p + n \<le> i"
    using that b l by simp
  ultimately show ?thesis
    using False l n k(1)
    by (auto simp: log_at_def log_next_def nth_append min_def add.commute)
qed

section \<open>Replication keeps logs matching\<close>

text \<open>
  The situation between a leader and a follower: matching logs, a slice of the leader's log
  after an index \<open>p\<close> at which the two agree on the term, and the follower's log once it has
  merged the slice.
\<close>

definition replication :: "log_store \<Rightarrow> log_store \<Rightarrow> nat \<Rightarrow> log_entry list \<Rightarrow> log_store \<Rightarrow> bool" where
  "replication lead flw p es merged \<longleftrightarrow>
     log_match lead flw \<and>
     log_start flw \<le> Suc p \<and> p < log_next flw \<and> log_start lead \<le> Suc p \<and>
     (\<forall>j<length es. log_at lead (Suc p + j) = Some (es ! j)) \<and>
     (log_start lead \<le> p \<longrightarrow> log_start flw \<le> p \<longrightarrow>
       (\<exists>d e. log_at lead p = Some d \<and> log_at flw p = Some e \<and> le_term d = le_term e)) \<and>
     log_start merged = log_start flw \<and>
     log_list merged = (let m = Suc p - log_start flw in
       take m (log_list flw) @ merge_entries (drop m (log_list flw)) es)"

abbreviation matched :: "log_store \<Rightarrow> nat \<Rightarrow> log_entry list \<Rightarrow> nat" where
  "matched flw p es \<equiv> match_length (drop (Suc p - log_start flw) (log_list flw)) es"

lemma replicationD:
  assumes "replication lead flw p es merged"
  shows "log_match lead flw" "log_start flw \<le> Suc p" "p < log_next flw"
    "log_start lead \<le> Suc p" "log_start merged = log_start flw"
    "j < length es \<Longrightarrow> log_at lead (Suc p + j) = Some (es ! j)"
    "log_start lead \<le> p \<Longrightarrow> log_start flw \<le> p \<Longrightarrow>
      \<exists>d e. log_at lead p = Some d \<and> log_at flw p = Some e \<and> le_term d = le_term e"
  using assms unfolding replication_def by blast+

lemma replication_at:
  assumes "replication lead flw p es merged"
  shows "log_at merged i =
    (if i \<le> p + matched flw p es \<or> matched flw p es = length es then log_at flw i
     else if i \<le> p + length es then Some (es ! (i - Suc p)) else None)"
  using assms merged_at [of flw p merged es i] unfolding replication_def by blast

text \<open>The part of the follower's log that is kept agrees with the leader's.\<close>

lemma replication_kept:
  assumes r: "replication lead flw p es merged"
    and i: "i \<le> p + matched flw p es" "log_at lead i = Some d" "log_at flw i = Some e"
  shows "d = e"
proof (cases "i \<le> p")
  case True
  with i have "log_start lead \<le> p" "log_start flw \<le> p"
    by (auto simp: log_at_def split: if_splits)
  from replicationD(7) [OF r this] obtain d' e' where "log_at lead p = Some d'"
    "log_at flw p = Some e'" "le_term d' = le_term e'" by blast
  from log_matchD [OF replicationD(1) [OF r] this True i(2,3)] show ?thesis .
next
  case False
  define j where "j = i - Suc p"
  with False i(1) have j: "i = Suc p + j" "j < matched flw p es" by simp_all
  have "j < length es"
    using order.strict_trans2 [OF j(2) match_length_le(2)] .
  then have d: "d = es ! j"
    using replicationD(6) [OF r, of j] i(2) j(1) by simp
  have "i - log_start flw = Suc p - log_start flw + j"
    using j replicationD(2) [OF r] by simp
  then have e: "e = drop (Suc p - log_start flw) (log_list flw) ! j"
    using i(3) replicationD(2,3) [OF r] by (auto simp: log_at_def log_next_def split: if_splits)
  have "le_term d = le_term e"
    using match_length_nth [OF j(2)] d e by simp
  from log_matchD [OF replicationD(1) [OF r] i(2,3) this order_refl i(2,3)] show ?thesis .
qed

lemma replication_agree:
  assumes r: "replication lead flw p es merged"
    and i: "i \<le> p + length es" "log_start lead \<le> i" "log_start flw \<le> i"
  shows "log_at merged i = log_at lead i"
proof (cases "i \<le> p + matched flw p es")
  case True
  obtain d where d: "log_at lead i = Some d"
  proof (cases "i \<le> p")
    case True
    then have "log_start lead \<le> p" "log_start flw \<le> p" using i by simp_all
    from replicationD(7) [OF r this] True i that show ?thesis by (auto simp: log_at_def split: if_splits)
  next
    case False
    then show ?thesis using replicationD(6) [OF r, of "i - Suc p"] i that by simp
  qed
  have "matched flw p es \<le> length (log_list flw) - (Suc p - log_start flw)"
    using match_length_le(1) [of "drop (Suc p - log_start flw) (log_list flw)" es] by simp
  then have "i < log_next flw"
    using True replicationD(2,3) [OF r] i(3) by (simp add: log_next_def)
  then obtain e where "log_at flw i = Some e"
    using i(3) by (simp add: log_at_def)
  with d replication_kept [OF r True d] show ?thesis by (simp add: replication_at [OF r] True)
next
  case False
  with match_length_le(2) i(1) have "matched flw p es \<noteq> length es" by auto
  with False replicationD(6) [OF r, of "i - Suc p"] i(1) show ?thesis by (simp add: replication_at [OF r])
qed

lemma replication_match:
  assumes r: "replication lead flw p es merged"
  shows "log_match lead merged"
  unfolding log_match_def
proof (intro allI impI)
  fix i d e j d' e'
  assume i: "log_at lead i = Some d" "log_at merged i = Some e" "le_term d = le_term e" and j: "j \<le> i"
    "log_at lead j = Some d'" "log_at merged j = Some e'"
  show "d' = e'"
  proof (cases "matched flw p es = length es")
    case True
    then have "log_at merged i = log_at flw i" for i by (simp add: replication_at [OF r])
    then show ?thesis using log_matchD [OF replicationD(1) [OF r] i(1) _ i(3) j(1,2)] i j by simp
  next
    case False
    with i(2) match_length_le(2) [of _ es] have "i \<le> p + length es"
      by (auto simp: replication_at [OF r] split: if_splits intro: order_trans [OF _ add_left_mono])
    moreover have "log_start lead \<le> j" "log_start flw \<le> j"
      using j replicationD(5) [OF r] by (auto simp: log_at_def split: if_splits)
    ultimately show ?thesis using replication_agree [OF r, of j] j by simp
  qed
qed

section \<open>The request a leader builds\<close>

text \<open>
  The entries of a request to a peer: those from the peer's next index on, at most
  \<^verbatim>\<open>max_append_size_\<close> of them.
\<close>

definition batch :: "raft_server \<Rightarrow> nat \<Rightarrow> log_entry list" where
  "batch s i = take (unat (pa_max_append_size (sv_params s)))
     (drop (i - log_start (sv_log_store s)) (log_list (sv_log_store s)))"

lemma nonneg_int32:
  fixes m :: int32
  assumes "0 \<le> sint m"
  shows "unat m < 2 ^ 31" "int32_to_ulong m = of_nat (unat m)"
proof -
  have "sint m < 2 ^ 31" using sint_lt [of m] by simp
  then have "nat (sint m) < 2 ^ 31" using assms by (simp add: nat_less_iff)
  moreover have "m = of_nat (nat (sint m))" using assms by simp
  ultimately obtain k where k: "k < 2 ^ 31" "m = of_nat k" by blast
  then have "unat m = k" by (simp add: unat_of_nat take_bit_nat_eq_self)
  then show "unat m < 2 ^ 31" "int32_to_ulong m = of_nat (unat m)"
    using k int32_to_ulong_of_nat [of k] by simp_all
qed

lemma create_append_entries_req_run:
  fixes s u
  defines "l \<equiv> sv_log_store s"
  assumes inv: "log_inv l" and p: "get_peer u s = (Inr p, s)"
    and nxt: "pr_next_log_idx p = of_nat (Suc q)" "Suc q \<le> log_next l" "log_start l \<le> Suc q"
    and size: "0 \<le> sint (pa_max_append_size (sv_params s))" "log_next l + 2 ^ 31 < 2 ^ 64"
    and prev: "term_for_log (of_nat q) s = (Inr t, s)"
  shows "create_append_entries_req u s =
    (Inr ((req_msg_new (sv_term s) append_entries_request (sv_id s) (pr_id p) t (of_nat q)
             (sv_quick_commit_idx s))\<lparr>rq_log_entries := batch s (Suc q)\<rparr>), s)"
proof -
  let ?m = "pa_max_append_size (sv_params s)"
  let ?stop = "min (next_slot l) (of_nat q + 1 + int32_to_ulong ?m)"
  have q: "Suc q < 2 ^ 64" using nxt(2) size(2) by simp
  have m: "unat ?m < 2 ^ 31" "int32_to_ulong ?m = of_nat (unat ?m)"
    using nonneg_int32 [OF size(1)] by simp_all
  have uq: "unat (of_nat q + 1 :: ulong) = Suc q" "unat (of_nat q :: ulong) = q"
    using q unat_of_nat_ulong [of "Suc q"] unat_of_nat_ulong [of q] by (simp_all add: add.commute)
  have slot: "unat (next_slot l) = log_next l" by (rule next_slot_log [OF inv])
  have e: "unat ?stop = min (log_next l) (Suc q + unat ?m)"
  proof -
    have "of_nat q + 1 + int32_to_ulong ?m = of_nat (Suc q + unat ?m)" by (simp add: m(2))
    moreover have "Suc q + unat ?m < 2 ^ 64" using m(1) nxt(2) size(2) by simp
    ultimately have "unat (of_nat q + 1 + int32_to_ulong ?m) = Suc q + unat ?m"
      by (simp only: unat_of_nat_ulong)
    then show ?thesis by (simp add: min_def word_le_nat_alt slot)
  qed
  have start: "unat (start_index l) = log_start l" by (simp add: start_index_def log_start_def)
  have nz: "pr_next_log_idx p \<noteq> 0" "pr_next_log_idx p - 1 = of_nat q"
    using nxt(1) of_nat_ulong_eq_iff [OF q, of 0] by simp_all
  have lt: "\<not> of_nat q \<ge> next_slot l"
    using nxt(2) uq(2) by (simp add: word_le_nat_alt slot)
  have full: "\<not> (of_nat q > (0::ulong) \<and> of_nat q < start_index l - 1)"
  proof -
    have "start_index l = of_nat (log_start l)" by (simp add: start_index_def log_start_def)
    then have "start_index l - 1 = of_nat (log_start l - 1)"
      using in_memory.bounds [OF inv] by (simp add: of_nat_diff)
    moreover have "log_start l - 1 < 2 ^ 64" using in_memory.bounds [OF inv] by linarith
    ultimately have "unat (start_index l - 1) = log_start l - 1" by simp
    then show ?thesis using nxt(3) uq(2) by (auto simp: word_less_nat_alt)
  qed
  let ?read = "if of_nat q + 1 \<ge> next_slot l then ret [] else read_log (log_entries (of_nat q + 1) ?stop)"
  have entries: "?read s = (Inr (batch s (Suc q)), s)"
  proof (cases "Suc q < log_next l")
    case True
    have "log_entries (of_nat q + 1) ?stop l =
        Inr (take (unat ?stop - Suc q) (drop (Suc q - log_start l) (log_list l)))"
      using inv nxt(3) e uq(1)
      by (elim log_invE) (simp add: log_entries_rep log_next_def)
    moreover have "take (unat ?stop - Suc q) (drop (Suc q - log_start l) (log_list l)) = batch s (Suc q)"
    proof -
      have "unat ?stop - Suc q = min (length (drop (Suc q - log_start l) (log_list l))) (unat ?m)"
        unfolding e using True nxt(3) by (auto simp: log_next_def min_def)
      then show ?thesis by (simp add: batch_def l_def min_def)
    qed
    moreover have "\<not> of_nat q + 1 \<ge> next_slot l"
      using True uq(1) by (simp add: word_le_nat_alt slot)
    ultimately show ?thesis by (simp add: read_log_def run_simps l_def)
  next
    case False
    then have "of_nat q + 1 \<ge> next_slot l"
      using uq(1) by (simp add: word_le_nat_alt slot)
    moreover have "batch s (Suc q) = []"
      using False by (simp add: batch_def l_def log_next_def)
    ultimately show ?thesis by (simp add: run_simps)
  qed
  show ?thesis
    unfolding create_append_entries_req_def
    by (simp only: bind_steps bindM_run [of "get_peer u" s, OF p] Let_def nz whenM_def if_False lt full
        bindM_run [of "term_for_log (of_nat q)" s, OF prev] l_def [symmetric] bindM_run [of ?read s, OF entries] run_ret)
qed

lemma batch_at:
  assumes "log_start (sv_log_store s) \<le> i" "j < length (batch s i)"
  shows "log_at (sv_log_store s) (i + j) = Some (batch s i ! j)"
  using assms by (auto simp: batch_def log_at_def log_next_def)

lemma term_for_log_at:
  assumes inv: "log_inv (sv_log_store s)" and q: "0 < q" "log_start (sv_log_store s) \<le> q" "q < log_next (sv_log_store s)"
    and t: "term_for_log (of_nat q) s = (Inr t, s)"
  shows "\<exists>d. log_at (sv_log_store s) q = Some d \<and> le_term d = t"
proof -
  have u: "unat (of_nat q :: ulong) = q"
    using q in_memory.bounds [OF inv] by (intro unat_of_nat_ulong) (simp add: log_next_def)
  have "(of_nat q :: ulong) \<noteq> 0" "of_nat q \<ge> sv_start_index s"
    using q u by (auto simp: word_le_nat_alt start_index_def log_start_def)
  with t term_at_log [OF inv, of "of_nat q"] show ?thesis
    using q u by (simp add: term_for_log_def run_simps read_log_def log_at_def)
qed

section \<open>A round of replication\<close>

lemma replication_round:
  fixes s f :: raft_server
  defines "l \<equiv> sv_log_store s" and "k \<equiv> sv_log_store f"
  assumes leader: "log_inv l" "get_peer u s = (Inr p, s)" "pr_next_log_idx p = of_nat (Suc q)"
      "Suc q \<le> log_next l" "log_start l \<le> Suc q" "0 \<le> sint (pa_max_append_size (sv_params s))"
      "log_next l + 2 ^ 31 < 2 ^ 64" "term_for_log (of_nat q) s = (Inr t, s)"
    and flw: "log_inv k" "sv_term f \<le> sv_term s" "sv_term s = sv_term f \<Longrightarrow> sv_role f \<noteq> leader"
      "holds_prev f (of_nat q) t" "list_all sayable (log_list k)" "log_next k + 2 ^ 31 < 2 ^ 64"
    and both: "list_all sayable (log_list l)" "log_match l k"
  obtains req resp f' where "create_append_entries_req u s = (Inr req, s)"
    "process_req now req f = (Inr resp, f')" "rs_accepted resp"
    "rs_next_idx resp = of_nat (Suc q + length (batch s (Suc q)))" "sv_term f' = sv_term s"
    "sv_quick_commit_idx f' = max (sv_quick_commit_idx f) (sv_quick_commit_idx s)"
    "log_inv (sv_log_store f')" "log_start (sv_log_store f') = log_start k" "log_match l (sv_log_store f')"
    "\<And>i. max (log_start l) (log_start k) \<le> i \<Longrightarrow> i \<le> q + length (batch s (Suc q)) \<Longrightarrow>
       log_at (sv_log_store f') i = log_at l i"
proof -
  let ?es = "batch s (Suc q)"
  let ?req = "(req_msg_new (sv_term s) append_entries_request (sv_id s) (pr_id p) t (of_nat q)
             (sv_quick_commit_idx s))\<lparr>rq_log_entries := ?es\<rparr>"
  have req: "create_append_entries_req u s = (Inr ?req, s)"
    using create_append_entries_req_run [of s u p q t] leader by (simp add: l_def)
  have fields: "rq_type ?req = append_entries_request" "rq_term ?req = sv_term s" "rq_last_log_idx ?req = of_nat q"
    "rq_last_log_term ?req = t" "rq_log_entries ?req = ?es" "rq_commit_idx ?req = sv_quick_commit_idx s"
    by (simp_all add: req_msg_new_def)
  obtain g where g: "process_req now ?req f = handle_append_entries ?req g" "log_view g = log_view f"
      "sv_term g = sv_term s" "sv_role g \<noteq> leader" "sv_id g = sv_id f"
    by (rule process_append_entries [of ?req f now]) (use flw fields in auto)
  have g': "sv_log_store g = k" "sv_state_machine g = sv_state_machine f" "sv_quick_commit_idx g = sv_quick_commit_idx f"
    using g(2) by (simp_all add: log_view_def k_def)
  have q: "unat (of_nat q :: ulong) = q"
    using leader by (intro unat_of_nat_ulong) simp
  have es: "list_all sayable ?es"
    using both(1) by (auto simp: batch_def l_def list_all_iff dest: in_set_takeD in_set_dropD)
  have len: "length ?es < 2 ^ 31"
    using nonneg_int32(1) [OF leader(6)] by (simp add: batch_def)
  have prev: "holds_prev g (rq_last_log_idx ?req) (rq_last_log_term ?req)"
    using flw(4) unfolding holds_prev_def g' fields by (simp only: k_def)
  obtain f' where f': "handle_append_entries ?req g =
      (Inr (accept (of_nat q + of_nat (length ?es) + 1)
              (resp_msg_new (sv_term s) append_entries_response (sv_id f) (rq_src ?req) (next_slot k))), f')"
     "log_inv (sv_log_store f')" "log_start (sv_log_store f') = log_start k"
     "log_list (sv_log_store f') = merged_log k (of_nat q) ?es"
     "sv_quick_commit_idx f' = max (sv_quick_commit_idx f) (sv_quick_commit_idx s)" "sv_state f' = sv_state g"
    using handle_append_entries_run [of g ?req] flw g g' prev es len fields by auto
  have "replication l k q ?es (sv_log_store f')"
    unfolding replication_def
  proof (intro conjI impI allI)
    show "log_at l (Suc q + j) = Some (?es ! j)" if "j < length ?es" for j
      using batch_at [of s "Suc q" j] that leader by (simp add: l_def)
    show "log_start k \<le> Suc q" "q < log_next k"
      using holds_prev_range [OF _ flw(4)] flw(1) by (simp_all add: k_def q)
    show "\<exists>d e. log_at l q = Some d \<and> log_at k q = Some e \<and> le_term d = le_term e"
      if "log_start l \<le> q" "log_start k \<le> q"
    proof -
      have pos: "0 < q" using that in_memory.bounds [OF flw(1)] by simp
      then have nz: "(of_nat q :: ulong) \<noteq> 0" using q by auto
      from flw(4) that nz have "log_at k q = Some (log_list k ! (q - log_start k))"
        "le_term (log_list k ! (q - log_start k)) = t"
        by (auto simp: holds_prev_def Let_def log_at_def k_def q split: if_splits)
      moreover have "\<exists>d. log_at l q = Some d \<and> le_term d = t"
        using term_for_log_at [of s q t] leader pos that by (simp add: l_def)
      ultimately show ?thesis by auto
    qed
  qed (use both leader f' in \<open>simp_all add: merged_log_def q\<close>)
  from replication_match [OF this] replication_agree [OF this]
  show ?thesis
    using that [OF req] g(1,3) f' by (simp add: accept_def resp_msg_new_def add.commute add.left_commute)
qed

end
