(* ===== verification/Scenario.thy ===== *)
theory Scenario
  imports Cluster Log_Matching
begin

text \<open>
  A cluster of three servers with the default parameters, built by the constructors of the
  code, in which server 1 is elected: its election timer runs out, server 2 grants it its
  vote, and server 1 counts the vote and becomes the leader. The run shows that the
  hypotheses of the cluster theorems are met by an execution of the code.
\<close>

section \<open>The run\<close>

definition three_config :: cluster_config where
  "three_config = (cluster_config_new 0 0)\<lparr>cc_servers :=
     [\<lparr>sc_id = 1, sc_endpoint = [49]\<rparr>, \<lparr>sc_id = 2, sc_endpoint = [50]\<rparr>, \<lparr>sc_id = 3, sc_endpoint = [51]\<rparr>]\<rparr>"

definition new_server :: "int32 \<Rightarrow> raft_server" where
  "new_server i = snd (raft_server_new raft_params_new
     ((state_mgr_new i [])\<lparr>mg_saved_config := three_config\<rparr>)
     echo_state_machine_new log_store_new (\<lambda>_. 300))"

definition candidate_server :: raft_server where
  "candidate_server = snd (run_event Election_timeout (new_server 1))"

definition vote_ballot :: req_msg where
  "vote_ballot = req_msg_new 1 request_vote_request 1 2 0 0 0"

definition voter_result :: "resp_msg option res \<times> raft_server" where
  "voter_result = run_event (Request 0 vote_ballot) (new_server 2)"

definition granted_vote :: resp_msg where
  "granted_vote = accept 1 (resp_msg_new 1 request_vote_response 2 1 0)"

definition vote_arrives :: event where
  "vote_arrives = Rpc_result 0 0 vote_ballot Resp_handler (Inr granted_vote)"

definition elected_server :: raft_server where
  "elected_server = snd (run_event vote_arrives candidate_server)"

definition elected_cluster :: cluster where
  "elected_cluster = (new_server(1 := candidate_server, 2 := snd voter_result, 1 := elected_server), {granted_vote})"

section \<open>Its states\<close>

lemmas start_defs = new_server_def raft_server_new_def raft_server_init_def raft_server_fields_def
  state_mgr_new_def server_id_def load_config_def read_state_def sm_last_commit_index_def
  sm_last_snapshot_def initial_peers_def enumerate_eq_zip umap_insert_def peer_new_def three_config_def
  cluster_config_new_def restart_election_timer_def rand_timeout_def emit_def uncommitted_conf_def
  read_log_def set_config_changing_def echo_state_machine_new_def log_store_new_def raft_params_new_def
  start_index_def next_slot_def Let_def

lemmas vote_defs = no_response_def handle_election_timeout_def start_election_def request_vote_def
  for_peers_def peer_uids_def send_vote_req_def get_peer_def peer_objects_def send_req_def
  term_for_log_def save_state_op_run process_req_def update_term_def become_follower_def enable_hb_def
  upd_peer_def map_peer_def handle_vote_req_def whenM_def last_entry_def find_or_dummy_def get_buf_def
  entry_of_def [symmetric] stored_entry_of pr_id_def vote_ballot_def granted_vote_def req_msg_new_def
  resp_msg_new_def accept_def dummy_entry_def

lemmas lead_defs = vote_arrives_def on_rpc_result_def rpc_done_def set_free_def resume_hb_speed_def
  handle_peer_resp_def handle_voting_resp_def become_leader_def stop_election_timer_def
  set_snapshot_in_sync_def enable_hb_for_peer_def update_config_def set_log_idx_def append_conf_def
  request_append_entries_def request_append_entries_to_def make_busy_def create_append_entries_req_def
  on_log_def append_log_def log_entries_def ulong_range_def upt_rec

lemma serialize_three_config:
  "cluster_config_serialize (three_config\<lparr>cc_log_idx := 1\<rparr>) =
   Inr (fresh_buf (cluster_config_bytes (three_config\<lparr>cc_log_idx := 1\<rparr>)))"
  by (simp add: cluster_config_codec.ser_enc cluster_config_ok_def three_config_def cluster_config_new_def
      cluster_config_bytes_def srv_config_ok_def srv_config_bytes_def)

lemma new_server_start:
  "sv_id (new_server i) = i" "sv_role (new_server i) = follower" "sv_term (new_server i) = 0"
  "sv_votes_granted (new_server i) = 0" "sv_voted_servers (new_server i) = []"
  by (simp_all add: start_defs run_simps)

lemma new_server_peers:
  "map fst (sv_peers (new_server 1)) = [2, 3]" "map fst (sv_peers (new_server 2)) = [1, 3]"
  "map fst (sv_peers (new_server 3)) = [1, 2]"
  by (simp_all add: start_defs run_simps)

lemma candidate_server_state: "map fst (sv_peers candidate_server) = [2, 3]"
  by (simp add: candidate_server_def start_defs run_simps vote_defs)

lemma voter_answer: "fst voter_result = Inr (Some granted_vote)"
  by (simp add: voter_result_def start_defs run_simps vote_defs)

lemma voter_state: "(sv_role (snd voter_result), map fst (sv_peers (snd voter_result))) = (follower, [1, 3])"
  by (simp add: voter_result_def start_defs run_simps vote_defs)

lemma elected_server_state:
  "(sv_role elected_server, sv_term elected_server, map fst (sv_peers elected_server)) = (leader, 1, [2, 3])"
  by (simp add: elected_server_def candidate_server_def start_defs run_simps vote_defs lead_defs
      cluster_config_bytes_def srv_config_bytes_def
      serialize_three_config [unfolded three_config_def cluster_config_new_def, simplified])

section \<open>The cluster reaches them\<close>

lemma three_ok: "cluster_ok {1, 2, 3}"
  by (simp add: cluster_ok_def)

lemma three_members:
  "members_ok {1, 2, 3} 1 s \<longleftrightarrow> set (map fst (sv_peers s)) = {2, 3} \<and> distinct (map fst (sv_peers s))"
  "members_ok {1, 2, 3} 2 s \<longleftrightarrow> set (map fst (sv_peers s)) = {1, 3} \<and> distinct (map fst (sv_peers s))"
  "members_ok {1, 2, 3} 3 s \<longleftrightarrow> set (map fst (sv_peers s)) = {1, 2} \<and> distinct (map fst (sv_peers s))"
  unfolding members_ok_def by (auto simp: insert_Diff_if)

lemma three_start: "cluster_start {1, 2, 3} (new_server, {})"
  by (simp add: cluster_start_def new_server_start three_members new_server_peers del: set_map)

lemma elected_reachable: "reachable {1, 2, 3} elected_cluster"
proof -
  let ?s1 = "new_server(1 := candidate_server)" and ?s2 = "new_server(1 := candidate_server, 2 := snd voter_result)"
  have "cluster_step {1, 2, 3} (new_server, {}) (?s1, {} \<union> answered (fst (run_event Election_timeout (new_server 1))))"
    by (rule cluster_step.event [of _ _ Election_timeout])
       (simp_all add: three_members candidate_server_state new_server_start candidate_server_def [symmetric]
         prod_eq_iff del: set_map run_event.simps)
  moreover have "answered (fst (run_event Election_timeout (new_server 1))) = {}"
    by (simp add: answered_def no_response_def run_simps split: prod.split sum.split)
  ultimately have 1: "reachable {1, 2, 3} (?s1, {})"
    using reachable.next_step [OF reachable.init [OF three_start]] by simp
  have "cluster_step {1, 2, 3} (?s1, {}) (?s2, {} \<union> answered (fst voter_result))"
    using voter_state
    by (intro cluster_step.event [of _ _ "Request 0 vote_ballot"])
       (simp_all add: three_members voter_result_def [symmetric] vote_ballot_def [THEN arg_cong, of rq_type]
         req_msg_new_def prod_eq_iff del: set_map run_event.simps)
  then have 2: "reachable {1, 2, 3} (?s2, {granted_vote})"
    using reachable.next_step [OF 1] by (simp add: voter_answer answered_def)
  have "cluster_step {1, 2, 3} (?s2, {granted_vote})
      (?s2(1 := elected_server), {granted_vote} \<union> answered (fst (run_event vote_arrives candidate_server)))"
    using elected_server_state
    by (intro cluster_step.event [of _ _ vote_arrives])
       (simp_all add: three_members elected_server_def vote_arrives_def granted_vote_def accept_def
         resp_msg_new_def prod_eq_iff del: set_map run_event.simps)
  moreover have "answered (fst (run_event vote_arrives candidate_server)) = {}"
    by (simp add: vote_arrives_def answered_def no_response_def run_simps split: prod.split sum.split)
  ultimately show ?thesis
    using reachable.next_step [OF 2] by (simp add: elected_cluster_def fun_upd_twist)
qed

section \<open>The entry the leader has to replicate\<close>

definition elected_entry :: log_entry where
  "elected_entry = entry_of 1 conf (cluster_config_bytes (three_config\<lparr>cc_log_idx := 1\<rparr>))"

lemmas elected_defs = elected_server_def candidate_server_def start_defs run_simps vote_defs lead_defs
  serialize_three_config [unfolded three_config_def cluster_config_new_def, simplified]

lemma elected_server_log:
  "sv_log_store elected_server = log_rep 1 dummy_entry [elected_entry]"
  "sv_params elected_server = raft_params_new"
  by (simp_all add: elected_defs log_rep_def elected_entry_def cluster_config_bytes_def srv_config_bytes_def)

lemma elected_server_peer:
  "\<exists>p. get_peer 0 elected_server = (Inr p, elected_server) \<and> pr_next_log_idx p = 1"
proof -
  have "\<exists>p. List.find (\<lambda>p. pr_uid p = 0) (peer_objects elected_server) = Some p \<and> pr_next_log_idx p = 1"
    by (simp add: elected_defs cluster_config_bytes_def srv_config_bytes_def)
  then show ?thesis by (auto simp: get_peer_def run_simps)
qed

lemma elected_entry_sayable: "sayable elected_entry"
  by (simp add: elected_entry_def sayable_def stored_entry_of cluster_config_bytes_def srv_config_bytes_def
      three_config_def cluster_config_new_def)

lemma voter_log: "sv_log_store (snd voter_result) = log_rep 1 dummy_entry []"
  by (simp add: voter_result_def start_defs run_simps vote_defs log_rep_def)

lemma voter_term: "sv_term (snd voter_result) = 1"
  by (simp add: voter_result_def start_defs run_simps vote_defs)

section \<open>A server with entries to apply\<close>

definition committing_server :: raft_server where
  "committing_server = (new_server 1)\<lparr>sv_quick_commit_idx := 3,
     sv_log_store := log_rep 1 dummy_entry [entry_of 1 app_log [65, 0], entry_of 1 app_log [66, 0]]\<rparr>"

end
