(* ===== verification/Startup.thy ===== *)
theory Startup
  imports Host Scenario
begin

text \<open>
  The start of the process that hosts the enclave (\<^verbatim>\<open>raft_app.cpp\<close> and \<^verbatim>\<open>sgx_utils/\<close>): loading the
  enclave, attesting it, building the server; and the driver of the client program
  (\<^verbatim>\<open>src/client/client.cxx\<close>). File system, environment, SGX platform and network are arguments.
\<close>

section \<open>Looking for a library\<close>

text \<open>\<^verbatim>\<open>strtok(str, ":")\<close> passes over empty parts.\<close>

definition file_in_search_path :: "(bytes \<Rightarrow> bool) \<Rightarrow> bytes \<Rightarrow> bytes \<Rightarrow> bytes" where
  "file_in_search_path check_file_path filename path =
     (case List.find check_file_path
             (map (\<lambda>p. p @ 47 # filename) (filter (\<lambda>p. p \<noteq> []) (split_on 58 path))) of
        None \<Rightarrow> [] | Some full_path \<Rightarrow> full_path)"

definition DEF_LIB_SEARCHPATH :: bytes where
  "DEF_LIB_SEARCHPATH = ascii ''/lib:/lib64:/usr/lib:/usr/lib64''"

text \<open>A variable that is not set is a null pointer, of which no string can be made.\<close>

definition search_shared_library ::
  "(bytes \<Rightarrow> bool) \<Rightarrow> (string \<Rightarrow> bytes option) \<Rightarrow> bytes \<Rightarrow> bytes \<Rightarrow> bytes res" where
  "search_shared_library check_file_path getenv filename path =
     (let result = (if path \<noteq> [] then file_in_search_path check_file_path filename path else [])
      in if result \<noteq> [] then Inr result
         else if check_file_path filename then Inr filename
         else
           case (getenv ''LD_LIBRARY_PATH'', getenv ''DT_RUNPATH'') of
             (Some ld_library_path, Some dt_runpath) \<Rightarrow>
               let paths = [ld_library_path, dt_runpath, DEF_LIB_SEARCHPATH]
               in case List.find (\<lambda>result. result \<noteq> [])
                         (map (\<lambda>p. file_in_search_path check_file_path filename ld_library_path) paths) of
                    None \<Rightarrow> Inr filename | Some result \<Rightarrow> Inr result
           | _ \<Rightarrow> Inl Undefined_behaviour)"

section \<open>Loading the enclave\<close>

text \<open>The size of \<^verbatim>\<open>sgx_launch_token_t\<close>.\<close>

definition launch_token_size :: nat where
  "launch_token_size = 1024"

text \<open>
  The file of the launch token: whether it can be opened for reading, what is in it, whether
  it can be created, and whether it can be opened again for writing.
\<close>

record token_file =
  tf_content :: "bytes option"
  tf_creatable :: bool
  tf_reopens :: bool

definition read_token :: "token_file \<Rightarrow> bytes" where
  "read_token f =
     (case tf_content f of
        Some bs \<Rightarrow>
          let read_num = min (length bs) launch_token_size
          in if read_num \<noteq> 0 \<and> read_num \<noteq> launch_token_size then replicate launch_token_size 0
             else take launch_token_size (bs @ replicate launch_token_size 0)
      | None \<Rightarrow> replicate launch_token_size 0)"

text \<open>
  The result, and the token written to the file. \<open>sgx_create_enclave\<close> gives its status, the
  token after the call and whether it was updated.
\<close>

definition initialize_enclave ::
  "(bytes \<Rightarrow> uint \<times> bytes \<times> bool) \<Rightarrow> token_file \<Rightarrow> int \<times> bytes option" where
  "initialize_enclave sgx_create_enclave f =
     (let fp = tf_content f \<noteq> None \<or> tf_creatable f;
          (status, token, updated) = sgx_create_enclave (read_token f)
      in if status \<noteq> SGX_SUCCESS then (- 1, None)
         else if \<not> updated \<or> \<not> fp then (0, None)
         else if \<not> tf_reopens f then (0, None)
         else (0, Some token))"

section \<open>The process\<close>

definition ecall_raft_instance_run ::
  "library \<Rightarrow> int32 \<Rightarrow> bytes \<Rightarrow> ushort \<Rightarrow> (nat \<Rightarrow> int32) \<Rightarrow> unit enclave_op" where
  "ecall_raft_instance_run lib srv_id address port rand =
     (let endpoint = sstrfmt (ascii ''tcp://'' @ address @ 58 # decimal (unat port))
      in run_raft_instance lib srv_id endpoint rand)"

text \<open>The one optional argument, read as an unsigned number and cut to a byte.\<close>

definition parse_srv_id :: "bytes list \<Rightarrow> byte option" where
  "parse_srv_id args =
     (case args of [] \<Rightarrow> Some 1 | [arg] \<Rightarrow> Some (ucast (strtoul arg)) | _ \<Rightarrow> None)"

text \<open>The number of threads that serve: one less than the processors, and at least one.\<close>

definition worker_threads :: "uint \<Rightarrow> uint" where
  "worker_threads hardware_concurrency =
     (let cpu_cnt = hardware_concurrency - 1 in if cpu_cnt < 1 then 1 else cpu_cnt)"

text \<open>
  How the start ends: with an exit status, with an exception nobody catches, or with the
  listener and the threads that serve. A call into the enclave that does not return has a
  status other than success.
\<close>

datatype outcome = Exit_with int | Uncaught | Serving listener uint

definition call_status :: "'a enclave_op \<Rightarrow> 'a res enclave_op" where
  "call_status m e = (case m e of (r, e') \<Rightarrow> (Inr r, e'))"

text \<open>What the process finds around it, besides the enclave and its libraries.\<close>

record surroundings =
  su_platform :: platform
  su_create_enclave :: "bytes \<Rightarrow> uint \<times> bytes \<times> bool"
  su_token_file :: token_file
  su_base64_encode :: "bytes \<Rightarrow> bytes"
  su_api_key :: bytes
  su_network :: "bytes \<Rightarrow> bytes list"
  su_hardware_concurrency :: uint

definition raft_app_main ::
  "library \<Rightarrow> surroundings \<Rightarrow> bytes list \<Rightarrow> (nat \<Rightarrow> int32) \<Rightarrow> outcome enclave_op" where
  "raft_app_main lib su args rand =
     (case parse_srv_id args of
        None \<Rightarrow> ret (Exit_with 1)
      | Some srv_id \<Rightarrow>
          if fst (initialize_enclave (su_create_enclave su) (su_token_file su)) < 0 then ret (Exit_with 1)
          else
            bindM (get_enclave_quote (su_platform su)) (\<lambda>quote.
            case quote of
              Inl _ \<Rightarrow> ret Uncaught
            | Inr quote \<Rightarrow>
                (case ias_report False (su_api_key su) (su_network su) (su_base64_encode su quote) of
                   Inl _ \<Rightarrow> ret Uncaught
                 | Inr attestation_verification_report \<Rightarrow>
                     bindM (call_status (ecall_register_verification_report lib attestation_verification_report)) (\<lambda>r.
                     case r of
                       Inr True \<Rightarrow>
                         bindM (call_status (ecall_raft_instance_run lib (ucast srv_id) (ascii ''127.0.0.1'')
                                           (9000 + ucast srv_id) rand)) (\<lambda>r.
                         case r of
                           Inl _ \<Rightarrow> ret (Exit_with 1)
                         | Inr _ \<Rightarrow>
                             ret (Serving (listen listener_new) (worker_threads (su_hardware_concurrency su))))
                     | _ \<Rightarrow> ret (Exit_with 1)))))"

section \<open>A server that serves is attested\<close>

definition own_endpoint :: "byte \<Rightarrow> bytes" where
  "own_endpoint srv_id = ascii ''tcp://127.0.0.1:'' @ decimal (9000 + unat srv_id)"

lemma own_port: "unat (9000 + ucast (srv_id :: byte) :: ushort) = 9000 + unat srv_id"
proof -
  have "unat srv_id < 2 ^ 8" using unsigned_less [of srv_id, where 'a = nat] by simp
  moreover from this have "unat (ucast srv_id :: ushort) = unat srv_id"
    by (simp add: unsigned_ucast_eq take_bit_nat_eq_self)
  ultimately show ?thesis by (simp add: unat_word_ariths)
qed

lemma endpoint_fits: "sstrfmt (own_endpoint srv_id) = own_endpoint srv_id"
proof -
  have "unat srv_id < 2 ^ 8" using unsigned_less [of srv_id, where 'a = nat] by simp
  then have "length (decimal (9000 + unat srv_id)) \<le> 4" by (intro length_decimal) simp_all
  then show ?thesis by (simp add: sstrfmt_def strfmt_def own_endpoint_def ascii_def)
qed

lemma instance_run_endpoint:
  "ecall_raft_instance_run lib i (ascii ''127.0.0.1'') (9000 + ucast srv_id) rand =
   run_raft_instance lib i (own_endpoint srv_id) rand"
  using endpoint_fits [of srv_id]
  by (simp add: ecall_raft_instance_run_def own_port own_endpoint_def ascii_def)

lemma new_instance:
  obtains sv where "raft_server_new enclave_params (state_mgr_new i ep) echo_state_machine_new log_store_new rand = (Inr (), sv)"
    "sv_id sv = i" "sv_role sv = follower" "cc_servers (sv_config sv) = [\<lparr>sc_id = i, sc_endpoint = ep\<rparr>]"
  by (rule that [of "snd (raft_server_new enclave_params (state_mgr_new i ep) echo_state_machine_new log_store_new rand)"])
     (simp_all add: start_defs run_simps)

lemma run_raft_instance_run:
  assumes "run_raft_instance lib i ep rand e = (Inr (), e')"
  obtains sv where "en_server e' = Some sv" "sv_id sv = i" "sv_role sv = follower"
    "cc_servers (sv_config sv) = [\<lparr>sc_id = i, sc_endpoint = ep\<rparr>]"
proof -
  obtain sv where sv: "raft_server_new enclave_params (state_mgr_new i ep) echo_state_machine_new log_store_new rand = (Inr (), sv)"
    "sv_id sv = i" "sv_role sv = follower" "cc_servers (sv_config sv) = [\<lparr>sc_id = i, sc_endpoint = ep\<rparr>]"
    by (rule new_instance)
  then have "en_server e' = Some (sv\<lparr>sv_outbox := []\<rparr>)"
    using assms by (auto simp: run_raft_instance_def run_simps split: prod.splits sum.splits)
  with sv show ?thesis by (intro that [of "sv\<lparr>sv_outbox := []\<rparr>"]) simp_all
qed

lemma run_raft_instance_keys: "keeps (same en_key_store) (run_raft_instance lib i ep rand)"
proof -
  have "keeps (same port_view) (run_raft_instance lib i ep rand)"
    unfolding run_raft_instance_def
  proof (split prod.split, intro allI impI, split sum.split, intro conjI allI impI)
    fix sv :: raft_server
    show "keeps (same port_view) (bindM (forM (sv_outbox sv) (perform lib))
        (\<lambda>_. modM (\<lambda>e. e\<lparr>en_server := Some (sv\<lparr>sv_outbox := []\<rparr>)\<rparr>)))"
      by (intro unchanged.keeps_intros port_perform keeps_modM) (simp add: port_view_def)
  qed (intro unchanged.keeps_intros)
  then show ?thesis by (auto simp: keeps_def port_view_def)
qed

lemma register_report_true:
  assumes "register_report lib packet e = (Inr True, e')"
  obtains ks where "en_key_store e' = Some ks" "ks_self_report ks = c_str packet"
    "report_over lib (c_str packet) (ks_public ks)"
proof -
  have "\<exists>ks. en_key_store e' = Some ks \<and> ks_self_report ks = c_str packet \<and> report_over lib (c_str packet) (ks_public ks)"
    using assms
    by (auto simp: register_report_def with_keys_def upd_keys_def run_simps report_over_def
        split: option.splits sum.splits if_splits)
  then show ?thesis using that by blast
qed

lemma serving_attested:
  assumes "raft_app_main lib su args rand e = (Inr (Serving l n), e')"
  obtains srv_id sv ks where "parse_srv_id args = Some srv_id" "en_server e' = Some sv" "sv_id sv = ucast srv_id"
    "cc_servers (sv_config sv) = [\<lparr>sc_id = ucast srv_id, sc_endpoint = own_endpoint srv_id\<rparr>]"
    "en_key_store e' = Some ks" "report_over lib (ks_self_report ks) (ks_public ks)"
proof -
  obtain srv_id packet e1 e2 where run: "parse_srv_id args = Some srv_id"
    "register_report lib packet e1 = (Inr True, e2)"
    "run_raft_instance lib (ucast srv_id) (own_endpoint srv_id) rand e2 = (Inr (), e')"
    using assms
    by (auto simp: raft_app_main_def bindM_def ret_def call_status_def instance_run_endpoint
        ecall_register_verification_report_def
        split: option.splits if_splits prod.splits sum.splits bool.splits)
  obtain ks where ks: "en_key_store e2 = Some ks" "ks_self_report ks = c_str packet"
    "report_over lib (c_str packet) (ks_public ks)"
    by (rule register_report_true [OF run(2)])
  obtain sv where "en_server e' = Some sv" "sv_id sv = ucast srv_id"
    "cc_servers (sv_config sv) = [\<lparr>sc_id = ucast srv_id, sc_endpoint = own_endpoint srv_id\<rparr>]"
    by (rule run_raft_instance_run [OF run(3)])
  moreover have "en_key_store e' = Some ks"
    using sameD [OF run_raft_instance_keys, of lib "ucast srv_id" "own_endpoint srv_id" rand e2] run(3) ks(1) by simp
  ultimately show ?thesis using that run(1) ks(2,3) by metis
qed

section \<open>The client program\<close>

definition charset :: bytes where
  "charset = ascii ''0123456789abcdef''"

text \<open>\<open>dist\<close> gives what the distribution over the indexes of the characters draws.\<close>

definition generate_dummy_string :: "(nat \<Rightarrow> byte) \<Rightarrow> nat \<Rightarrow> bytes" where
  "generate_dummy_string dist n = map (\<lambda>i. charset ! unat (dist i)) [0..<n]"

text \<open>The id of the client, the interval in milliseconds and the size of the payload.\<close>

definition parse_client_args :: "bytes list \<Rightarrow> (byte \<times> uint \<times> uint) option" where
  "parse_client_args args =
     (case args of
        [] \<Rightarrow> Some (1, 500, 256)
      | [a] \<Rightarrow> Some (ucast (strtoul a), 500, 256)
      | [a, b] \<Rightarrow> Some (ucast (strtoul a), ucast (strtoul b), 256)
      | [a, b, c] \<Rightarrow> Some (ucast (strtoul a), ucast (strtoul b), ucast (strtoul c))
      | _ \<Rightarrow> None)"

text \<open>
  A request on a new socket, \<open>connect\<close> telling how connecting ended. The result is the socket.
\<close>

definition send_once :: "io_error \<Rightarrow> bytes \<Rightarrow> unit res \<times> socket_client" where
  "send_once connect request =
     (case socket_client_new connect of
        (Inl err, s) \<Rightarrow> (Inl err, s)
      | (Inr _, s) \<Rightarrow> so_send request s)"

text \<open>The first client asks the leader to add the servers 2 to 5; an exception ends the program.\<close>

fun add_servers :: "(ushort \<Rightarrow> bytes \<Rightarrow> bytes) \<Rightarrow> (ushort \<Rightarrow> io_error) \<Rightarrow> ushort list \<Rightarrow> unit res \<times> socket_client list" where
  "add_servers dump_server connect [] = (Inr (), [])"
| "add_servers dump_server connect (i # is) =
     (case send_once (connect i) (rb_add_server dump_server i) of
        (Inl err, s) \<Rightarrow> (Inl err, [s])
      | (Inr _, s) \<Rightarrow> (case add_servers dump_server connect is of (r, ss) \<Rightarrow> (r, s # ss)))"

definition client_setup ::
  "(ushort \<Rightarrow> bytes \<Rightarrow> bytes) \<Rightarrow> (ushort \<Rightarrow> io_error) \<Rightarrow> byte \<Rightarrow> unit res \<times> socket_client list" where
  "client_setup dump_server connect client_id =
     (if client_id = 1 then add_servers dump_server connect [2, 3, 4, 5] else (Inr (), []))"

text \<open>
  One round of the loop: a request on a new connection; when the socket cannot be used, the
  interval is doubled. The result is the interval and the socket.
\<close>

definition client_round ::
  "(bytes \<Rightarrow> cstring) \<Rightarrow> (cstring list \<Rightarrow> bytes) \<Rightarrow> (nat \<Rightarrow> byte) \<Rightarrow> uint \<Rightarrow> io_error \<Rightarrow> uint \<Rightarrow>
   unit res \<times> uint \<times> socket_client" where
  "client_round base64_encode dump_array dist payload_size connect interval =
     (let dummy = generate_dummy_string dist (unat payload_size);
          request = rb_append_entries base64_encode dump_array dummy
      in case send_once connect request of
           (Inl Runtime_error, s) \<Rightarrow> (Inr (), 2 * interval, s)
         | (Inl err, s) \<Rightarrow> (Inl err, interval, s)
         | (Inr _, s) \<Rightarrow> (Inr (), interval, s))"

text \<open>The first rounds of the loop, and whether the thread sleeps between two of them.\<close>

fun client_rounds ::
  "(bytes \<Rightarrow> cstring) \<Rightarrow> (cstring list \<Rightarrow> bytes) \<Rightarrow> (nat \<Rightarrow> byte) \<Rightarrow> uint \<Rightarrow> io_error list \<Rightarrow> uint \<Rightarrow>
   unit res \<times> uint" where
  "client_rounds base64_encode dump_array dist payload_size [] interval = (Inr (), interval)"
| "client_rounds base64_encode dump_array dist payload_size (connect # connects) interval =
     (case client_round base64_encode dump_array dist payload_size connect interval of
        (Inl err, interval, _) \<Rightarrow> (Inl err, interval)
      | (Inr _, interval, _) \<Rightarrow> client_rounds base64_encode dump_array dist payload_size connects interval)"

definition sleeps :: "uint \<Rightarrow> bool" where
  "sleeps interval \<longleftrightarrow> interval \<ge> 1"

lemma charset_nonzero: "i < 16 \<Longrightarrow> charset ! i \<noteq> 0"
proof -
  have "list_all (\<lambda>c. c \<noteq> 0) charset" "length charset = 16" by (simp_all add: charset_def ascii_def)
  then show "i < 16 \<Longrightarrow> charset ! i \<noteq> 0" by (simp add: list_all_length)
qed

text \<open>What the client generates can be printed by the state machine of the server.\<close>

lemma dummy_string:
  assumes "\<And>i. dist i < 16" "0 < n"
  shows "generate_dummy_string dist n \<noteq> []" "hd (generate_dummy_string dist n) \<noteq> 0"
    "length (generate_dummy_string dist n) = n"
  using assms charset_nonzero [of "unat (dist 0)"]
  by (simp_all add: generate_dummy_string_def hd_map word_less_nat_alt)

lemma send_once_ok:
  "send_once connect request =
     (if connect = No_error then so_send request (snd (socket_client_new No_error))
      else (Inl Runtime_error, snd (socket_client_new connect)))"
  by (cases connect)
     (simp_all add: send_once_def socket_client_new_def so_send_def so_handle_error_def run_simps)

lemma client_round_ok:
  "client_round base64_encode dump_array dist payload_size connect interval =
     (if connect = No_error then
        (Inr (), interval,
         snd (so_send (rb_append_entries base64_encode dump_array (generate_dummy_string dist (unat payload_size)))
           (snd (socket_client_new No_error))))
      else (Inr (), 2 * interval, snd (socket_client_new connect)))"
  by (simp add: client_round_def send_once_ok so_send_def socket_client_new_def run_simps Let_def)

text \<open>
  The loop never ends with an exception; every failed round doubles the interval, in 32 bits:
  from the default of 500 milliseconds it is 0 after 30 failures, and the loop no longer
  sleeps.
\<close>

lemma client_rounds_interval:
  "client_rounds base64_encode dump_array dist payload_size connects interval =
     (Inr (), 2 ^ length (filter (\<lambda>c. c \<noteq> No_error) connects) * interval)"
  by (induction connects arbitrary: interval) (simp_all add: client_round_ok mult.assoc mult.left_commute)

lemma client_backoff_wraps:
  "client_rounds base64_encode dump_array dist payload_size (replicate 30 Other_error) 500 = (Inr (), 0)"
  "\<not> sleeps 0"
  by (simp_all add: client_rounds_interval sleeps_def)

text \<open>The servers are added in their order, each over its own connection.\<close>

lemma add_servers_ok:
  assumes "\<And>i. connect i = No_error"
  shows "add_servers dump_server connect is =
    (Inr (), map (\<lambda>i. snd (so_send (rb_add_server dump_server i) (snd (socket_client_new No_error)))) is)"
  using assms by (induction "is") (simp_all add: send_once_ok so_send_def socket_client_new_def run_simps)

end
