(* ===== verification/Enclave_Scenario.thy ===== *)
theory Enclave_Scenario
  imports Startup
begin

text \<open>
  A run of the enclave: a library of functions with the documented contracts, an enclave
  around the servers of the cluster scenario, and a verification report that is accepted.
\<close>

section \<open>Libraries\<close>

text \<open>
  Texts stand for the objects they describe: the encoders are the identity, certificates and
  signatures are always valid, and a body asks for its fields by name.
\<close>

definition demo_key :: bytes where
  "demo_key = replicate 64 5"

definition demo_quote :: bytes where
  "demo_quote = replicate 368 0 @ demo_key"

definition demo_packet :: bytes where
  "demo_packet = ascii ''Content-Length: 2'' @ crlf @ ascii ''X-IASReport-Signature: s'' @ crlf @
     ascii ''X-IASReport-Signing-Certificate: c'' @ crlf @ crlf @ ascii ''{}''"

definition demo_string :: "bytes \<Rightarrow> bytes \<Rightarrow> string \<Rightarrow> cstring" where
  "demo_string status payload key =
     (if key = ''isvEnclaveQuoteStatus'' then status
      else if key = ''isvEnclaveQuoteBody'' then demo_quote
      else if key = ''endpoint'' then ascii ''tcp://127.0.0.1:9002''
      else demo_packet)"

definition demo_lib :: library where
  "demo_lib =
     \<lparr>lb_cipher = xor_cipher, lb_ias_root_ca_cert = [1], lb_PEM_read_bio_X509 = Some,
      lb_X509_STORE_add_cert = \<lambda>_. True, lb_X509_verify_cert = \<lambda>_ _. 1, lb_X509_get_pubkey = Some,
      lb_EVP_DigestVerify = \<lambda>_ _ _. 1, lb_base64_decode = Some, lb_json_parses = \<lambda>_. True,
      lb_json_int = \<lambda>_ key. if key = ''version'' then 3 else 2, lb_json_string = demo_string (ascii ''OK''),
      lb_json_items = \<lambda>payload. [payload], lb_dump_success = \<lambda>n. [ucast n], lb_dump_report = \<lambda>_ report. report\<rparr>"

definition strict_lib :: library where
  "strict_lib = demo_lib\<lparr>lb_json_string := demo_string (ascii ''GROUP_OUT_OF_DATE'')\<rparr>"

definition demo_enclave :: "raft_server option \<Rightarrow> enclave" where
  "demo_enclave sv =
     \<lparr>en_server = sv, en_key_store = None, en_id_counter = 0, en_response_buffer = [], en_last_req_uid = 0,
      en_callback_pool = [], en_rand = \<lambda>_. Some (replicate 16 0), en_draws = 0, en_client_ids = \<lambda>n. of_nat n + 1,
      en_clients = 0, en_peer_client = \<lambda>u. of_nat u + 1, en_server_client = \<lambda>_. 1, en_results = [], en_out = []\<rparr>"

lemmas report_defs = validate_verification_report_def after_def field_length_def header_length_def
  header_signature_def header_certificates_def delimiter_def double_delimiter_def ascii_def crlf_def
  base64_decode_def check_signature_def read_data_def verify_certs_and_signature_def load_cert_unsafe_def
  load_cert_chain_def cert_pieces.simps find_from_def pem_begin_def build_ca_def cert_verify_def
  sha256_verify_def strtoul_def is_space_def is_digit_def

lemma demo_packet_text: "c_str demo_packet = demo_packet"
  by (simp add: demo_packet_def c_str_def ascii_def crlf_def)

lemma demo_report_ok: "validate_verification_report demo_lib demo_packet = Inr (Some demo_quote)"
  by (simp add: demo_lib_def demo_packet_def demo_string_def report_defs)

lemma strict_report: "validate_verification_report strict_lib demo_packet = Inr None"
  by (simp add: strict_lib_def demo_lib_def demo_packet_def demo_string_def report_defs)

lemma demo_report_data: "report_data demo_quote = Inr demo_key"
  by (simp add: report_data_def demo_quote_def demo_key_def SGX_REPORT_DATA_SIZE_def)

section \<open>Keys\<close>

text \<open>The key pair is drawn, the server's own report is registered, and server 2 sends its report.\<close>

definition key_calls :: "ecall list" where
  "key_calls =
     [Get_report (Inr ([1], demo_key)) (\<lambda>d. (0, d)), Register_verification_report demo_packet,
      Handle_rpc_request 0 False (type_bytes system_key_exchange_req)]"

lemmas report_facts = demo_packet_text demo_report_ok demo_report_data

lemma demo_report_field: "lb_json_string demo_lib p ''report'' = demo_packet" "lb_json_int demo_lib p ''server_id'' = 2"
  by (simp_all add: demo_lib_def demo_string_def)

lemma key_exchange_type: "read_type (type_bytes system_key_exchange_req) = Inr system_key_exchange_req"
  using read_type_bytes [of system_key_exchange_req "[]"] by (simp add: er_types_def)

lemma demo_packet_nonempty: "demo_packet \<noteq> []"
  by (simp add: demo_packet_def ascii_def)

lemmas key_run_defs = no_result_def ecall_get_report_def run_simps er_key_store_new_def
  ecall_register_verification_report_def register_report_def with_keys_def upd_keys_def report_facts
  ecall_handle_rpc_request_def key_exchange_type handle_system_request_def receive_report_def
  demo_report_field handler_id_def keep_response_def demo_packet_nonempty

lemma keys_exchanged:
  "\<exists>ks. en_key_store (run_ecalls demo_lib key_calls (demo_enclave (Some (new_server 1)))) = Some ks \<and>
     ks_public ks = demo_key \<and> ks_self_report ks = demo_packet \<and> ks_store ks = [(2, demo_key)]"
  by (simp add: run_ecalls_def key_calls_def demo_enclave_def key_run_defs)

lemma keys_server: "en_server (run_ecalls demo_lib key_calls (demo_enclave (Some (new_server 1)))) = Some (new_server 1)"
  by (simp add: run_ecalls_def key_calls_def demo_enclave_def key_run_defs)

lemma keys_answered:
  "\<exists>len n e'. ecall_handle_rpc_request demo_lib 0 False (type_bytes system_key_exchange_req)
     (run_ecalls demo_lib key_calls (demo_enclave (Some (new_server 1)))) = (Inr (len, n), e') \<and> len \<noteq> - 1"
proof -
  let ?e = "run_ecalls demo_lib key_calls (demo_enclave (Some (new_server 1)))"
  obtain ks where ks: "en_key_store ?e = Some ks" "ks_self_report ks = demo_packet" using keys_exchanged by blast
  have "lb_dump_report demo_lib i demo_packet = demo_packet" for i by (simp add: demo_lib_def)
  moreover have "(of_nat (length (type_bytes system_key_exchange_resp @ demo_packet)) :: int32) \<noteq> - 1"
    by (simp add: demo_packet_def type_bytes_def ascii_def crlf_def)
  ultimately show ?thesis
    using ks keys_server
    by (simp add: ecall_handle_rpc_request_def key_exchange_type handle_system_request_def receive_report_def
        with_keys_def upd_keys_def report_facts demo_report_field handler_id_def run_simps keep_response_run
        del: length_append)
qed

section \<open>The start of the process\<close>

definition demo_platform :: platform where
  "demo_platform =
     \<lparr>pf_init_quote = \<lambda>n. if n = 0 then SGX_ERROR_BUSY else SGX_SUCCESS, pf_ecall = SGX_SUCCESS,
      pf_key_pair = Inr ([1], demo_key), pf_create_report = \<lambda>d. (SGX_SUCCESS, d),
      pf_calc_quote_size = (SGX_SUCCESS, 1), pf_get_quote = \<lambda>r _. (SGX_SUCCESS, r)\<rparr>"

lemma demo_quote_run:
  "get_enclave_quote demo_platform (demo_enclave None) =
     (Inr (Inr demo_key), (demo_enclave None)\<lparr>en_key_store := Some (er_key_store_new [1] demo_key)\<rparr>)"
proof -
  have "init_quote (pf_init_quote demo_platform) 0 = (SGX_SUCCESS, 2)"
    unfolding init_quote.simps [of _ 0] init_quote.simps [of _ 1]
    by (simp add: demo_platform_def SGX_SUCCESS_def SGX_ERROR_BUSY_def init_quote.simps)
  then show ?thesis
    by (simp add: get_enclave_quote_def demo_platform_def SGX_SUCCESS_def ecall_get_report_def run_simps
        demo_enclave_def er_key_store_new_def)
qed

text \<open>The service answers every request with the report, in two chunks.\<close>

definition demo_surroundings :: surroundings where
  "demo_surroundings =
     \<lparr>su_platform = demo_platform, su_create_enclave = \<lambda>token. (SGX_SUCCESS, token, False),
      su_token_file = \<lparr>tf_content = None, tf_creatable = True, tf_reopens = True\<rparr>,
      su_base64_encode = \<lambda>bs. bs, su_api_key = ascii ''key'',
      su_network = \<lambda>_. [take 10 demo_packet, drop 10 demo_packet], su_hardware_concurrency = 4\<rparr>"

lemma demo_service: "ssl_response [take 10 demo_packet, drop 10 demo_packet] = Inr demo_packet"
proof -
  let ?head = "ascii ''Content-Length: 2'' @ crlf @ ascii ''X-IASReport-Signature: s'' @ crlf @
     ascii ''X-IASReport-Signing-Certificate: c''"
  have packet: "demo_packet = ?head @ double_delimiter @ ascii ''{}''"
    by (simp add: demo_packet_def double_delimiter_def crlf_def)
  moreover have "decimal (Suc (Suc 0)) = [50]" by (simp add: decimal.simps)
  ultimately show ?thesis
    using ssl_response_whole [of "[take 10 demo_packet, drop 10 demo_packet]" ?head "ascii ''{}''"
        "10 # ascii ''X-IASReport-Signature: s'' @ crlf @ ascii ''X-IASReport-Signing-Certificate: c''"]
    by (simp add: ascii_def crlf_def double_delimiter_def)
qed

lemma demo_started:
  "\<exists>e'. raft_app_main demo_lib demo_surroundings [] (\<lambda>_. 300) (demo_enclave None) =
     (Inr (Serving (listen listener_new) 3), e')"
proof -
  have "fst (initialize_enclave (su_create_enclave demo_surroundings) (su_token_file demo_surroundings)) = 0"
    by (simp add: demo_surroundings_def initialize_enclave_def)
  moreover have "ias_report False (su_api_key demo_surroundings) (su_network demo_surroundings) b = Inr demo_packet" for b
    by (simp add: demo_surroundings_def ias_report_def demo_service)
  moreover have "su_platform demo_surroundings = demo_platform" "worker_threads (su_hardware_concurrency demo_surroundings) = 3"
    by (simp_all add: demo_surroundings_def worker_threads_def)
  moreover obtain e1 where e1: "register_report demo_lib demo_packet
      ((demo_enclave None)\<lparr>en_key_store := Some (er_key_store_new [1] demo_key)\<rparr>) = (Inr True, e1)"
    by (simp add: register_report_def with_keys_def upd_keys_def run_simps er_key_store_new_def report_facts)
  moreover obtain sv where sv: "raft_server_new enclave_params (state_mgr_new 1 (own_endpoint 1)) echo_state_machine_new
      log_store_new (\<lambda>_. 300) = (Inr (), sv)" "\<exists>i. sv_outbox sv = [Schedule_election i]"
    by (simp add: start_defs run_simps)
  moreover from sv have "\<exists>e'. run_raft_instance demo_lib 1 (own_endpoint 1) (\<lambda>_. 300) e1 = (Inr (), e')"
    by (auto simp: run_raft_instance_def run_simps ocall_def)
  moreover have "ecall_raft_instance_run demo_lib 1 (ascii ''127.0.0.1'') 9001 (\<lambda>_. 300) =
      run_raft_instance demo_lib 1 (own_endpoint 1) (\<lambda>_. 300)"
    using instance_run_endpoint [of demo_lib 1 1] by simp
  ultimately show ?thesis
    by (auto simp: raft_app_main_def parse_srv_id_def demo_quote_run call_status_def
        ecall_register_verification_report_def run_simps)
qed

section \<open>A vote over the wire\<close>

lemma demo_vote:
  "\<exists>callee. on_server demo_lib (process_req 0 vote_ballot) (demo_enclave (Some (new_server 2))) = (Inr granted_vote, callee)"
  by (simp add: demo_enclave_def on_server_def start_defs run_simps vote_defs ocall_def)

section \<open>A leader whose peer is busy\<close>

definition busy_enclave :: enclave where
  "busy_enclave = demo_enclave (Some (elected_server\<lparr>sv_outbox := []\<rparr>))"

lemma busy_peer:
  "\<exists>p. get_peer 0 (elected_server\<lparr>sv_outbox := []\<rparr>) = (Inr p, elected_server\<lparr>sv_outbox := []\<rparr>) \<and> pr_busy p"
proof -
  have "\<exists>p. List.find (\<lambda>p. pr_uid p = 0) (peer_objects elected_server) = Some p \<and> pr_busy p"
    by (simp add: elected_defs cluster_config_bytes_def srv_config_bytes_def)
  then show ?thesis by (auto simp: get_peer_def run_simps peer_objects_def)
qed

end
