(* ===== verification/Base64.thy ===== *)
theory Base64
  imports Buffer
begin

text \<open>
  The base64 codec the program uses (\<^verbatim>\<open>src/third_party/cppcodec-0.2\<close>, the variant \<^verbatim>\<open>base64_rfc4648\<close>):
  padding is generated and required, and no character is ignored. Every error of the
  decoder is an exception derived from \<^verbatim>\<open>std::logic_error\<close>.
\<close>

section \<open>The alphabet\<close>

definition base64_alphabet :: bytes where
  "base64_alphabet = map of_char ''ABCDEFGHIJKLMNOPQRSTUVWXYZabcdefghijklmnopqrstuvwxyz0123456789+/''"

definition b64_symbol :: "byte \<Rightarrow> byte" where
  "b64_symbol idx = base64_alphabet ! unat idx"

definition padding_symbol :: byte where
  "padding_symbol = 61"

text \<open>The index of a symbol, or one of the three marks.\<close>

definition padding_idx :: ulong where
  "padding_idx = 256"

definition invalid_idx :: ulong where
  "invalid_idx = 512"

definition eof_idx :: ulong where
  "eof_idx = 1024"

definition b64_index_of :: "byte \<Rightarrow> ulong" where
  "b64_index_of symbol =
     (case List.find (\<lambda>i. base64_alphabet ! i = symbol) [0..<64] of
        Some i \<Rightarrow> of_nat i
      | None \<Rightarrow> if symbol = 0 then eof_idx else if symbol = padding_symbol then padding_idx else invalid_idx)"

definition is_stop_character :: "ulong \<Rightarrow> bool" where
  "is_stop_character idx \<longleftrightarrow> and idx (not 0xFF) \<noteq> 0"

section \<open>Encoding\<close>

text \<open>The four indexes of a block of three bytes, and the abbreviated ones of a tail.\<close>

definition b64_index0 :: "byte \<Rightarrow> byte" where
  "b64_index0 b0 = drop_bit 2 b0"

definition b64_index1 :: "byte \<Rightarrow> byte \<Rightarrow> byte" where
  "b64_index1 b0 b1 = or (push_bit 4 (and b0 3)) (drop_bit 4 b1)"

definition b64_index2 :: "byte \<Rightarrow> byte \<Rightarrow> byte" where
  "b64_index2 b1 b2 = or (push_bit 2 (and b1 0xF)) (drop_bit 6 b2)"

definition b64_index3 :: "byte \<Rightarrow> byte" where
  "b64_index3 b2 = and b2 0x3F"

definition b64_index1_last :: "byte \<Rightarrow> byte" where
  "b64_index1_last b0 = push_bit 4 (and b0 3)"

definition b64_index2_last :: "byte \<Rightarrow> byte" where
  "b64_index2_last b1 = push_bit 2 (and b1 0xF)"

fun b64_encode :: "bytes \<Rightarrow> bytes" where
  "b64_encode (b0 # b1 # b2 # src) =
     map b64_symbol [b64_index0 b0, b64_index1 b0 b1, b64_index2 b1 b2, b64_index3 b2] @ b64_encode src"
| "b64_encode [b0, b1] =
     map b64_symbol [b64_index0 b0, b64_index1 b0 b1, b64_index2_last b1] @ [padding_symbol]"
| "b64_encode [b0] = map b64_symbol [b64_index0 b0, b64_index1_last b0] @ [padding_symbol, padding_symbol]"
| "b64_encode [] = []"

section \<open>Decoding\<close>

definition b64_decode_block :: "ulong list \<Rightarrow> bytes" where
  "b64_decode_block idx =
     (let dec = or (or (or (push_bit 18 (idx ! 0)) (push_bit 12 (idx ! 1))) (push_bit 6 (idx ! 2))) (idx ! 3)
      in [ucast (drop_bit 16 dec), ucast (and (drop_bit 8 dec) 0xFF), ucast (and dec 0xFF)])"

definition b64_decode_tail :: "ulong list \<Rightarrow> bytes res" where
  "b64_decode_tail idx =
     (if length idx = 1 then Inl Logic_error
      else
        let d0 = ucast (push_bit 2 (idx ! 0) + drop_bit 4 (and (idx ! 1) 0x30))
        in if length idx = 2 then Inr [d0]
           else Inr [d0, ucast (push_bit 4 (and (idx ! 1) 0xF) + drop_bit 2 (and (idx ! 2) 0x3C))])"

text \<open>
  After the first padding character: \<open>last_len\<close> counts the symbols and the padding of the block.
\<close>

fun b64_padding :: "ulong list \<Rightarrow> nat \<Rightarrow> bytes \<Rightarrow> bytes res" where
  "b64_padding idx last_len [] = (if last_len \<noteq> 4 then Inl Logic_error else b64_decode_tail idx)"
| "b64_padding idx last_len (c # src) =
     (let i = b64_index_of c
      in if i = eof_idx then (if last_len \<noteq> 4 then Inl Logic_error else b64_decode_tail idx)
         else if i \<noteq> padding_idx then Inl Logic_error
         else if last_len + 1 > 4 then Inl Logic_error
         else b64_padding idx (last_len + 1) src)"

text \<open>
  The loop over the input, with the indexes of the block read so far. At the end of the
  input, or at a zero, a block that has begun lacks its padding.
\<close>

fun b64_decode_from :: "ulong list \<Rightarrow> bytes \<Rightarrow> bytes res" where
  "b64_decode_from idx [] = (if idx = [] then Inr [] else Inl Logic_error)"
| "b64_decode_from idx (c # src) =
     (let i = b64_index_of c
      in if is_stop_character i then
           (if i = invalid_idx then Inl Logic_error
            else if i = padding_idx then
              (if idx = [] then Inl Logic_error else b64_padding idx (length idx + 1) src)
            else if idx = [] then Inr [] else Inl Logic_error)
         else if length idx + 1 = 4 then
           rbind (b64_decode_from [] src) (\<lambda>out. Inr (b64_decode_block (idx @ [i]) @ out))
         else b64_decode_from (idx @ [i]) src)"

definition b64_decode :: "bytes \<Rightarrow> bytes res" where
  "b64_decode src = b64_decode_from [] src"

section \<open>Round trip\<close>

lemma b64_indexes: "list_all (\<lambda>i. b64_index_of (base64_alphabet ! i) = of_nat i) [0..<64]"
  by code_simp

lemma b64_index_symbol:
  assumes "x < 64"
  shows "b64_index_of (b64_symbol x) = ucast x"
proof -
  have "unat x < 64" using assms by (simp add: word_less_nat_alt)
  then have "b64_index_of (base64_alphabet ! unat x) = of_nat (unat x)"
    using b64_indexes by (simp add: list_all_iff)
  then show ?thesis by (simp add: b64_symbol_def)
qed

lemma b64_padding_index: "b64_index_of padding_symbol = padding_idx"
  by code_simp

lemma below_64: "x < (64 :: byte) \<longleftrightarrow> take_bit 6 x = x"
proof -
  have "x < 64 \<longleftrightarrow> unat x < 2 ^ 6" by (simp add: word_less_nat_alt)
  also have "\<dots> \<longleftrightarrow> take_bit 6 (unat x) = unat x" by (simp add: take_bit_nat_eq_self_iff)
  also have "\<dots> \<longleftrightarrow> unat (take_bit 6 x) = unat x" by (simp add: unsigned_take_bit_eq)
  also have "\<dots> \<longleftrightarrow> take_bit 6 x = x" by (rule word_unat_eq_iff [symmetric])
  finally show ?thesis .
qed

lemma byte_bit_less: "bit (x :: byte) n \<Longrightarrow> n < 8"
  using byte_bit [of n x] by (cases "n < 8") auto

text \<open>Two bytes are equal when their eight bits are.\<close>

lemma byte_eqI:
  fixes a b :: byte
  assumes "bit a 0 = bit b 0" "bit a 1 = bit b 1" "bit a 2 = bit b 2" "bit a 3 = bit b 3"
    "bit a 4 = bit b 4" "bit a 5 = bit b 5" "bit a 6 = bit b 6" "bit a 7 = bit b 7"
  shows "a = b"
proof (rule bit_word_eqI)
  fix n
  assume "n < LENGTH(8)"
  then have "n \<in> set [0, 1, 2, 3, 4, 5, 6, 7]" by auto
  then show "bit a n \<longleftrightarrow> bit b n" using assms by auto
qed

text \<open>The bits of the masks.\<close>

lemma mask_bits:
  "bit (3 :: 'a::len word) n \<longleftrightarrow> n < 2 \<and> n < LENGTH('a)" "bit (0xF :: 'a word) n \<longleftrightarrow> n < 4 \<and> n < LENGTH('a)"
  "bit (0x3F :: 'a word) n \<longleftrightarrow> n < 6 \<and> n < LENGTH('a)" "bit (0xFF :: 'a word) n \<longleftrightarrow> n < 8 \<and> n < LENGTH('a)"
proof -
  have "(3 :: 'a word) = mask 2" "(0xF :: 'a word) = mask 4" "(0x3F :: 'a word) = mask 6" "(0xFF :: 'a word) = mask 8"
    by (simp_all add: mask_eq_exp_minus_1)
  note masks = this
  show "bit (3 :: 'a word) n \<longleftrightarrow> n < 2 \<and> n < LENGTH('a)" unfolding masks(1) bit_mask_iff by auto
  show "bit (0xF :: 'a word) n \<longleftrightarrow> n < 4 \<and> n < LENGTH('a)" unfolding masks(2) bit_mask_iff by auto
  show "bit (0x3F :: 'a word) n \<longleftrightarrow> n < 6 \<and> n < LENGTH('a)" unfolding masks(3) bit_mask_iff by auto
  show "bit (0xFF :: 'a word) n \<longleftrightarrow> n < 8 \<and> n < LENGTH('a)" unfolding masks(4) bit_mask_iff by auto
qed

lemma int_mask_bits: "bit (3 :: int) n \<longleftrightarrow> n < 2" "bit (0xF :: int) n \<longleftrightarrow> n < 4"
proof -
  have masks: "(3 :: int) = mask 2" "(0xF :: int) = mask 4" by (simp_all add: mask_eq_exp_minus_1)
  show "bit (3 :: int) n \<longleftrightarrow> n < 2" unfolding masks(1) bit_mask_iff by simp
  show "bit (0xF :: int) n \<longleftrightarrow> n < 4" unfolding masks(2) bit_mask_iff by simp
qed

lemmas word_bits = bit_and_iff bit_or_iff bit_not_iff_eq bit_not_iff bit_push_bit_iff bit_drop_bit_eq o_apply bit_unsigned_iff
  bit_take_bit_iff mask_bits possible_bit_def

lemma add_0x30: "push_bit 2 x + drop_bit 4 (and y 0x30) = or (push_bit 2 x) (drop_bit 4 (and y (0x30 :: ulong)))"
  by (rule disjunctive_add_eq_or) (rule bit_word_eqI, auto simp: bit_simps int_mask_bits)

lemma add_0x3C: "push_bit 4 x + drop_bit 2 (and y 0x3C) = or (push_bit 4 x) (drop_bit 2 (and y (0x3C :: ulong)))"
  by (rule disjunctive_add_eq_or) (rule bit_word_eqI, auto simp: bit_simps int_mask_bits)

lemmas b64_index_defs = b64_index0_def b64_index1_def b64_index2_def b64_index3_def b64_index1_last_def
  b64_index2_last_def

lemma b64_index_bits:
  "bit (b64_index0 a) n \<longleftrightarrow> bit a (n + 2)"
  "bit (b64_index1 a b) n \<longleftrightarrow> 4 \<le> n \<and> n < 6 \<and> bit a (n - 4) \<or> bit b (n + 4)"
  "bit (b64_index2 b c) n \<longleftrightarrow> 2 \<le> n \<and> n < 6 \<and> bit b (n - 2) \<or> bit c (n + 6)"
  "bit (b64_index3 c) n \<longleftrightarrow> n < 6 \<and> bit c n"
  "bit (b64_index1_last a) n \<longleftrightarrow> 4 \<le> n \<and> n < 6 \<and> bit a (n - 4)"
  "bit (b64_index2_last b) n \<longleftrightarrow> 2 \<le> n \<and> n < 6 \<and> bit b (n - 2)"
  unfolding b64_index_defs word_bits using byte_bit [of _ a] byte_bit [of _ b] by (auto simp: add.commute not_le)

lemma b64_index_bounds [simp]:
  "b64_index0 a < 64" "b64_index1 a b < 64" "b64_index2 b c < 64" "b64_index3 c < 64"
  "b64_index1_last a < 64" "b64_index2_last b < 64"
  unfolding below_64
  by (auto intro!: bit_word_eqI simp: bit_take_bit_iff b64_index_bits) (auto dest!: byte_bit_less)

lemma b64_not_stop: "x < 64 \<Longrightarrow> \<not> is_stop_character (ucast (x :: byte))"
proof -
  have "and (ucast x) (not 0xFF) = (0 :: ulong)"
    by (rule bit_word_eqI) (unfold word_bits, auto dest: byte_bit_less)
  then show ?thesis by (simp add: is_stop_character_def)
qed

lemmas b64_bit_simps = word_bits b64_index_bits byte_bit

lemma b64_block:
  "b64_decode_block [ucast (b64_index0 a), ucast (b64_index1 a b), ucast (b64_index2 b c), ucast (b64_index3 c)] = [a, b, c]"
proof -
  let ?dec = "or (or (or (push_bit 18 (ucast (b64_index0 a))) (push_bit 12 (ucast (b64_index1 a b))))
     (push_bit 6 (ucast (b64_index2 b c)))) (ucast (b64_index3 c)) :: ulong"
  have "ucast (drop_bit 16 ?dec) = a"
    by (rule byte_eqI) (simp_all add: b64_bit_simps del: add_2_eq_Suc add_2_eq_Suc')
  moreover have "ucast (and (drop_bit 8 ?dec) 0xFF) = b"
    by (rule byte_eqI) (simp_all add: b64_bit_simps del: add_2_eq_Suc add_2_eq_Suc')
  moreover have "ucast (and ?dec 0xFF) = c"
    by (rule byte_eqI) (simp_all add: b64_bit_simps del: add_2_eq_Suc add_2_eq_Suc')
  ultimately show ?thesis by (simp only: b64_decode_block_def Let_def) simp
qed

lemma b64_tails:
  "b64_decode_tail [ucast (b64_index0 a), ucast (b64_index1_last a)] = Inr [a]"
  "b64_decode_tail [ucast (b64_index0 a), ucast (b64_index1 a b), ucast (b64_index2_last b)] = Inr [a, b]"
proof -
  have "ucast (or (push_bit 2 (ucast (b64_index0 a))) (drop_bit 4 (and (ucast (b64_index1_last a)) 0x30 :: ulong))) = a"
    by (rule byte_eqI) (simp_all add: b64_bit_simps del: add_2_eq_Suc add_2_eq_Suc')
  then show "b64_decode_tail [ucast (b64_index0 a), ucast (b64_index1_last a)] = Inr [a]"
    by (simp only: b64_decode_tail_def add_0x30 Let_def) simp
  have "ucast (or (push_bit 2 (ucast (b64_index0 a))) (drop_bit 4 (and (ucast (b64_index1 a b)) 0x30 :: ulong))) = a"
    by (rule byte_eqI) (simp_all add: b64_bit_simps del: add_2_eq_Suc add_2_eq_Suc')
  moreover have "ucast (or (push_bit 4 (and (ucast (b64_index1 a b)) 0xF)) (drop_bit 2 (and (ucast (b64_index2_last b)) 0x3C :: ulong))) = b"
    by (rule byte_eqI) (simp_all add: b64_bit_simps del: add_2_eq_Suc add_2_eq_Suc')
  ultimately show "b64_decode_tail [ucast (b64_index0 a), ucast (b64_index1 a b), ucast (b64_index2_last b)] = Inr [a, b]"
    by (simp only: b64_decode_tail_def add_0x30 add_0x3C Let_def) simp
qed

lemma b64_round_trip: "b64_decode (b64_encode bs) = Inr bs"
  unfolding b64_decode_def
proof (induction bs rule: b64_encode.induct)
  case (1 a b c src)
  then show ?case by (simp add: b64_index_symbol b64_not_stop b64_block del: ucast_id)
next
  case (2 a b)
  have "is_stop_character padding_idx" "padding_idx \<noteq> invalid_idx" by code_simp+
  then show ?case by (simp add: b64_index_symbol b64_not_stop b64_padding_index b64_tails)
next
  case (3 a)
  have "is_stop_character padding_idx" "padding_idx \<noteq> invalid_idx" "padding_idx \<noteq> eof_idx" by code_simp+
  then show ?case by (simp add: b64_index_symbol b64_not_stop b64_padding_index b64_tails)
qed simp

text \<open>What the encoder writes are symbols and padding.\<close>

lemma b64_encode_symbols: "set (b64_encode bs) \<subseteq> set base64_alphabet \<union> {padding_symbol}"
proof -
  have "b64_symbol x \<in> set base64_alphabet" if "x < 64" for x
  proof -
    have "unat x < length base64_alphabet" using that by (simp add: word_less_nat_alt base64_alphabet_def)
    then show ?thesis by (simp add: b64_symbol_def)
  qed
  then show ?thesis by (induction bs rule: b64_encode.induct) simp_all
qed

lemma b64_length: "length (b64_encode bs) \<le> 4 * length bs"
  by (induction bs rule: b64_encode.induct) simp_all

end
