(* ===== verification/Json.thy ===== *)
theory Json
  imports Text_Format Std_Map "HOL-Library.List_Lexorder"
begin

text \<open>
  The JSON library (\<^verbatim>\<open>src/third_party/json11\<close>): values, their text and the parser, with the strategy
  the program uses, which knows no comments. A number that is not an \<^verbatim>\<open>int\<close> is kept as the text it
  was read from; what \<^verbatim>\<open>printf\<close> prints for it and the \<^verbatim>\<open>int\<close> it is cut to are arguments. The
  position of the parser is the rest of the text; a parse that has failed stays failed, so
  it has no result.
\<close>

section \<open>Values\<close>

datatype json =
    JsonNull
  | JsonInt int32
  | JsonDouble bytes
  | JsonBoolean bool
  | JsonString bytes
  | JsonArray "json list"
  | JsonObject "(bytes \<times> json) list"

text \<open>The members of an object are a \<^verbatim>\<open>std::map\<close>.\<close>

fun int_value :: "(bytes \<Rightarrow> int32) \<Rightarrow> json \<Rightarrow> int32" where
  "int_value double_to_int (JsonInt i) = i"
| "int_value double_to_int (JsonDouble t) = double_to_int t"
| "int_value double_to_int _ = 0"

fun string_value :: "json \<Rightarrow> bytes" where
  "string_value (JsonString s) = s"
| "string_value _ = []"

fun array_items :: "json \<Rightarrow> json list" where
  "array_items (JsonArray js) = js"
| "array_items _ = []"

fun json_at :: "json \<Rightarrow> bytes \<Rightarrow> json" where
  "json_at (JsonObject m) key = (case map_of m key of None \<Rightarrow> JsonNull | Some j \<Rightarrow> j)"
| "json_at _ key = JsonNull"

section \<open>Text\<close>

definition int_text :: "int32 \<Rightarrow> bytes" where
  "int_text i = (if sint i < 0 then 45 # decimal (nat (- sint i)) else decimal (nat (sint i)))"

text \<open>\<^verbatim>\<open>%04x\<close> of a control character.\<close>

definition hex_lower :: "byte \<Rightarrow> byte" where
  "hex_lower x = (if x < 10 then 48 + x else 87 + x)"

definition escape_u :: "byte \<Rightarrow> bytes" where
  "escape_u ch = [92, 117, 48, 48, hex_lower (ch div 16), hex_lower (ch mod 16)]"

function dump_chars :: "bytes \<Rightarrow> bytes" where
  "dump_chars value =
     (case value of
        [] \<Rightarrow> []
      | ch # s \<Rightarrow>
          if ch = 92 then [92, 92] @ dump_chars s
          else if ch = 34 then [92, 34] @ dump_chars s
          else if ch = 8 then [92, 98] @ dump_chars s
          else if ch = 12 then [92, 102] @ dump_chars s
          else if ch = 10 then [92, 110] @ dump_chars s
          else if ch = 13 then [92, 114] @ dump_chars s
          else if ch = 9 then [92, 116] @ dump_chars s
          else if ch \<le> 0x1f then escape_u ch @ dump_chars s
          else if ch = 0xe2 \<and> prefix [0x80, 0xa8] s then [92, 117, 50, 48, 50, 56] @ dump_chars (drop 2 s)
          else if ch = 0xe2 \<and> prefix [0x80, 0xa9] s then [92, 117, 50, 48, 50, 57] @ dump_chars (drop 2 s)
          else ch # dump_chars s)"
  by pat_completeness auto
termination
  by (relation "measure length") auto

declare dump_chars.simps [simp del]

definition dump_string :: "bytes \<Rightarrow> bytes" where
  "dump_string value = 34 # dump_chars value @ [34]"

text \<open>Texts with the separator of lists between them.\<close>

fun separated :: "bytes list \<Rightarrow> bytes" where
  "separated [] = []"
| "separated [t] = t"
| "separated (t # ts) = t @ [44, 32] @ separated ts"

fun json_dump :: "(bytes \<Rightarrow> bytes) \<Rightarrow> json \<Rightarrow> bytes" where
  "json_dump dump_double JsonNull = ascii ''null''"
| "json_dump dump_double (JsonInt i) = int_text i"
| "json_dump dump_double (JsonDouble t) = dump_double t"
| "json_dump dump_double (JsonBoolean b) = (if b then ascii ''true'' else ascii ''false'')"
| "json_dump dump_double (JsonString s) = dump_string s"
| "json_dump dump_double (JsonArray js) = [91] @ separated (map (json_dump dump_double) js) @ [93]"
| "json_dump dump_double (JsonObject m) =
     [123] @ separated (map (\<lambda>(k, j). dump_string k @ [58, 32] @ json_dump dump_double j) m) @ [125]"

section \<open>Parsing\<close>

definition max_depth :: nat where
  "max_depth = 200"

text \<open>\<^verbatim>\<open>str[i]\<close>, which is zero at the end.\<close>

definition peek :: "bytes \<Rightarrow> byte" where
  "peek s = (case s of [] \<Rightarrow> 0 | c # _ \<Rightarrow> c)"

definition json_space :: "byte \<Rightarrow> bool" where
  "json_space c \<longleftrightarrow> c = 32 \<or> c = 13 \<or> c = 10 \<or> c = 9"

definition consume_garbage :: "bytes \<Rightarrow> bytes" where
  "consume_garbage s = dropWhile json_space s"

definition get_next_token :: "bytes \<Rightarrow> (byte \<times> bytes) option" where
  "get_next_token s = (case consume_garbage s of [] \<Rightarrow> None | c # s' \<Rightarrow> Some (c, s'))"

definition encode_utf8 :: "int \<Rightarrow> bytes" where
  "encode_utf8 pt =
     (if pt < 0 then []
      else if pt < 0x80 then [of_int pt]
      else if pt < 0x800 then [of_int (or (drop_bit 6 pt) 0xC0), of_int (or (and pt 0x3F) 0x80)]
      else if pt < 0x10000 then
        [of_int (or (drop_bit 12 pt) 0xE0), of_int (or (and (drop_bit 6 pt) 0x3F) 0x80), of_int (or (and pt 0x3F) 0x80)]
      else
        [of_int (or (drop_bit 18 pt) 0xF0), of_int (or (and (drop_bit 12 pt) 0x3F) 0x80),
         of_int (or (and (drop_bit 6 pt) 0x3F) 0x80), of_int (or (and pt 0x3F) 0x80)])"

text \<open>Four hexadecimal digits as a number.\<close>

definition codepoint :: "bytes \<Rightarrow> int option" where
  "codepoint esc =
     (case map hex_digit esc of
        [Some a, Some b, Some c, Some d] \<Rightarrow>
          Some (((uint a * 16 + uint b) * 16 + uint c) * 16 + uint d)
      | _ \<Rightarrow> None)"

definition simple_escape :: "byte \<Rightarrow> byte option" where
  "simple_escape ch =
     (if ch = 98 then Some 8
      else if ch = 102 then Some 12
      else if ch = 110 then Some 10
      else if ch = 114 then Some 13
      else if ch = 116 then Some 9
      else if ch = 34 \<or> ch = 92 \<or> ch = 47 then Some ch
      else None)"

function parse_string :: "bytes \<Rightarrow> int \<Rightarrow> bytes \<Rightarrow> (bytes \<times> bytes) option" where
  "parse_string str last_escaped out =
     (case str of
        [] \<Rightarrow> None
      | ch # s \<Rightarrow>
          if ch = 34 then Some (out @ encode_utf8 last_escaped, s)
          else if ch \<le> 0x1f then None
          else if ch \<noteq> 92 then parse_string s (- 1) (out @ encode_utf8 last_escaped @ [ch])
          else
            case s of
              [] \<Rightarrow> None
            | ch # s \<Rightarrow>
                if ch = 117 then
                  case codepoint (take 4 s) of
                    None \<Rightarrow> None
                  | Some cp \<Rightarrow>
                      if 0xD800 \<le> last_escaped \<and> last_escaped \<le> 0xDBFF \<and> 0xDC00 \<le> cp \<and> cp \<le> 0xDFFF then
                        parse_string (drop 4 s) (- 1)
                          (out @ encode_utf8 (or (push_bit 10 (last_escaped - 0xD800)) (cp - 0xDC00) + 0x10000))
                      else parse_string (drop 4 s) cp (out @ encode_utf8 last_escaped)
                else
                  case simple_escape ch of
                    None \<Rightarrow> None
                  | Some c \<Rightarrow> parse_string s (- 1) (out @ encode_utf8 last_escaped @ [c]))"
  by pat_completeness auto
termination
  by (relation "measure (\<lambda>(s, _, _). length s)") auto

declare parse_string.simps [simp del]

text \<open>\<^verbatim>\<open>atoi\<close> on the text of an integer.\<close>

definition lexeme_int :: "bytes \<Rightarrow> int32" where
  "lexeme_int t =
     (let value = \<lambda>ds. of_nat (foldl (\<lambda>n c. 10 * n + unat (c - 48)) 0 ds)
      in case t of [] \<Rightarrow> 0 | c # ds \<Rightarrow> if c = 45 then - value ds else value t)"

definition integer_part :: "bytes \<Rightarrow> bytes option" where
  "integer_part s =
     (if peek s = 48 then (if is_digit (peek (tl s)) then None else Some (tl s))
      else if 49 \<le> peek s \<and> peek s \<le> 57 then Some (dropWhile is_digit s)
      else None)"

definition fraction_part :: "bytes \<Rightarrow> bytes option" where
  "fraction_part s =
     (if peek s = 46 then (if is_digit (peek (tl s)) then Some (dropWhile is_digit (tl s)) else None) else Some s)"

definition exponent_part :: "bytes \<Rightarrow> bytes option" where
  "exponent_part s =
     (if peek s = 101 \<or> peek s = 69 then
        let s = tl s; s = (if peek s = 43 \<or> peek s = 45 then tl s else s)
        in if is_digit (peek s) then Some (dropWhile is_digit s) else None
      else Some s)"

definition parse_number :: "bytes \<Rightarrow> (json \<times> bytes) option" where
  "parse_number str =
     (case integer_part (if peek str = 45 then tl str else str) of
        None \<Rightarrow> None
      | Some s \<Rightarrow>
          let n = length str - length s
          in if peek s \<noteq> 46 \<and> peek s \<noteq> 101 \<and> peek s \<noteq> 69 \<and> n \<le> 9
             then Some (JsonInt (lexeme_int (take n str)), s)
             else
               case fraction_part s of
                 None \<Rightarrow> None
               | Some s \<Rightarrow>
                   (case exponent_part s of
                      None \<Rightarrow> None
                    | Some s \<Rightarrow> Some (JsonDouble (take (length str - length s) str), s)))"

definition expect :: "bytes \<Rightarrow> json \<Rightarrow> bytes \<Rightarrow> (json \<times> bytes) option" where
  "expect expected res s = (if prefix expected s then Some (res, drop (length expected) s) else None)"

text \<open>
  The loops over the members of an object and the items of an array, from the token that
  starts a member or an item on. Every round uses up text, which the last test states again
  for the loop to end whatever \<open>parse\<close> does.
\<close>

function parse_members ::
  "(bytes \<Rightarrow> (json \<times> bytes) option) \<Rightarrow> (bytes \<times> json) list \<Rightarrow> bytes \<Rightarrow> ((bytes \<times> json) list \<times> bytes) option" where
  "parse_members parse data s =
     (if peek s \<noteq> 34 then None
      else case parse_string (tl s) (- 1) [] of
        None \<Rightarrow> None
      | Some (key, s1) \<Rightarrow>
          (case get_next_token s1 of
             None \<Rightarrow> None
           | Some (ch, s2) \<Rightarrow>
               if ch \<noteq> 58 then None
               else case parse s2 of
                 None \<Rightarrow> None
               | Some (value, s3) \<Rightarrow>
                   let data = map_put key value data in
                   case get_next_token s3 of
                     None \<Rightarrow> None
                   | Some (ch, s4) \<Rightarrow>
                       if ch = 125 then Some (data, s4)
                       else if ch \<noteq> 44 then None
                       else case get_next_token s4 of
                         None \<Rightarrow> None
                       | Some (ch, s5) \<Rightarrow>
                           if Suc (length s5) < length s then parse_members parse data (ch # s5) else None))"
  by pat_completeness auto
termination
  by (relation "measure (\<lambda>(_, _, s). length s)") auto

function parse_items ::
  "(bytes \<Rightarrow> (json \<times> bytes) option) \<Rightarrow> json list \<Rightarrow> bytes \<Rightarrow> (json list \<times> bytes) option" where
  "parse_items parse data s =
     (case parse s of
        None \<Rightarrow> None
      | Some (value, s1) \<Rightarrow>
          let data = data @ [value] in
          case get_next_token s1 of
            None \<Rightarrow> None
          | Some (ch, s2) \<Rightarrow>
              if ch = 93 then Some (data, s2)
              else if ch \<noteq> 44 then None
              else case get_next_token s2 of
                None \<Rightarrow> None
              | Some (ch, s3) \<Rightarrow>
                  if Suc (length s3) < length s then parse_items parse data (ch # s3) else None)"
  by pat_completeness auto
termination
  by (relation "measure (\<lambda>(_, _, s). length s)") auto

declare parse_members.simps [simp del] parse_items.simps [simp del]

text \<open>The number is how many more levels of nesting are allowed.\<close>

fun parse_json :: "nat \<Rightarrow> bytes \<Rightarrow> (json \<times> bytes) option" where
  "parse_json 0 str = None"
| "parse_json (Suc depth) str =
     (case get_next_token str of
        None \<Rightarrow> None
      | Some (ch, s) \<Rightarrow>
          if ch = 45 \<or> is_digit ch then parse_number (ch # s)
          else if ch = 116 then expect (ascii ''true'') (JsonBoolean True) (ch # s)
          else if ch = 102 then expect (ascii ''false'') (JsonBoolean False) (ch # s)
          else if ch = 110 then expect (ascii ''null'') JsonNull (ch # s)
          else if ch = 34 then map_option (\<lambda>(t, s). (JsonString t, s)) (parse_string s (- 1) [])
          else if ch = 123 then
            (case get_next_token s of
               None \<Rightarrow> None
             | Some (ch, s) \<Rightarrow>
                 if ch = 125 then Some (JsonObject [], s)
                 else map_option (\<lambda>(m, s). (JsonObject m, s)) (parse_members (parse_json depth) [] (ch # s)))
          else if ch = 91 then
            (case get_next_token s of
               None \<Rightarrow> None
             | Some (ch, s) \<Rightarrow>
                 if ch = 93 then Some (JsonArray [], s)
                 else map_option (\<lambda>(js, s). (JsonArray js, s)) (parse_items (parse_json depth) [] (ch # s)))
          else None)"

text \<open>\<open>None\<close> is an error with its message.\<close>

definition json_parse :: "bytes \<Rightarrow> json option" where
  "json_parse in_text =
     (case parse_json (Suc max_depth) in_text of
        None \<Rightarrow> None
      | Some (result, s) \<Rightarrow> if consume_garbage s = [] then Some result else None)"

section \<open>Every round of a loop uses up text\<close>

lemma next_token_shorter: "get_next_token s = Some (c, s') \<Longrightarrow> Suc (length s') \<le> length s"
  using length_dropWhile_le [of json_space s]
  by (auto simp: get_next_token_def consume_garbage_def split: list.splits)

lemma parse_string_shorter: "parse_string s l out = Some (t, s') \<Longrightarrow> length s' < length s"
proof (induction "length s" arbitrary: s l out rule: less_induct)
  case less
  have step: "length s' < length s" if "parse_string r l' out' = Some (t, s')" "length r < length s" for r l' out'
    using less.hyps [OF that(2,1)] that(2) by simp
  show ?case
    using less.prems
    by (subst (asm) parse_string.simps) (auto split: list.splits if_splits option.splits dest: step)
qed

lemma number_shorter: "parse_number s = Some (j, s') \<Longrightarrow> length s' < length s"
proof -
  have integer: "length r' < length r" if "integer_part r = Some r'" for r r'
    using that length_dropWhile_le [of is_digit "tl r"]
    by (cases r) (auto simp: integer_part_def peek_def is_digit_def word_le_nat_alt split: if_splits)
  have fraction: "length r' \<le> length r" if "fraction_part r = Some r'" for r r'
    using that length_dropWhile_le [of is_digit "tl r"] by (cases r) (auto simp: fraction_part_def split: if_splits)
  have exponent: "length r' \<le> length r" if "exponent_part r = Some r'" for r r'
    using that length_dropWhile_le [of is_digit "tl r"] length_dropWhile_le [of is_digit "tl (tl r)"]
    by (cases r) (auto simp: exponent_part_def Let_def peek_def split: if_splits list.splits)
  assume run: "parse_number s = Some (j, s')"
  have "length (if peek s = 45 then tl s else s) \<le> length s" by simp
  then show ?thesis
    using run by (fastforce simp: parse_number_def Let_def split: option.splits if_splits dest: integer fraction exponent)
qed

text \<open>So the tests in the loops always hold for the parser.\<close>

definition shortens :: "(bytes \<Rightarrow> (json \<times> bytes) option) \<Rightarrow> bool" where
  "shortens parse \<longleftrightarrow> (\<forall>s j s'. parse s = Some (j, s') \<longrightarrow> length s' < length s)"

lemma parse_items_shorter:
  assumes "shortens parse"
  shows "parse_items parse data s = Some (js, s') \<Longrightarrow> length s' < length s"
proof (induction "length s" arbitrary: s data rule: less_induct)
  case less
  have step: "length s' < length s" if "parse_items parse data' r = Some (js, s')" "length r < length s" for r data'
    using less.hyps [OF that(2,1)] that(2) by simp
  show ?case
    using less.prems assms [unfolded shortens_def, rule_format, of s]
    by (subst (asm) parse_items.simps)
       (auto simp: Let_def split: option.splits if_splits dest!: next_token_shorter dest: step, drule step, simp_all)
qed

lemma parse_members_shorter:
  assumes "shortens parse"
  shows "parse_members parse data s = Some (m, s') \<Longrightarrow> length s' < length s"
proof (induction "length s" arbitrary: s data rule: less_induct)
  case less
  have step: "length s' < length s" if "parse_members parse data' r = Some (m, s')" "length r < length s" for r data'
    using less.hyps [OF that(2,1)] that(2) by simp
  have parse: "length s3 < length s2" if "parse s2 = Some (v, s3)" for s2 s3 v
    using assms that by (simp add: shortens_def)
  have "length (tl s) \<le> length s" by simp
  then show ?case
    using less.prems
    by (subst (asm) parse_members.simps)
       (auto simp: Let_def simp del: length_tl split: option.splits if_splits
         dest!: next_token_shorter parse_string_shorter parse, drule step, simp_all)
qed

lemma expect_shorter: "expect (c # e) r (d # s) = Some (j, s') \<Longrightarrow> length s' \<le> length s"
  by (auto simp: expect_def split: if_splits)

lemma parse_json_shortens: "shortens (parse_json depth)"
proof (induction depth)
  case (Suc depth)
  show ?case
    unfolding shortens_def
  proof (intro allI impI)
    fix s j s'
    assume "parse_json (Suc depth) s = Some (j, s')"
    then show "length s' < length s"
      by (auto simp: ascii_def split: option.splits if_splits
          dest!: expect_shorter next_token_shorter number_shorter parse_string_shorter
            parse_items_shorter [OF Suc] parse_members_shorter [OF Suc])
  qed
qed (simp add: shortens_def)

text \<open>The loops without the test.\<close>

lemma parse_items_eq:
  assumes "shortens parse"
  shows "parse_items parse data s =
     (case parse s of
        None \<Rightarrow> None
      | Some (value, s1) \<Rightarrow>
          (case get_next_token s1 of
             None \<Rightarrow> None
           | Some (ch, s2) \<Rightarrow>
               if ch = 93 then Some (data @ [value], s2)
               else if ch \<noteq> 44 then None
               else case get_next_token s2 of
                 None \<Rightarrow> None
               | Some (ch, s3) \<Rightarrow> parse_items parse (data @ [value]) (ch # s3)))"
  using assms
  by (subst parse_items.simps) (auto simp: Let_def shortens_def split: option.split dest!: next_token_shorter, fastforce)

lemma parse_members_eq:
  assumes "shortens parse"
  shows "parse_members parse data s =
     (if peek s \<noteq> 34 then None
      else case parse_string (tl s) (- 1) [] of
        None \<Rightarrow> None
      | Some (key, s1) \<Rightarrow>
          (case get_next_token s1 of
             None \<Rightarrow> None
           | Some (ch, s2) \<Rightarrow>
               if ch \<noteq> 58 then None
               else case parse s2 of
                 None \<Rightarrow> None
               | Some (value, s3) \<Rightarrow>
                   (case get_next_token s3 of
                      None \<Rightarrow> None
                    | Some (ch, s4) \<Rightarrow>
                        if ch = 125 then Some (map_put key value data, s4)
                        else if ch \<noteq> 44 then None
                        else case get_next_token s4 of
                          None \<Rightarrow> None
                        | Some (ch, s5) \<Rightarrow> parse_members parse (map_put key value data) (ch # s5))))"
proof -
  have "Suc (length s5) < length s"
    if "parse_string (tl s) (- 1) [] = Some (key, s1)" "get_next_token s1 = Some (c1, s2)" "parse s2 = Some (v, s3)"
      "get_next_token s3 = Some (c2, s4)" "get_next_token s4 = Some (c3, s5)" for key s1 c1 s2 v s3 c2 s4 c3 s5
    using that assms [unfolded shortens_def, rule_format, OF that(3)] length_tl [of s]
    by (auto dest!: next_token_shorter parse_string_shorter)
  then show ?thesis
    by (subst parse_members.simps) (auto simp: Let_def split: option.split)
qed

section \<open>Reading back what was written\<close>

lemma control_escapes:
  "list_all (\<lambda>c. codepoint [48, 48, hex_lower (c div 16), hex_lower (c mod 16)] = Some (uint c) \<and>
     encode_utf8 (uint c) = [c]) (map of_nat [0..<32])"
  by code_simp

lemma control_listed:
  assumes "c \<le> (0x1f :: byte)"
  shows "c \<in> set (map of_nat [0..<32])"
proof -
  have "unat c \<in> set [0..<32]" using assms by (simp add: word_le_nat_alt)
  then have "(of_nat (unat c) :: byte) \<in> set (map of_nat [0..<32])" unfolding set_map by (rule imageI)
  moreover have "of_nat (unat c) = c" by simp
  ultimately show ?thesis by (simp only:)
qed

lemma control_escape:
  assumes "c \<le> 0x1f"
  shows "codepoint [48, 48, hex_lower (c div 16), hex_lower (c mod 16)] = Some (uint c)" "encode_utf8 (uint c) = [c]"
    "uint c < 0xDC00"
proof -
  show "codepoint [48, 48, hex_lower (c div 16), hex_lower (c mod 16)] = Some (uint c)" "encode_utf8 (uint c) = [c]"
    using control_listed [OF assms] control_escapes unfolding list_all_iff by blast+
  show "uint c < 0xDC00" using uint_lt2p [of c] by simp
qed

lemma separator_escapes:
  "codepoint [50, 48, 50, 56] = Some 0x2028" "encode_utf8 0x2028 = [0xe2, 0x80, 0xa8]"
  "codepoint [50, 48, 50, 57] = Some 0x2029" "encode_utf8 0x2029 = [0xe2, 0x80, 0xa9]"
  by code_simp+

lemma encode_none [simp]: "encode_utf8 (- 1) = []"
  by (simp add: encode_utf8_def)

lemma parse_plain:
  assumes "ch \<noteq> 34" "\<not> ch \<le> 0x1f" "ch \<noteq> 92"
  shows "parse_string (ch # s) l out = parse_string s (- 1) (out @ encode_utf8 l @ [ch])"
  using assms by (subst parse_string.simps) simp

lemma parse_escape:
  assumes "simple_escape e = Some c"
  shows "parse_string (92 # e # s) l out = parse_string s (- 1) (out @ encode_utf8 l @ [c])"
proof -
  have "e \<noteq> 117" using assms by (auto simp: simple_escape_def)
  then show ?thesis using assms by (subst parse_string.simps) simp
qed

lemma parse_escape_u:
  assumes "codepoint [a, b, c, d] = Some cp" "cp < 0xDC00"
  shows "parse_string (92 # 117 # a # b # c # d # s) l out = parse_string s cp (out @ encode_utf8 l)"
  using assms by (subst parse_string.simps) simp

lemma simple_escapes:
  "simple_escape 92 = Some 92" "simple_escape 34 = Some 34" "simple_escape 98 = Some 8" "simple_escape 102 = Some 12"
  "simple_escape 110 = Some 10" "simple_escape 114 = Some 13" "simple_escape 116 = Some 9"
  by (simp_all add: simple_escape_def)

lemma parse_dump_chars: "parse_string (dump_chars v @ 34 # rest) l out = Some (out @ encode_utf8 l @ v, rest)"
proof (induction "length v" arbitrary: v l out rule: less_induct)
  case less
  show ?case
  proof (cases v)
    case Nil
    have "dump_chars [] = []" by (simp add: dump_chars.simps)
    then show ?thesis using Nil by (simp add: parse_string.simps [of "34 # rest"])
  next
    case (Cons ch s)
    have s: "parse_string (dump_chars s @ 34 # rest) l out = Some (out @ encode_utf8 l @ s, rest)" for l out
      using less Cons by simp
    have r: "parse_string (dump_chars (drop 2 s) @ 34 # rest) l out = Some (out @ encode_utf8 l @ drop 2 s, rest)" for l out
      using less Cons by simp
    have sep: "s = p @ drop 2 s" if "prefix p s" "length p = 2" for p
      using that by (auto simp: prefix_def)
    show ?thesis
      using sep [of "[0x80, 0xa8]"] sep [of "[0x80, 0xa9]"]
      by (subst dump_chars.simps)
         (auto simp: Cons s r parse_plain parse_escape parse_escape_u simple_escapes escape_u_def control_escape separator_escapes)
  qed
qed

text \<open>What must not follow a number.\<close>

definition ends_number :: "bytes \<Rightarrow> bool" where
  "ends_number rest \<longleftrightarrow> \<not> is_digit (peek rest) \<and> peek rest \<noteq> 46 \<and> peek rest \<noteq> 101 \<and> peek rest \<noteq> 69"

lemma decimal_head: "0 < n \<Longrightarrow> \<exists>c ds. decimal n = c # ds \<and> 49 \<le> c \<and> c \<le> 57"
proof (induction n rule: decimal.induct)
  case (1 n)
  show ?case
  proof (cases "n < 10")
    case True
    then have "n \<in> set [1..<10]" using "1.prems" by simp
    moreover have "list_all (\<lambda>n. 49 \<le> (48 + of_nat n :: byte) \<and> (48 + of_nat n :: byte) \<le> 57) [1..<10]" by code_simp
    ultimately have "49 \<le> (48 + of_nat n :: byte) \<and> (48 + of_nat n :: byte) \<le> 57" unfolding list_all_iff by blast
    then show ?thesis using True by (simp add: decimal.simps [of n])
  next
    case False
    then have "0 < n div 10" by (simp add: div_greater_zero_iff)
    then obtain c ds where "decimal (n div 10) = c # ds" "49 \<le> c \<and> c \<le> 57" using 1 False by blast
    then show ?thesis using False by (simp add: decimal.simps [of n])
  qed
qed

lemma dropWhile_digits:
  "list_all is_digit ds \<Longrightarrow> \<not> is_digit (peek rest) \<Longrightarrow> dropWhile is_digit (ds @ rest) = rest"
  by (induction ds) (auto simp: peek_def split: list.splits)

lemma integer_part_decimal:
  assumes "\<not> is_digit (peek rest)"
  shows "integer_part (decimal n @ rest) = Some rest"
proof (cases "n = 0")
  case True
  then show ?thesis using assms by (simp add: decimal.simps integer_part_def peek_def)
next
  case False
  then obtain c ds where c: "decimal n = c # ds" "49 \<le> c" "c \<le> 57" using decimal_head by blast
  then have "c \<noteq> 48" by auto
  moreover have "dropWhile is_digit (decimal n @ rest) = rest" using decimal_digits assms by (rule dropWhile_digits)
  ultimately show ?thesis using c by (simp add: integer_part_def peek_def)
qed

lemma lexeme_int_text: "lexeme_int (int_text i) = i"
proof (cases "sint i < 0")
  case True
  have "(of_nat (nat (- sint i)) :: int32) = of_int (- sint i)" using True by (intro of_nat_nat) simp
  also have "\<dots> = - i" by (simp only: of_int_minus of_int_sint scast_id)
  finally have "- (of_nat (nat (- sint i)) :: int32) = i" by (simp only: minus_minus)
  then show ?thesis using True by (simp only: lexeme_int_def int_text_def Let_def list.case decimal_value if_True refl)
next
  case False
  have "(of_nat (nat (sint i)) :: int32) = of_int (sint i)" using False by (intro of_nat_nat) simp
  also have "\<dots> = i" by (simp only: of_int_sint scast_id)
  finally have val: "(of_nat (nat (sint i)) :: int32) = i" .
  obtain c ds where c: "decimal (nat (sint i)) = c # ds"
    using decimal_nonempty by (cases "decimal (nat (sint i))") auto
  moreover have "c \<noteq> 45" using decimal_digits [of "nat (sint i)"] c by (auto simp: is_digit_def)
  ultimately have "lexeme_int (decimal (nat (sint i))) =
      of_nat (foldl (\<lambda>n c. 10 * n + unat (c - 48)) 0 (decimal (nat (sint i))))"
    by (simp add: lexeme_int_def)
  also have "\<dots> = i" by (simp only: decimal_value val)
  finally show ?thesis using False by (simp only: int_text_def if_False)
qed

lemma parse_int_text:
  assumes "ends_number rest" "length (int_text i) \<le> 9"
  shows "parse_number (int_text i @ rest) = Some (JsonInt i, rest)"
proof -
  have "integer_part (if peek (int_text i @ rest) = 45 then tl (int_text i @ rest) else int_text i @ rest) = Some rest"
  proof (cases "sint i < 0")
    case False
    moreover obtain c ds where c: "decimal (nat (sint i)) = c # ds"
      using decimal_nonempty by (cases "decimal (nat (sint i))") auto
    moreover have "c \<noteq> 45" using decimal_digits [of "nat (sint i)"] c by (auto simp: is_digit_def)
    ultimately show ?thesis
      using integer_part_decimal [of rest "nat (sint i)"] assms(1) by (simp add: int_text_def peek_def ends_number_def)
  qed (use integer_part_decimal assms(1) in \<open>simp add: int_text_def peek_def ends_number_def\<close>)
  then show ?thesis
    using assms by (simp add: parse_number_def ends_number_def lexeme_int_text)
qed

text \<open>The values that are read back: no numbers but short integers, and not nested too deeply.\<close>

fun json_ok :: "nat \<Rightarrow> json \<Rightarrow> bool" where
  "json_ok 0 j \<longleftrightarrow> False"
| "json_ok (Suc d) (JsonInt i) \<longleftrightarrow> length (int_text i) \<le> 9"
| "json_ok (Suc d) (JsonDouble t) \<longleftrightarrow> False"
| "json_ok (Suc d) (JsonArray js) \<longleftrightarrow> list_all (json_ok d) js"
| "json_ok (Suc d) (JsonObject m) \<longleftrightarrow> map_sorted m \<and> list_all (\<lambda>(_, j). json_ok d j) m"
| "json_ok (Suc d) j \<longleftrightarrow> True"

definition starts_value :: "bytes \<Rightarrow> bool" where
  "starts_value s \<longleftrightarrow> s \<noteq> [] \<and> \<not> json_space (hd s) \<and> hd s \<noteq> 93 \<and> hd s \<noteq> 125"

lemma digit_starts: "is_digit c \<Longrightarrow> \<not> json_space c \<and> c \<noteq> 93 \<and> c \<noteq> 125"
  by (auto simp: is_digit_def json_space_def)

lemma dump_starts: "json_ok d j \<Longrightarrow> starts_value (json_dump dd j)"
proof (cases j)
  case (JsonInt i)
  have "starts_value (decimal n)" for n
    using decimal_nonempty [of n] decimal_digits [of n] digit_starts
    by (cases "decimal n") (auto simp: starts_value_def)
  then show ?thesis
    using JsonInt by (simp add: int_text_def) (simp add: starts_value_def json_space_def)
qed (cases d; auto simp: starts_value_def ascii_def dump_string_def json_space_def)+

lemma next_token_value:
  assumes "starts_value s"
  shows "get_next_token (s @ rest) = Some (hd s, tl s @ rest)" "get_next_token (32 # s @ rest) = Some (hd s, tl s @ rest)"
  using assms
  by (cases s; simp add: get_next_token_def consume_garbage_def starts_value_def json_space_def)+

lemma next_token_mark: "\<not> json_space c \<Longrightarrow> get_next_token (c # s) = Some (c, s)"
  by (simp add: get_next_token_def consume_garbage_def)

lemma mark_spaces: "\<not> json_space 44" "\<not> json_space 58" "\<not> json_space 93" "\<not> json_space 125" "\<not> json_space 34"
  "\<not> json_space 91" "\<not> json_space 123"
  by (simp_all add: json_space_def)

lemma parse_json_space: "parse_json d (32 # s) = parse_json d s"
  by (cases d) (simp_all add: get_next_token_def consume_garbage_def json_space_def)

lemma ends_number_marks: "ends_number (44 # s)" "ends_number (93 # s)" "ends_number (125 # s)" "ends_number []"
  by (simp_all add: ends_number_def peek_def is_digit_def)

lemma parse_items_dump:
  assumes "shortens parse" "js \<noteq> []"
    and "\<And>j r. j \<in> set js \<Longrightarrow> ends_number r \<Longrightarrow> parse (f j @ r) = Some (j, r)"
    and "\<And>j. j \<in> set js \<Longrightarrow> starts_value (f j)"
  shows "parse_items parse data (separated (map f js) @ 93 # rest) = Some (data @ js, rest)"
  using assms(2-)
proof (induction js arbitrary: data)
  case (Cons j js)
  show ?case
  proof (cases js)
    case Nil
    then show ?thesis
      using Cons.prems(2) [of j "93 # rest"]
      by (subst parse_items_eq [OF assms(1)]) (simp add: ends_number_marks next_token_mark mark_spaces)
  next
    case (Cons j2 js2)
    have start: "starts_value (separated (map f js))"
      using Cons.prems(3) [of j2] Cons by (cases js2) (auto simp: starts_value_def)
    then obtain c t where sep: "separated (map f js) = c # t" "\<not> json_space c"
      by (cases "separated (map f js)") (auto simp: starts_value_def)
    have "separated (map f (j # js)) = f j @ 44 # 32 # c # t" using Cons sep by simp
    moreover have "get_next_token (32 # c # t @ 93 # rest) = Some (c, t @ 93 # rest)"
      using next_token_value(2) [OF start, of "93 # rest"] sep by simp
    moreover have "parse_items parse (data @ [j]) (c # t @ 93 # rest) = Some ((data @ [j]) @ js, rest)"
      using Cons.IH [of "data @ [j]"] Cons.prems Cons sep by simp
    ultimately show ?thesis
      using Cons.prems(2) [of j "44 # 32 # c # t @ 93 # rest"]
      by (subst parse_items_eq [OF assms(1)]) (simp add: ends_number_marks next_token_mark mark_spaces)
  qed
qed simp

lemma map_put_last: "map_sorted (data @ [(k, v)]) \<Longrightarrow> map_put k v data = data @ [(k, v)]"
  by (induction data) (auto simp: map_sorted_def sorted_wrt_append)

lemma parse_members_dump:
  assumes "shortens parse" "m \<noteq> []" "map_sorted (data @ m)"
    and "\<And>k j r. (k, j) \<in> set m \<Longrightarrow> ends_number r \<Longrightarrow> parse (32 # f j @ r) = Some (j, r)"
  shows "parse_members parse data (separated (map (\<lambda>(k, j). dump_string k @ [58, 32] @ f j) m) @ 125 # rest) =
    Some (data @ m, rest)"
  using assms(2-)
proof (induction m arbitrary: data)
  case (Cons kj m)
  obtain k j where kj: "kj = (k, j)" by fastforce
  let ?g = "\<lambda>(k, j). dump_string k @ [58, 32] @ f j"
  have put: "map_put k j data = data @ [(k, j)]"
    using Cons.prems(2) kj by (intro map_put_last) (auto simp: map_sorted_def sorted_wrt_append)
  have key: "parse_string (dump_chars k @ 34 # r) (- 1) [] = Some (k, r)" for r
    using parse_dump_chars [of k r "- 1" "[]"] by simp
  show ?case
  proof (cases m)
    case Nil
    then show ?thesis
      using Cons.prems(3) [of k j "125 # rest"] kj
      by (subst parse_members_eq [OF assms(1)])
         (simp add: dump_string_def peek_def key next_token_mark mark_spaces ends_number_marks put)
  next
    case (Cons kj2 m2)
    obtain t where t: "separated (map ?g m) = 34 # t"
      using Cons by (cases m2; cases kj2) (auto simp: dump_string_def)
    have "get_next_token (32 # 34 # t @ 125 # rest) = Some (34, t @ 125 # rest)"
      by (simp add: get_next_token_def consume_garbage_def json_space_def)
    moreover have "separated (map ?g (kj # m)) = dump_string k @ 58 # 32 # f j @ 44 # 32 # 34 # t"
      using Cons t kj by simp
    moreover have "parse_members parse (data @ [(k, j)]) (34 # t @ 125 # rest) = Some ((data @ [(k, j)]) @ m, rest)"
      using Cons.IH [of "data @ [(k, j)]"] Cons.prems Cons t kj by auto
    ultimately show ?thesis
      using Cons.prems(3) [of k j "44 # 32 # 34 # t @ 125 # rest"] kj
      by (subst parse_members_eq [OF assms(1)])
         (simp add: dump_string_def peek_def key next_token_mark mark_spaces ends_number_marks put)
  qed
qed simp

lemma parse_json_dump:
  "json_ok d j \<Longrightarrow> ends_number rest \<Longrightarrow> parse_json d (json_dump dd j @ rest) = Some (j, rest)"
proof (induction d arbitrary: j rest)
  case (Suc d)
  have token: "get_next_token (json_dump dd j @ rest) = Some (hd (json_dump dd j), tl (json_dump dd j) @ rest)"
    using dump_starts [OF Suc.prems(1)] by (rule next_token_value)
  show ?case
  proof (cases j)
    case (JsonInt i)
    have "\<exists>c ds. int_text i = c # ds \<and> (c = 45 \<or> is_digit c)"
      using decimal_nonempty [of "nat (sint i)"] decimal_digits [of "nat (sint i)"]
      by (cases "decimal (nat (sint i))") (auto simp: int_text_def)
    then show ?thesis
      using JsonInt token parse_int_text [OF Suc.prems(2), of i] Suc.prems(1) by auto
  next
    case (JsonString s)
    then show ?thesis
      using token parse_dump_chars [of s rest "- 1" "[]"] by (simp add: dump_string_def is_digit_def)
  next
    case (JsonArray js)
    show ?thesis
    proof (cases js)
      case (Cons j1 js1)
      let ?t = "separated (map (json_dump dd) js)"
      have items: "parse_items (parse_json d) [] (?t @ 93 # rest) = Some ([] @ js, rest)"
        using Suc.IH Suc.prems(1) JsonArray Cons dump_starts
        by (intro parse_items_dump parse_json_shortens) (auto simp: list_all_iff)
      have start: "starts_value ?t"
        using dump_starts [of d j1 dd] Suc.prems(1) JsonArray Cons by (cases js1) (auto simp: starts_value_def)
      then obtain c t where t: "?t = c # t" "c \<noteq> 93" by (cases ?t) (auto simp: starts_value_def)
      have "get_next_token (?t @ 93 # rest) = Some (c, t @ 93 # rest)"
        using next_token_value(1) [OF start, of "93 # rest"] t by simp
      then show ?thesis
        using token items t JsonArray by (simp add: is_digit_def)
    qed (use JsonArray token in \<open>simp add: is_digit_def next_token_mark mark_spaces\<close>)
  next
    case (JsonObject m)
    show ?thesis
    proof (cases m)
      case (Cons kj m1)
      let ?g = "\<lambda>(k, j). dump_string k @ [58, 32] @ json_dump dd j"
      have members: "parse_members (parse_json d) [] (separated (map ?g m) @ 125 # rest) = Some ([] @ m, rest)"
        using Suc.IH Suc.prems(1) JsonObject Cons
        by (intro parse_members_dump parse_json_shortens) (auto simp: list_all_iff parse_json_space)
      obtain t where t: "separated (map ?g m) = 34 # t"
        using Cons by (cases m1; cases kj) (auto simp: dump_string_def)
      then show ?thesis
        using token members JsonObject by (simp add: is_digit_def next_token_mark mark_spaces)
    qed (use JsonObject token in \<open>simp add: is_digit_def next_token_mark mark_spaces\<close>)
  qed (use token Suc.prems in \<open>auto simp: is_digit_def ascii_def expect_def\<close>)
qed simp

lemma json_round_trip: "json_ok (Suc max_depth) j \<Longrightarrow> json_parse (json_dump dd j) = Some j"
  using parse_json_dump [of "Suc max_depth" j "[]" dd]
  by (simp add: json_parse_def ends_number_marks consume_garbage_def)

text \<open>The text of a string has no zeros, so it passes through C strings unchanged.\<close>

lemma escapes_nonzero: "list_all (\<lambda>c. 0 \<notin> set (escape_u c)) (map of_nat [0..<32])"
  by code_simp

lemma dump_chars_nonzero: "0 \<notin> set (dump_chars s)"
proof (induction "length s" arbitrary: s rule: less_induct)
  case less
  have "0 \<notin> set (escape_u c)" if "c \<le> 0x1f" for c
    using control_listed [OF that] escapes_nonzero unfolding list_all_iff by blast
  then show ?case
    using less.hyps by (subst dump_chars.simps) (auto split: list.splits)
qed

lemma dump_chars_length: "length (dump_chars s) \<le> 6 * length s"
proof (induction "length s" arbitrary: s rule: less_induct)
  case less
  have step: "length (dump_chars t) \<le> 6 * length t" if "length t < length s" for t
    using less that by simp
  show ?case
  proof (cases s)
    case (Cons c t)
    have "length (dump_chars (drop 2 t)) \<le> 6 * (length t - 2)" using step [of "drop 2 t"] Cons by simp
    moreover have "length (dump_chars t) \<le> 6 * length t" using step [of t] Cons by simp
    moreover have "length (escape_u c) = 6" by (simp add: escape_u_def)
    ultimately show ?thesis unfolding Cons by (subst dump_chars.simps) (auto simp: prefix_def)
  qed (simp add: dump_chars.simps)
qed

end
