(* ===== verification/Linked.thy ===== *)
theory Linked
  imports Composition Base64 Json
begin

text \<open>
  The program linked with its base64 codec and its JSON library: the fields of the library
  record they stand behind are set to the models of the two, and what one part writes as
  text the other reads back. What remains open of them is the text of a floating point number
  and the integer it is cut to.
\<close>

section \<open>Linking\<close>

text \<open>The value of a text; one that is not JSON gives the null value.\<close>

definition json_body :: "bytes \<Rightarrow> json" where
  "json_body payload = (case json_parse payload of None \<Rightarrow> JsonNull | Some j \<Rightarrow> j)"

text \<open>The objects the program sends, with their members in the order of the keys.\<close>

definition success_object :: "int32 \<Rightarrow> json" where
  "success_object n = JsonObject [(ascii ''success'', JsonInt n)]"

definition report_object :: "int32 \<Rightarrow> cstring \<Rightarrow> json" where
  "report_object my_id my_report =
     JsonObject [(ascii ''report'', JsonString my_report), (ascii ''server_id'', JsonInt my_id)]"

definition server_object :: "ushort \<Rightarrow> bytes \<Rightarrow> json" where
  "server_object sid endpoint =
     JsonObject [(ascii ''endpoint'', JsonString endpoint), (ascii ''server_id'', JsonInt (ucast sid))]"

definition linked :: "(bytes \<Rightarrow> bytes) \<Rightarrow> (bytes \<Rightarrow> int32) \<Rightarrow> library \<Rightarrow> library" where
  "linked dump_double double_to_int lib =
     lib\<lparr>lb_base64_decode := \<lambda>s. case b64_decode s of Inl _ \<Rightarrow> None | Inr bs \<Rightarrow> Some bs,
         lb_json_parses := \<lambda>t. json_parse t \<noteq> None,
         lb_json_int := \<lambda>t key. int_value double_to_int (json_at (json_body t) (ascii key)),
         lb_json_string := \<lambda>t key. string_value (json_at (json_body t) (ascii key)),
         lb_json_items := \<lambda>t. map string_value (array_items (json_body t)),
         lb_dump_success := \<lambda>n. json_dump dump_double (success_object n),
         lb_dump_report := \<lambda>my_id my_report. json_dump dump_double (report_object my_id my_report)\<rparr>"

text \<open>What the client program writes.\<close>

definition dump_strings :: "(bytes \<Rightarrow> bytes) \<Rightarrow> cstring list \<Rightarrow> bytes" where
  "dump_strings dump_double ss = json_dump dump_double (JsonArray (map JsonString ss))"

definition dump_server :: "(bytes \<Rightarrow> bytes) \<Rightarrow> ushort \<Rightarrow> bytes \<Rightarrow> bytes" where
  "dump_server dump_double sid endpoint = json_dump dump_double (server_object sid endpoint)"

section \<open>Texts are read back\<close>

lemma json_body_dump: "json_ok (Suc max_depth) j \<Longrightarrow> json_body (json_dump dd j) = j"
  by (simp add: json_body_def json_round_trip)

lemma json_ok_parts:
  "list_all (\<lambda>j. \<forall>d. json_ok (Suc d) j) js \<Longrightarrow> json_ok (Suc max_depth) (JsonArray js)"
  "list_all (\<lambda>(_, j). \<forall>d. json_ok (Suc d) j) m \<Longrightarrow> map_sorted m \<Longrightarrow> json_ok (Suc max_depth) (JsonObject m)"
proof -
  have "json_ok max_depth j" if "\<forall>d. json_ok (Suc d) j" for j
  proof -
    have "max_depth = Suc (max_depth - 1)" by (simp add: max_depth_def)
    then show ?thesis using that by metis
  qed
  then show "list_all (\<lambda>j. \<forall>d. json_ok (Suc d) j) js \<Longrightarrow> json_ok (Suc max_depth) (JsonArray js)"
    "list_all (\<lambda>(_, j). \<forall>d. json_ok (Suc d) j) m \<Longrightarrow> map_sorted m \<Longrightarrow> json_ok (Suc max_depth) (JsonObject m)"
    by (auto simp: list_all_iff)
qed

lemma short_int: "sint i < 0 \<or> nat (sint i) < 10 ^ 9 \<Longrightarrow> - (10 ^ 8) < sint i \<Longrightarrow> length (int_text i) \<le> 9"
  using length_decimal [of "nat (sint i)" 9] length_decimal [of "nat (- sint i)" 8] by (auto simp: int_text_def)

lemma ushort_short: "length (int_text (ucast (sid :: ushort))) \<le> 9"
proof -
  have sid: "0 \<le> uint sid" "uint sid < 65536" using uint_lt2p [of sid] by simp_all
  then have hi: "uint sid < 2 ^ 31" by simp
  have "- (2 ^ 31) \<le> uint sid" by (rule order_trans [of _ 0]) simp_all
  then have "signed_take_bit 31 (uint sid) = uint sid" using hi by (rule signed_take_bit_int_eq_self)
  then have "sint (ucast sid :: int32) = uint sid"
    using sid by (simp add: sint_uint unsigned_ucast_eq take_bit_int_eq_self)
  moreover have "uint sid < int (10 ^ 9)" using sid(2) by simp
  then have "nat (uint sid) < 10 ^ 9" by (simp only: nat_less_iff [OF sid(1)])
  ultimately show ?thesis using length_decimal [of "nat (uint sid)" 9] sid(1) by (simp add: int_text_def)
qed

lemma strings_ok: "json_ok (Suc max_depth) (JsonArray (map JsonString ss))"
  by (rule json_ok_parts(1)) (simp add: list_all_iff)

lemma success_ok: "json_ok (Suc max_depth) (success_object (if b then 1 else 0))"
proof -
  have "length (int_text (if b then 1 else 0)) \<le> 9" by (rule short_int) simp_all
  then show ?thesis unfolding success_object_def by (intro json_ok_parts(2)) (simp_all add: map_sorted_def)
qed

lemma key_order_text: "ascii ''report'' < ascii ''server_id''" "ascii ''endpoint'' < ascii ''server_id''"
  by (simp_all add: ascii_def)

lemma report_ok: "length (int_text i) \<le> 9 \<Longrightarrow> json_ok (Suc max_depth) (report_object i r)"
  unfolding report_object_def by (rule json_ok_parts(2)) (simp_all add: map_sorted_def key_order_text)

lemma server_ok: "json_ok (Suc max_depth) (server_object sid ep)"
  unfolding server_object_def
  by (rule json_ok_parts(2)) (simp_all add: map_sorted_def key_order_text ushort_short)

lemma keys_differ: "ascii ''report'' \<noteq> ascii ''server_id''" "ascii ''endpoint'' \<noteq> ascii ''server_id''"
  "ascii ''server_id'' \<noteq> ascii ''report''" "ascii ''server_id'' \<noteq> ascii ''endpoint''"
  using key_order_text by auto

text \<open>The strings of a client, base64 included.\<close>

lemma linked_items: "lb_json_items (linked dd di lib) (dump_strings dd ss) = ss"
  using json_body_dump [OF strings_ok] by (simp add: linked_def dump_strings_def o_def del: json_dump.simps)

lemma linked_base64: "lb_base64_decode (linked dd di lib) (b64_encode bs) = Some bs"
  by (simp add: linked_def b64_round_trip)

lemma linked_response:
  "rb_deserialize (linked dd di lib) (client_response (linked dd di lib) t b) = Inr b"
  using success_ok [of b]
  by (simp add: rb_deserialize_def client_response_def type_bytes_def linked_def json_body_dump json_round_trip)
     (simp add: success_object_def)

lemma linked_response_text:
  "client_response (linked dd di lib) t b =
     type_bytes t @ [123, 34] @ ascii ''success'' @ [34, 58, 32, if b then 49 else 48, 125]"
proof -
  have "dump_chars (ascii ''success'') = ascii ''success''" "int_text 1 = [49]" "int_text 0 = [48]" by code_simp+
  then show ?thesis by (simp add: client_response_def linked_def success_object_def dump_string_def)
qed

lemma linked_server:
  "lb_json_int (linked dd di lib) (dump_server dd sid ep) ''server_id'' = ucast sid"
  "lb_json_string (linked dd di lib) (dump_server dd sid ep) ''endpoint'' = ep"
  by (simp_all add: linked_def dump_server_def json_body_dump server_ok)
     (simp_all add: server_object_def keys_differ)

lemma linked_report:
  assumes "length (int_text i) \<le> 9"
  shows "lb_json_parses (linked dd di lib) (lb_dump_report (linked dd di lib) i r)"
    "lb_json_int (linked dd di lib) (lb_dump_report (linked dd di lib) i r) ''server_id'' = i"
    "lb_json_string (linked dd di lib) (lb_dump_report (linked dd di lib) i r) ''report'' = r"
  using report_ok [OF assms, of r]
  by (simp_all add: linked_def json_body_dump json_round_trip) (simp_all add: report_object_def keys_differ)

section \<open>A server is added\<close>

text \<open>
  What happens when a client asks the leader to add a server: the leader's enclave sends the
  server its report, the server keeps the leader's key and answers with its own report, and
  the leader keeps the server's key and adds the server to the cluster.
\<close>

lemma receive_report_run:
  assumes "en_key_store e = Some ks" "validate_verification_report lib (c_str r) = Inr (Some q)" "report_data q = Inr pk"
  shows "receive_report lib sid r e = (Inr True, e\<lparr>en_key_store := Some (ks\<lparr>ks_store := umap_put sid pk (ks_store ks)\<rparr>)\<rparr>)"
  using assms by (simp add: receive_report_def with_keys_def upd_keys_def run_simps)

lemma add_request_run:
  fixes dd di lib
  assumes "en_key_store a = Some ka" "en_server a = Some sa"
    and "query_server (ucast sid) ka = None" "map_of (ks_temp_connections ka) (ucast sid) = None"
  defines "L \<equiv> linked dd di lib" and "client \<equiv> en_client_ids a (en_clients a)" and "uid \<equiv> en_last_req_uid a + 1"
  shows "\<exists>r. ecall_handle_rpc_request L now answer (rb_add_server (dump_server dd) sid) a =
    (Inr r, kept (client_response L client_add_srv_resp True)
       (a\<lparr>en_clients := en_clients a + 1,
          en_key_store := Some (ka\<lparr>ks_temp_connections :=
            umap_put (ucast sid) (client, rb_endpoint sid) (ks_temp_connections ka)\<rparr>),
          en_last_req_uid := uid,
          en_out := en_out a @ [Rpc_client_create (rb_endpoint sid),
            Send_rpc_request client (type_bytes system_key_exchange_req @ lb_dump_report L (sv_id sa) (ks_self_report ka)) uid]\<rparr>))"
proof -
  have "read_type (type_bytes client_add_srv_req @ p) = Inr client_add_srv_req" for p
    by (rule read_type_bytes) (simp add: er_types_def)
  moreover have "drop 2 (type_bytes client_add_srv_req @ p) = p" for p by (simp add: type_bytes_def)
  ultimately show ?thesis
    using assms(1-4)
    by (simp add: ecall_handle_rpc_request_def rb_add_server_def rb_serialize_def rb_build_add_server_request_def
        handle_client_request_def build_key_xchg_req_def with_keys_def handler_id_def rpc_client_create_def
        upd_keys_def send_xchg_request_def next_req_uid_def raw_send_def ocall_def run_simps L_def linked_server
        client_def uid_def keep_response_run Let_def del: drop_append)
qed

lemma xchg_request_run:
  fixes dd di lib
  defines "L \<equiv> linked dd di lib"
  assumes b: "en_key_store b = Some kb" "en_server b = Some sb" "map_of (en_response_buffer b) (en_id_counter b + 1) = None"
    and report: "validate_verification_report L (c_str r) = Inr (Some q)" "report_data q = Inr pk" "length (int_text i) \<le> 9"
    and len: "length (lb_dump_report L (sv_id sb) (ks_self_report kb)) + 2 < 2 ^ 31"
  defines "reply \<equiv> type_bytes system_key_exchange_resp @ lb_dump_report L (sv_id sb) (ks_self_report kb)"
  shows "message_handler L now answer (type_bytes system_key_exchange_req @ lb_dump_report L i r) b =
    (Inr (Some reply), kept reply (b\<lparr>en_key_store := Some (kb\<lparr>ks_store := umap_put i pk (ks_store kb)\<rparr>)\<rparr>))"
proof -
  let ?b = "b\<lparr>en_key_store := Some (kb\<lparr>ks_store := umap_put i pk (ks_store kb)\<rparr>)\<rparr>"
  have "read_type (type_bytes system_key_exchange_req @ p) = Inr system_key_exchange_req" for p
    by (rule read_type_bytes) (simp add: er_types_def)
  moreover have "drop 2 (type_bytes system_key_exchange_req @ p) = p" for p by (simp add: type_bytes_def)
  ultimately have "ecall_handle_rpc_request L now answer (type_bytes system_key_exchange_req @ lb_dump_report L i r) b =
      (Inr (of_nat (length reply), en_id_counter b + 1), kept reply ?b)"
    using b report receive_report_run [OF b(1) report(1,2), of i] linked_report [OF report(3), of dd di lib r]
    by (simp add: ecall_handle_rpc_request_def handle_system_request_def with_keys_def handler_id_def run_simps
        keep_response_run reply_def L_def Let_def del: drop_append length_append)
  moreover have "0 < length reply" "length reply < 2 ^ 31" using len by (simp_all add: reply_def type_bytes_def)
  moreover have "ecall_fetch_rpc_response (en_id_counter b + 1) (replicate (length reply) 0) (kept reply ?b) =
      (Inr (True, reply), kept reply ?b)"
    using fetch_kept [of ?b "length reply" reply] b(3) by simp
  ultimately show ?thesis
    by (simp add: message_handler_def run_simps sint_of_nat_int32 int32_to_size_of_nat)
qed

lemma xchg_response_run:
  fixes dd di lib now uid
  defines "L \<equiv> linked dd di lib"
  assumes a: "en_key_store a = Some ka" "en_server a = Some sa" "map_of (ks_temp_connections ka) i = Some (client, endpoint)"
    and report: "validate_verification_report L (c_str r) = Inr (Some q)" "report_data q = Inr pk" "length (int_text i) \<le> 9"
  defines "a' \<equiv> snd (ecall_rpc_response L now uid (type_bytes system_key_exchange_resp @ lb_dump_report L i r) None a)"
  shows "stored_keys a' = umap_put i pk (ks_store ka)"
    "en_server a' = Some ((snd (add_srv now \<lparr>sc_id = i, sc_endpoint = endpoint\<rparr> (sa\<lparr>sv_outbox := []\<rparr>)))\<lparr>sv_outbox := []\<rparr>)"
proof -
  let ?add = "on_server L (add_srv now \<lparr>sc_id = i, sc_endpoint = endpoint\<rparr>)"
  let ?ks = "ka\<lparr>ks_store := umap_put i pk (ks_store ka), ks_temp_connections := map_erase i (ks_temp_connections ka)\<rparr>"
  let ?a = "a\<lparr>en_key_store := Some ?ks, en_callback_pool := map_erase (ucast client) (en_callback_pool a),
              en_out := en_out a @ [Rpc_client_close client]\<rparr>"
  have "read_type (type_bytes system_key_exchange_resp @ p) = Inr system_key_exchange_resp" for p
    by (rule read_type_bytes) (simp add: er_types_def)
  moreover have "drop 2 (type_bytes system_key_exchange_resp @ p) = p" for p by (simp add: type_bytes_def)
  ultimately have "a' = snd (bindM ?add (\<lambda>_. ret ()) ?a)"
    using a receive_report_run [OF a(1) report(1,2), of i] linked_report [OF report(3), of dd di lib r]
    by (simp add: a'_def ecall_rpc_response_def handle_system_resp_def handle_key_xchg_resp_def with_keys_def
        upd_keys_def rpc_client_destroy_def ocall_def whenM_def run_simps L_def Let_def del: drop_append)
  then have a': "a' = snd (?add ?a)" by (simp add: bindM_def ret_def split: prod.split sum.split)
  have "port_view a' = port_view ?a" unfolding a' by (rule sameD [OF port_on_server])
  then show "stored_keys a' = umap_put i pk (ks_store ka)" by (simp add: port_view_def stored_keys_def)
  show "en_server a' = Some ((snd (add_srv now \<lparr>sc_id = i, sc_endpoint = endpoint\<rparr> (sa\<lparr>sv_outbox := []\<rparr>)))\<lparr>sv_outbox := []\<rparr>)"
    unfolding a' by (rule on_server_server) (simp add: a(2))
qed

text \<open>A report over a key, as one enclave accepts it from another.\<close>

definition attests :: "library \<Rightarrow> cstring \<Rightarrow> bytes \<Rightarrow> bool" where
  "attests lib r pk \<longleftrightarrow>
     (\<exists>q. validate_verification_report lib (c_str r) = Inr (Some q) \<and> report_data q = Inr pk)"

lemma server_added:
  fixes dd di lib
  defines "L \<equiv> linked dd di lib"
  assumes a: "en_key_store a = Some ka" "en_server a = Some sa" "query_server (ucast sid) ka = None"
      "map_of (ks_temp_connections ka) (ucast sid) = None" "length (int_text (sv_id sa)) \<le> 9"
    and b: "en_key_store b = Some kb" "en_server b = Some sb" "sv_id sb = ucast sid"
      "map_of (en_response_buffer b) (en_id_counter b + 1) = None"
      "length (lb_dump_report L (sv_id sb) (ks_self_report kb)) + 2 < 2 ^ 31"
    and reports: "attests L (ks_self_report ka) pka" "attests L (ks_self_report kb) pkb"
  obtains a' b' client uid message reply where
    "snd (ecall_handle_rpc_request L now answer (rb_add_server (dump_server dd) sid) a) = a'"
    "en_out a' = en_out a @ [Rpc_client_create (rb_endpoint sid), Send_rpc_request client message uid]"
    "message_handler L now' answer' message b = (Inr (Some reply), b')"
    "map_of (stored_keys b') (sv_id sa) = Some pka"
    "map_of (stored_keys (snd (ecall_rpc_response L now'' uid reply None a'))) (ucast sid) = Some pkb"
    "en_server (snd (ecall_rpc_response L now'' uid reply None a')) =
       Some ((snd (add_srv now'' \<lparr>sc_id = ucast sid, sc_endpoint = rb_endpoint sid\<rparr> (sa\<lparr>sv_outbox := []\<rparr>)))\<lparr>sv_outbox := []\<rparr>)"
proof -
  let ?client = "en_client_ids a (en_clients a)" and ?uid = "en_last_req_uid a + 1"
  let ?message = "type_bytes system_key_exchange_req @ lb_dump_report L (sv_id sa) (ks_self_report ka)"
  let ?reply = "type_bytes system_key_exchange_resp @ lb_dump_report L (sv_id sb) (ks_self_report kb)"
  let ?ka = "ka\<lparr>ks_temp_connections := umap_put (ucast sid) (?client, rb_endpoint sid) (ks_temp_connections ka)\<rparr>"
  let ?a = "kept (client_response L client_add_srv_resp True)
       (a\<lparr>en_clients := en_clients a + 1, en_key_store := Some ?ka, en_last_req_uid := ?uid,
          en_out := en_out a @ [Rpc_client_create (rb_endpoint sid), Send_rpc_request ?client ?message ?uid]\<rparr>)"
  let ?b = "kept ?reply (b\<lparr>en_key_store := Some (kb\<lparr>ks_store := umap_put (sv_id sa) pka (ks_store kb)\<rparr>)\<rparr>)"
  obtain qa qb where q: "validate_verification_report L (c_str (ks_self_report ka)) = Inr (Some qa)" "report_data qa = Inr pka"
      "validate_verification_report L (c_str (ks_self_report kb)) = Inr (Some qb)" "report_data qb = Inr pkb"
    using reports by (auto simp: attests_def)
  have "snd (ecall_handle_rpc_request L now answer (rb_add_server (dump_server dd) sid) a) = ?a"
    using add_request_run [OF a(1-4), of dd di lib now answer] by (auto simp: L_def)
  moreover have "message_handler L now' answer' ?message b = (Inr (Some ?reply), ?b)"
    unfolding L_def by (rule xchg_request_run) (use b q a(5) in \<open>simp_all add: L_def\<close>)
  moreover have "en_key_store ?a = Some ?ka" "en_server ?a = Some sa" using a(2) by (simp_all add: kept_def)
  note closing = xchg_response_run [where dd = dd and di = di and lib = lib, folded L_def, OF this _ q(3,4),
      of "sv_id sb" ?client "rb_endpoint sid" now'' ?uid]
  show ?thesis
    by (rule that [of ?a ?client ?message ?uid ?reply ?b])
      (use calculation closing b(3) ushort_short in \<open>simp_all add: kept_def stored_keys_def find_umap_put\<close>)
qed

end
