(* ===== verification/Linked_Scenario.thy ===== *)
theory Linked_Scenario
  imports Enclave_Scenario Linked
begin

text \<open>
  The scenario of the enclave with the linked libraries: a verification report in the format
  of the attestation service, and two enclaves that hold it as their own.
\<close>

section \<open>A report\<close>

definition linked_lib :: library where
  "linked_lib = linked (\<lambda>t. t) (\<lambda>_. 0) demo_lib"

definition report_body :: json where
  "report_body =
     JsonObject [(ascii ''isvEnclaveQuoteBody'', JsonString (b64_encode demo_quote)),
                 (ascii ''isvEnclaveQuoteStatus'', JsonString (ascii ''OK'')), (ascii ''version'', JsonInt 3)]"

definition report_text :: bytes where
  "report_text = ascii ''Content-Length: 2'' @ crlf @ ascii ''X-IASReport-Signature: c2ln'' @ crlf @
     ascii ''X-IASReport-Signing-Certificate: c'' @ crlf @ crlf @ json_dump (\<lambda>t. t) report_body"

lemma length_ascii: "length (ascii s) = length s"
  by (simp add: ascii_def)

lemma report_keys: "ascii ''isvEnclaveQuoteBody'' < ascii ''isvEnclaveQuoteStatus''"
  "ascii ''isvEnclaveQuoteStatus'' < ascii ''version''" "ascii ''isvEnclaveQuoteBody'' < ascii ''version''"
  by (simp_all add: ascii_def)

lemma report_body_ok: "json_ok (Suc max_depth) report_body"
proof -
  have "length (int_text 3) \<le> 9" by (rule short_int) simp_all
  then show ?thesis
    unfolding report_body_def by (intro json_ok_parts(2)) (simp_all add: map_sorted_def report_keys)
qed

lemma report_fields:
  "lb_json_parses linked_lib (json_dump (\<lambda>t. t) report_body)"
  "lb_json_int linked_lib (json_dump (\<lambda>t. t) report_body) ''version'' = 3"
  "lb_json_string linked_lib (json_dump (\<lambda>t. t) report_body) ''isvEnclaveQuoteStatus'' = ascii ''OK''"
  "lb_json_string linked_lib (json_dump (\<lambda>t. t) report_body) ''isvEnclaveQuoteBody'' = b64_encode demo_quote"
  using report_body_ok report_keys
  by (simp_all add: linked_lib_def linked_def json_body_dump json_round_trip)
     (auto simp: report_body_def)

lemma report_quote: "base64_decode linked_lib (b64_encode demo_quote) = Inr demo_quote"
  by (simp add: base64_decode_def linked_lib_def linked_base64)

lemma report_signature: "base64_decode linked_lib (ascii ''c2ln'') = Inr (ascii ''sig'')"
proof -
  have "b64_decode (ascii ''c2ln'') = Inr (ascii ''sig'')" by code_simp
  then show ?thesis by (simp add: base64_decode_def linked_lib_def linked_def)
qed

lemma report_checked:
  assumes "2 \<le> length body"
  shows "check_signature linked_lib [99] (ascii ''sig'') body 2 = Inr True"
proof -
  have "body \<noteq> []" using assms by auto
  then show ?thesis
  using assms
  by (simp add: check_signature_def read_data_def verify_certs_and_signature_def load_cert_unsafe_def
      load_cert_chain_def cert_pieces.simps find_from_def pem_begin_def build_ca_def cert_verify_def
      sha256_verify_def linked_lib_def linked_def demo_lib_def ascii_def)
qed

lemma report_text_ok: "validate_verification_report linked_lib report_text = Inr (Some demo_quote)"
proof -
  let ?body = "json_dump (\<lambda>t. t) report_body"
  have "2 \<le> length ?body" by (simp add: report_body_def dump_string_def)
  note facts = report_fields report_quote report_checked [OF this] report_signature [unfolded ascii_def, simplified]
  obtain body where body: "?body = body" by blast
  show ?thesis
    using facts unfolding report_text_def body
    by (simp add: validate_verification_report_def after_def field_length_def header_length_def
        header_signature_def header_certificates_def delimiter_def double_delimiter_def ascii_def crlf_def
        strtoul_def is_space_def is_digit_def)
qed

lemma report_text_zeros: "c_str report_text = report_text"
proof -
  have "int_text 3 = [51]" by code_simp
  then have "0 \<notin> set report_text"
    using dump_chars_nonzero
    by (simp add: report_text_def report_body_def dump_string_def ascii_def crlf_def)
  then show ?thesis by (auto simp: c_str_def takeWhile_eq_all_conv)
qed

lemma report_text_attests: "attests linked_lib report_text demo_key"
  using report_text_ok demo_report_data by (auto simp: attests_def report_text_zeros)

section \<open>Two enclaves\<close>

definition attested_enclave :: "raft_server \<Rightarrow> enclave" where
  "attested_enclave sv =
     (demo_enclave (Some sv))\<lparr>en_key_store := Some ((er_key_store_new [1] demo_key)\<lparr>ks_self_report := report_text\<rparr>)\<rparr>"

lemma report_reply_length: "length (lb_dump_report linked_lib 4 report_text) + 2 < 2 ^ 31"
proof -
  have "int_text 3 = [51]" "int_text 4 = [52]" by code_simp+
  moreover have "length (b64_encode demo_quote) \<le> 4 * 432"
    using b64_length [of demo_quote] by (simp add: demo_quote_def demo_key_def)
  moreover have "length (dump_chars (b64_encode demo_quote)) \<le> 6 * length (b64_encode demo_quote)"
    by (rule dump_chars_length)
  moreover have "length (dump_chars (ascii k)) \<le> 6 * length k" for k
    using dump_chars_length [of "ascii k"] by (simp add: ascii_def)
  note this [of "''isvEnclaveQuoteBody''"] this [of "''isvEnclaveQuoteStatus''"] this [of "''OK''"] this [of "''version''"]
    this [of "''report''"] this [of "''server_id''"]
  moreover have "length (dump_chars report_text) \<le> 6 * length report_text" by (rule dump_chars_length)
  ultimately show ?thesis
    by (simp add: linked_lib_def linked_def report_object_def dump_string_def)
       (simp add: report_text_def report_body_def dump_string_def crlf_def length_ascii)
qed

end
