(* ===== verification/Spec2Isabelle.thy ===== *)
theory Spec2Isabelle
  imports Persistence Tasks Block_Layout Linked_Scenario
begin

text \<open>
  A verification development of EnclaveRaft, an implementation of the Raft protocol in C++ that
  runs inside an SGX enclave. File names are relative to \<^verbatim>\<open>src/raft_enclave\<close> unless they start
  with \<^verbatim>\<open>src/\<close>.

  \<^bold>\<open>The program.\<close> A server process (\<^verbatim>\<open>src/raft_app\<close>) loads an enclave, obtains a quote over the
  enclave's key and has the attestation service sign it, and then carries bytes: its listener
  takes connections, a session per connection cuts the stream into messages and gives them to
  the enclave, and a pool of clients sends the enclave's own calls to the other servers. Inside
  the enclave the ports (\<^verbatim>\<open>port/\<close>) sort messages into those of clients, key exchanges and
  encrypted raft messages; the key store (\<^verbatim>\<open>system/\<close>) checks reports; the raft server
  (\<^verbatim>\<open>raft/\<close>) holds elections, replicates its log and applies it to a state machine (\<^verbatim>\<open>app_impl/\<close>).
  A client program (\<^verbatim>\<open>src/client\<close>) adds servers and sends logs.

  \<^bold>\<open>How code becomes definitions.\<close> Integers keep their width (\<^typ>\<open>int32\<close>, \<^typ>\<open>ulong\<close>, ...), so that
  sums wrap as in the code. A member function is an operation of a state and exception monad
  \<open>('s, 'a) sx\<close>: it returns a value or the way it failed and in both cases the state it leaves,
  since a C++ exception does not undo assignments. Undefined behaviour the code can run into
  (a null pointer, an iterator at the end, a read past a block) is a failure of its own. The
  maps of the standard library are lists of pairs (\<open>Std_Map\<close>). What the server sends, schedules
  or prints is a list of effects in its state; the ports carry them out. Each event (message,
  timer, completed read or write, call into the enclave) runs one handler to its end, as the
  locks of the code make it; where they do not, in \<open>async_result\<close>, the interleavings of the
  locked sections are modelled. Time, random numbers, the network, the file system and the SGX
  platform are arguments, and so are OpenSSL and the processor's number of threads.

  \<^bold>\<open>The theories.\<close>
  \<^item> \<open>Raft_Prelude\<close>, \<open>Std_Map\<close>: machine types, failures, the monad with its rules
    (\<open>run_simps\<close>, \<open>keeps_intros\<close>), containers with the contract \<open>dictionary\<close>.
  \<^item> \<open>Buffer\<close>, \<open>Block_Layout\<close> (\<^verbatim>\<open>raft/src/buffer.cxx\<close>): the buffer and, below it, the words of its
    block in memory; contracts \<open>codec\<close> and \<open>serializer\<close>, which every wire format meets.
  \<^item> \<open>Configuration\<close>, \<open>Log_Entries\<close>, \<open>Messages\<close>: the records the servers store and send
    (\<^verbatim>\<open>raft/include\<close>, \<^verbatim>\<open>port/msg_serializer\<close>) with their serializers and round trips.
  \<^item> \<open>Log_Store\<close>, \<open>Application\<close> (\<^verbatim>\<open>app_impl/\<close>): the log store as an implementation of the contract
    \<open>raft_log\<close> on a list of entries, the echo state machine and the state manager.
  \<^item> \<open>Peer\<close>, \<open>Server\<close>, \<open>Membership\<close>, \<open>Commit_Thread\<close>, \<open>Request_Handlers\<close>, \<open>Response_Handlers\<close>: the
    server (\<^verbatim>\<open>raft/src/raft_server*.cxx\<close>), one operation per function.
  \<^item> \<open>Server_Frames\<close>, \<open>Voting\<close>, \<open>Events\<close>, \<open>Persistence\<close>, \<open>Cluster\<close>: what handlers keep, proved once
    per contract (\<open>peer_view\<close> up to \<open>server_view\<close>) and used through interpretations; votes,
    crash recovery, and the cluster as a step relation with election safety.
  \<^item> \<open>Replication\<close>, \<open>Log_Matching\<close>, \<open>Commit_Loop\<close>, \<open>Leader\<close>: append requests, agreement of logs,
    the commit thread, commit indexes and entries of clients.
  \<^item> \<open>Crypto\<close>, \<open>Attestation\<close>, \<open>Enclave\<close>, \<open>Enclave_Invariants\<close>: encryption, reports and
    certificates, the key store, every call into the enclave, and what holds for every sequence
    of calls (\<open>enclave_view\<close>, \<open>response_view\<close>).
  \<^item> \<open>Session\<close>, \<open>Rpc_Transport\<close>, \<open>Remote_Call\<close>, \<open>Host\<close>, \<open>Startup\<close>: sessions, connections, the
    listener, quotes and the attestation service, and the start of both programs.
  \<^item> \<open>Client\<close>, \<open>Text_Format\<close>, \<open>Tasks\<close>: the client program's requests and socket, formatted text,
    asynchronous results and delayed tasks (\<^verbatim>\<open>raft/include/async_task\<close>, \<^verbatim>\<open>port/service_port\<close>).
  \<^item> \<open>Base64\<close>, \<open>Json\<close>, \<open>Linked\<close>: the two libraries in \<^verbatim>\<open>src/third_party\<close> that text goes through, and
    the program linked with them. The other theories see them through the record \<open>library\<close>.
  \<^item> \<open>Composition\<close>, \<open>Scenario\<close>, \<open>Enclave_Scenario\<close>, \<open>Linked_Scenario\<close>: parts put together, and
    concrete runs in which the hypotheses of the properties hold.

  \<^bold>\<open>The properties\<close> follow in sections: elections, replication, applying entries and membership
  are about the consensus; the log store, the wire and disk formats and the layout of buffers
  about data; calls between servers, sessions, clients and failed calls and connections about
  the way of a message through all parts, in the good case and when something fails;
  attestation about which keys and servers an enclave accepts; delayed work about timers and
  results set by other threads. Every property with hypotheses is followed by a run in which
  they hold.

  \<^bold>\<open>Loops and bounds.\<close> Most loops are structural or have a termination proof. Two can run for
  ever and are partial functions with values in \<open>option\<close>: the walk over stored configurations
  \<open>find_conf\<close>, which is shown to end when the configurations point backwards, and the read of
  a response's size \<open>read_size\<close>, of which is shown when it ends and when not. The loops over
  members and items in \<open>Json\<close> repeat a test that the rest of the text has become shorter;
  \<open>parse_members_eq\<close> and \<open>parse_items_eq\<close> show that the test never fails, so it is no fuel. The
  depth limit of the JSON parser is the code's own. Bounds in hypotheses are those of the machine
  types: fewer than \<open>2\<^sup>6\<^sup>4\<close> log indexes, \<open>2\<^sup>3\<^sup>2\<close> responses, buffers below \<open>2\<^sup>3\<^sup>1\<close> bytes.

  \<^bold>\<open>Third-party code.\<close> OpenSSL's counter mode is a parameter with the contract \<open>ctr_cipher\<close>
  (decryption undoes encryption under the same key and vector, lengths are kept), which
  \<open>xor_cipher\<close> meets; nothing is assumed of certificates and signatures. Of floating point
  numbers in JSON, their text and the integer they are cut to are arguments of \<open>linked\<close>.

  \<^bold>\<open>Not modelled.\<close> Logging and the texts of status codes, which nothing reads; the destructor of
  the server and the waiting of the commit thread, which are synchronisation only; the
  libraries asio and spdlog, whose completions are the events above; the comment syntax,
  \<^verbatim>\<open>parse_multi\<close>, \<^verbatim>\<open>has_shape\<close> and comparisons of the JSON library, which the program does not
  use; abstract classes and smart pointers; the generator of random numbers; code of the client
  that is commented out or that no program calls. Data races are modelled for \<open>async_result\<close>
  only. Secrecy is not stated: the key of the raft messages is a constant in the code.
\<close>

section \<open>Elections\<close>

text \<open>
  C1: Election safety: in every state a cluster with a fixed membership can reach, through any
  sequence of events with responses lost, repeated and reordered and with handlers that end
  in exceptions, two members that are leaders of the same term are the same server.
\<close>

theorem election_safety:
  assumes "cluster_ok M" "reachable M (srv, net)" "i \<in> M" "k \<in> M"
    and "sv_role (srv i) = leader" "sv_role (srv k) = leader" "sv_term (srv i) = sv_term (srv k)"
  shows "i = k"
  using leaders_agree [OF assms(1) reachable_inv [OF assms(1,2)]] assms(3-) by blast

theorem election_safety_witness:
  "reachable {1, 2, 3} elected_cluster \<and>
   {k \<in> {1, 2, 3}. sv_role (fst elected_cluster k) = leader \<and> sv_term (fst elected_cluster k) = 1} = {1}"
proof -
  have one: "sv_role (fst elected_cluster 1) = leader" "sv_term (fst elected_cluster 1) = 1"
    using elected_server_state by (simp_all add: elected_cluster_def)
  have "k = 1" if "k \<in> {1, 2, 3}" "sv_role (fst elected_cluster k) = leader"
      "sv_term (fst elected_cluster k) = 1" for k
    using election_safety [of "{1, 2, 3}" "fst elected_cluster" "snd elected_cluster" k 1]
      elected_reachable three_ok one that by simp
  then show ?thesis
    using elected_reachable one by auto
qed

text \<open>
  C2: Whatever a server handles, other than an invitation to join a cluster, and however the
  handler ends, its term does not fall and the vote it has given in a term is not changed
  while it stays in the term.
\<close>

theorem vote_is_kept:
  assumes "\<not> joins e" "e = Election_timeout \<Longrightarrow> sv_term s \<noteq> - 1"
  shows "vote_kept s (snd (run_event e s))"
  using assms by (rule vote_kept_event)

theorem vote_is_kept_witness:
  "vote_kept (new_server 2) (snd (run_event (Request 0 vote_ballot) (new_server 2))) \<and>
   vote_kept (new_server 1) candidate_server"
  using vote_is_kept [of "Request 0 vote_ballot" "new_server 2"]
    vote_is_kept [of Election_timeout "new_server 1"]
  by (simp add: candidate_server_def vote_ballot_def req_msg_new_def new_server_start del: run_event.simps)

text \<open>
  C6: Crash recovery: every event, join requests included, however its handler ends, keeps the
  term and the vote that a restarted server reads from the state manager equal to those of
  the running server.
\<close>

theorem state_is_persisted:
  assumes "persisted s"
  shows "persisted (snd (run_event e s))"
  using persist_event [of e] assms by (simp add: keeps_def persist_order_def)

theorem state_is_persisted_witness:
  "persisted (new_server 1) \<and> persisted candidate_server \<and> sv_term candidate_server = 1 \<and>
   persisted (snd (run_event vote_arrives candidate_server))"
proof -
  have start: "persisted (new_server 1)"
    by (simp add: persisted_def restart_state_def start_defs run_simps)
  have "sv_term candidate_server = 1"
    by (simp add: candidate_server_def start_defs run_simps vote_defs)
  moreover have "persisted candidate_server"
    unfolding candidate_server_def by (rule state_is_persisted [OF start])
  ultimately show ?thesis using start state_is_persisted by blast
qed

text \<open>
  C25: A server that is constructed again on the state manager of a running server starts as a
  follower with the term and the vote the running server had.
\<close>

theorem restart_keeps_vote:
  assumes "persisted s"
  shows "sv_state (snd (raft_server_new params (sv_state_mgr s) machine logs rand)) = sv_state s \<and>
         sv_role (snd (raft_server_new params (sv_state_mgr s) machine logs rand)) = follower"
proof -
  let ?s = "raft_server_fields params (sv_state_mgr s) machine logs rand"
  have "keeps (same ballot_view) raft_server_init"
    unfolding raft_server_init_def blockM.simps
    by (intro ballot.server_intros) (simp add: ballot_view_def)
  from sameD [OF this, of ?s] assms show ?thesis
    by (simp add: raft_server_new_def ballot_view_def raft_server_fields_def persisted_def restart_state_def)
qed

theorem restart_keeps_vote_witness:
  "sv_voted_for candidate_server = 1 \<and>
   sv_state (snd (raft_server_new raft_params_new (sv_state_mgr candidate_server)
     echo_state_machine_new log_store_new (\<lambda>_. 200))) = sv_state candidate_server"
proof -
  have "persisted candidate_server \<and> sv_voted_for candidate_server = 1"
    by (simp add: candidate_server_def persisted_def restart_state_def start_defs run_simps vote_defs)
  with restart_keeps_vote [of candidate_server] show ?thesis by blast
qed

section \<open>Replication\<close>

text \<open>
  C3: Log replication on the follower: an append request of the current or a newer term whose
  previous entry the server holds is accepted. The entries the log has already, by index and
  term, are kept, and from the first difference on the log is that of the request. The term
  is that of the request, the commit index advances to the leader's and never falls.
\<close>

theorem append_request_merges:
  assumes "rq_type req = append_entries_request" "log_inv (sv_log_store s)" "sv_term s \<le> rq_term req"
    and "rq_term req = sv_term s \<Longrightarrow> sv_role s \<noteq> leader"
    and "holds_prev s (rq_last_log_idx req) (rq_last_log_term req)"
    and "list_all sayable (rq_log_entries req)" "list_all sayable (log_list (sv_log_store s))"
    and "log_next (sv_log_store s) + length (rq_log_entries req) < 2 ^ 64"
  shows "\<exists>resp t. process_req now req s = (Inr resp, t) \<and> rs_accepted resp \<and>
     rs_next_idx resp = rq_last_log_idx req + of_nat (length (rq_log_entries req)) + 1 \<and>
     log_inv (sv_log_store t) \<and> log_start (sv_log_store t) = log_start (sv_log_store s) \<and>
     log_list (sv_log_store t) = merged_log (sv_log_store s) (rq_last_log_idx req) (rq_log_entries req) \<and>
     sv_quick_commit_idx t = max (sv_quick_commit_idx s) (rq_commit_idx req) \<and>
     sv_term t = rq_term req \<and> sv_role t = follower \<and> sv_leader t = rq_src req"
proof -
  obtain u where u: "process_req now req s = handle_append_entries req u" "log_view u = log_view s"
    "sv_term u = rq_term req" "sv_role u \<noteq> leader"
    using process_append_entries [OF assms(1,3,4)] by metis
  have u': "sv_log_store u = sv_log_store s" "sv_state_machine u = sv_state_machine s"
    "sv_quick_commit_idx u = sv_quick_commit_idx s"
    using u(2) by (simp_all add: log_view_def)
  have "holds_prev u (rq_last_log_idx req) (rq_last_log_term req)"
    using assms(5) unfolding holds_prev_def u' .
  from handle_append_entries_run [of u req, OF _ _ u(4) this] show ?thesis
    using assms u u' by (auto simp: accept_def)
qed

theorem append_request_merges_witness:
  "\<exists>req resp t. rq_log_entries req = [entry_of 1 app_log [65, 0]] \<and>
     process_req 0 req (new_server 2) = (Inr resp, t) \<and> rs_accepted resp \<and>
     log_list (sv_log_store t) = [entry_of 1 app_log [65, 0]] \<and> sv_term t = 1"
proof -
  let ?req = "(req_msg_new 1 append_entries_request 1 2 0 0 0)\<lparr>rq_log_entries := [entry_of 1 app_log [65, 0]]\<rparr>"
  have log: "sv_log_store (new_server 2) = log_rep 1 dummy_entry []"
    by (simp add: start_defs run_simps log_rep_def)
  have "sayable (entry_of 1 app_log [65, 0])"
    by (simp add: sayable_def stored_entry_of get_string_def get_str_def brest_def)
  then have "\<exists>resp t. process_req 0 ?req (new_server 2) = (Inr resp, t) \<and> rs_accepted resp \<and>
      log_list (sv_log_store t) = merged_log (sv_log_store (new_server 2)) 0 [entry_of 1 app_log [65, 0]] \<and>
      sv_term t = 1"
    using append_request_merges [of ?req "new_server 2" 0]
    by (auto simp: req_msg_new_def new_server_start log log_inv_rep holds_prev_def log_next_def)
  moreover have "merged_log (sv_log_store (new_server 2)) 0 [entry_of 1 app_log [65, 0]] = [entry_of 1 app_log [65, 0]]"
    by (simp add: merged_log_def log)
  ultimately show ?thesis
    by (intro exI [of _ ?req]) auto
qed

text \<open>
  C26: An append request of the current term whose previous entry the server lacks, because its
  log is shorter or has another term there, is refused with the server's next index; the log,
  the commit indexes and the persistent state stay as they are.
\<close>

theorem append_request_refused:
  assumes "log_inv (sv_log_store s)" "rq_term req = sv_term s" "sv_role s \<noteq> leader"
    and "lacks_prev s (rq_last_log_idx req) (rq_last_log_term req)"
  shows "\<exists>resp t. handle_append_entries req s = (Inr resp, t) \<and> \<not> rs_accepted resp \<and>
     rs_next_idx resp = sv_next_slot s \<and> sv_log_store t = sv_log_store s \<and>
     sv_quick_commit_idx t = sv_quick_commit_idx s \<and> sv_sm_commit_index t = sv_sm_commit_index s \<and>
     sv_state t = sv_state s"
  using handle_append_entries_refuse [OF assms] by (auto simp: resp_msg_new_def log_view_def)

theorem append_request_refused_witness:
  "\<exists>resp t. handle_append_entries (req_msg_new 0 append_entries_request 1 2 3 7 0) (new_server 2) =
     (Inr resp, t) \<and> \<not> rs_accepted resp \<and> rs_next_idx resp = 1"
proof -
  have log: "sv_log_store (new_server 2) = log_rep 1 dummy_entry []"
    by (simp add: start_defs run_simps log_rep_def)
  show ?thesis
    using append_request_refused [of "new_server 2" "req_msg_new 0 append_entries_request 1 2 3 7 0"]
    by (auto simp: req_msg_new_def new_server_start log log_inv_rep lacks_prev_def log_next_def next_slot_rep)
qed

text \<open>
  C4: A round of replication between two servers. The request a leader builds for a peer,
  handled by a follower with a matching log that holds the entry before the peer's next
  index, is accepted; afterwards the follower's log agrees with the leader's at every index
  up to the last entry sent, and the logs still match.
\<close>

theorem replication_round_agrees:
  assumes "log_inv (sv_log_store s)" "get_peer u s = (Inr p, s)" "pr_next_log_idx p = of_nat (Suc q)"
    and "Suc q \<le> log_next (sv_log_store s)" "log_start (sv_log_store s) \<le> Suc q"
    and "0 \<le> sint (pa_max_append_size (sv_params s))" "log_next (sv_log_store s) + 2 ^ 31 < 2 ^ 64"
    and "term_for_log (of_nat q) s = (Inr t, s)" "list_all sayable (log_list (sv_log_store s))"
    and "log_inv (sv_log_store f)" "sv_term f \<le> sv_term s" "sv_term s = sv_term f \<Longrightarrow> sv_role f \<noteq> leader"
    and "holds_prev f (of_nat q) t" "list_all sayable (log_list (sv_log_store f))"
    and "log_next (sv_log_store f) + 2 ^ 31 < 2 ^ 64" "log_match (sv_log_store s) (sv_log_store f)"
  shows "\<exists>req resp f'. create_append_entries_req u s = (Inr req, s) \<and>
     process_req now req f = (Inr resp, f') \<and> rs_accepted resp \<and>
     log_match (sv_log_store s) (sv_log_store f') \<and>
     {i. max (log_start (sv_log_store s)) (log_start (sv_log_store f)) \<le> i \<and> i \<le> q + length (batch s (Suc q))}
       \<subseteq> {i. log_at (sv_log_store f') i = log_at (sv_log_store s) i} \<and>
     rs_next_idx resp = of_nat (Suc q + length (batch s (Suc q)))"
proof (rule replication_round [OF assms(1-8,10-15,9,16), of now])
  fix req resp f'
  assume r: "create_append_entries_req u s = (Inr req, s)" "process_req now req f = (Inr resp, f')"
    "rs_accepted resp" "rs_next_idx resp = of_nat (Suc q + length (batch s (Suc q)))"
    "log_match (sv_log_store s) (sv_log_store f')"
    and agree: "\<And>i. max (log_start (sv_log_store s)) (log_start (sv_log_store f)) \<le> i \<Longrightarrow>
      i \<le> q + length (batch s (Suc q)) \<Longrightarrow> log_at (sv_log_store f') i = log_at (sv_log_store s) i"
  show ?thesis
    by (intro exI [of _ req] exI [of _ resp] exI [of _ f'] conjI r) (blast intro: agree)
qed

theorem replication_round_agrees_witness:
  "\<exists>req resp f'. create_append_entries_req 0 elected_server = (Inr req, elected_server) \<and>
     process_req 0 req (snd voter_result) = (Inr resp, f') \<and> rs_accepted resp \<and>
     log_at (sv_log_store f') 1 = Some elected_entry"
proof -
  obtain p where p: "get_peer 0 elected_server = (Inr p, elected_server)" "pr_next_log_idx p = of_nat (Suc 0)"
    using elected_server_peer by auto
  have logs: "log_inv (sv_log_store elected_server)" "log_inv (sv_log_store (snd voter_result))"
    "list_all sayable (log_list (sv_log_store elected_server))"
    "log_match (sv_log_store elected_server) (sv_log_store (snd voter_result))"
    by (simp_all add: elected_server_log voter_log log_inv_rep elected_entry_sayable sayable_stored
        log_match_def log_at_def log_next_def)
  have "1 \<le> 0 + length (batch elected_server (Suc 0))" "log_at (sv_log_store elected_server) 1 = Some elected_entry"
    by (simp_all add: batch_def elected_server_log log_at_def log_next_def raft_params_new_def)
  moreover have "\<exists>req resp f'. create_append_entries_req 0 elected_server = (Inr req, elected_server) \<and>
     process_req 0 req (snd voter_result) = (Inr resp, f') \<and> rs_accepted resp \<and>
     log_match (sv_log_store elected_server) (sv_log_store f') \<and>
     {i. max (log_start (sv_log_store elected_server)) (log_start (sv_log_store (snd voter_result))) \<le> i \<and>
         i \<le> 0 + length (batch elected_server (Suc 0))}
       \<subseteq> {i. log_at (sv_log_store f') i = log_at (sv_log_store elected_server) i} \<and>
     rs_next_idx resp = of_nat (Suc 0 + length (batch elected_server (Suc 0)))"
    by (rule replication_round_agrees [OF logs(1) p, where t = 0])
       (use logs voter_state elected_server_state voter_term in
         \<open>simp_all add: elected_server_log voter_log log_next_def raft_params_new_def term_for_log_def run_simps
           holds_prev_def Let_def\<close>)
  ultimately show ?thesis
    by (elim exE conjE) (rule exI, rule exI, rule exI, auto simp: elected_server_log voter_log)
qed

text \<open>
  C5: The commit index follows a majority. When a peer accepts entries, the leader's commit index
  becomes the largest index that more than half of the cluster is known to hold, unless it
  was larger before; a refusal leaves it alone.
\<close>

theorem commit_follows_majority:
  assumes "map_of (sv_peers s) (rs_src resp) = Some p"
  shows "sv_quick_commit_idx (snd (handle_append_entries_resp resp s)) =
      (if rs_accepted resp then max (sv_quick_commit_idx s) (majority_index (confirm p resp s))
       else sv_quick_commit_idx s) \<and>
    length (sv_peers s) + 1 < 2 * holders (confirm p resp s) (majority_index (confirm p resp s)) \<and>
    {v. length (sv_peers s) + 1 < 2 * holders (confirm p resp s) v} \<subseteq> {..majority_index (confirm p resp s)}"
proof -
  have len: "length (sv_peers (confirm p resp s)) = length (sv_peers s)"
    by (simp add: confirm_def map_peer_def)
  have "v \<le> majority_index (confirm p resp s)" if "length (sv_peers s) + 1 < 2 * holders (confirm p resp s) v" for v
    using majority_index_greatest [of "confirm p resp s" v] that len by (cases "v \<le> majority_index (confirm p resp s)") (auto simp: not_le)
  with handle_append_entries_resp_commit [OF assms] majority_index_held [of "confirm p resp s"] show ?thesis
    by (auto simp: len)
qed

theorem commit_follows_majority_witness:
  "\<exists>s resp. length (sv_peers s) = 2 \<and> sv_next_slot s = 4 \<and> sv_quick_commit_idx s = 0 \<and> rs_next_idx resp = 3 \<and>
     sv_quick_commit_idx (snd (handle_append_entries_resp resp s)) = 2"
proof -
  let ?s = "(new_server 1)\<lparr>sv_log_store := log_rep 1 dummy_entry (replicate 3 dummy_entry)\<rparr>"
  let ?resp = "accept 3 (resp_msg_new 0 append_entries_response 2 1 0)"
  obtain p where p: "map_of (sv_peers ?s) (rs_src ?resp) = Some p" "pr_uid p = 0" "pr_matched_idx p = 0"
    by (simp add: start_defs run_simps accept_def resp_msg_new_def)
  have "majority_index (confirm p ?resp ?s) = 2"
    by (simp add: confirm_def map_peer_def majority_index_def matched_indexes_def p(2) accept_def resp_msg_new_def
        start_defs run_simps log_rep_def)
  moreover have "length (sv_peers ?s) = 2" "sv_next_slot ?s = 4" "sv_quick_commit_idx ?s = 0"
    "rs_next_idx ?resp = 3" "rs_accepted ?resp"
    by (simp_all add: start_defs run_simps log_rep_def accept_def resp_msg_new_def)
  ultimately show ?thesis
    using commit_follows_majority [OF p(1)] by (intro exI [of _ ?s] exI [of _ ?resp]) simp
qed

section \<open>Applying entries\<close>

text \<open>
  C7: The commit thread ends its pass and applies in order: with snapshots off and a log of
  entries that can be applied, the loop returns, the applied index is the smaller of the
  commit index and the last index, and the state machine has been given exactly the
  application entries in between, each once and in the order of the log.
\<close>

theorem commit_thread_applies_in_order:
  assumes "log_inv (sv_log_store s)" "pa_snapshot_distance (sv_params s) = 0"
    and "log_start (sv_log_store s) \<le> Suc (unat (sv_sm_commit_index s))"
    and "list_all applicable (log_list (sv_log_store s))"
  shows "\<exists>t. commit_in_bg s = (Inr (), t) \<and> sv_log_store t = sv_log_store s \<and>
     unat (sv_sm_commit_index t) = commit_target s \<and>
     em_trace (sv_state_machine t) = em_trace (sv_state_machine s) @
       concat (map (\<lambda>i. commit_events i (log_list (sv_log_store s) ! (i - log_start (sv_log_store s))))
         [Suc (unat (sv_sm_commit_index s)) ..< Suc (commit_target s)])"
  using commit_loop_run [OF assms] by (auto simp: commit_in_bg_def run_simps simp del: upt_Suc)

theorem commit_thread_applies_in_order_witness:
  "\<exists>t. commit_in_bg committing_server = (Inr (), t) \<and>
     em_trace (sv_state_machine t) = [Commit 1 [65], Commit 2 [66]]"
proof -
  have log: "sv_log_store committing_server = log_rep 1 dummy_entry [entry_of 1 app_log [65, 0], entry_of 1 app_log [66, 0]]"
    "pa_snapshot_distance (sv_params committing_server) = 0" "sv_sm_commit_index committing_server = 0"
    "em_trace (sv_state_machine committing_server) = []" "sv_quick_commit_idx committing_server = 3"
    by (simp_all add: committing_server_def start_defs run_simps)
  have "applicable (entry_of 1 app_log [c, 0])" "message_of (entry_of 1 app_log [c, 0]) = [c]" if "c \<noteq> 0" for c
    using that by (simp_all add: applicable_def sayable_def message_of_def stored_entry_of get_string_def get_str_def brest_def)
  moreover have "commit_target committing_server = 2"
    by (simp add: commit_target_def log log_next_def)
  ultimately show ?thesis
    using commit_thread_applies_in_order [of committing_server]
    by (simp add: log log_inv_rep stored_entry_of commit_events_def upt_rec) blast
qed




section \<open>Membership and back-off\<close>

text \<open>
  C27: Applying a configuration that includes the server leaves it with exactly one peer for
  every other member of the configuration and with that configuration in force.
\<close>

theorem reconfigure_sets_peers:
  assumes "distinct (peer_ids s)" "sv_id s \<notin> set (peer_ids s)" "sv_id s \<in> config_ids c"
  shows "\<exists>t. reconfigure c s = (Inr (), t) \<and> distinct (peer_ids t) \<and>
    set (peer_ids t) = config_ids c - {sv_id s} \<and> sv_config t = c \<and> sv_id t = sv_id s"
  using reconfigure_members [OF assms] .

theorem reconfigure_sets_peers_witness:
  "\<exists>t. reconfigure (three_config\<lparr>cc_servers := [\<lparr>sc_id = 1, sc_endpoint = [49]\<rparr>, \<lparr>sc_id = 4, sc_endpoint = [52]\<rparr>]\<rparr>)
         (new_server 1) = (Inr (), t) \<and> set (peer_ids (new_server 1)) = {2, 3} \<and> set (peer_ids t) = {4}"
proof -
  let ?c = "three_config\<lparr>cc_servers := [\<lparr>sc_id = 1, sc_endpoint = [49]\<rparr>, \<lparr>sc_id = 4, sc_endpoint = [52]\<rparr>]\<rparr>"
  have c: "config_ids ?c = {1, 4}" by (simp add: config_ids_def)
  then have "config_ids ?c - {1} = {4}" by auto
  with reconfigure_sets_peers [of "new_server 1" ?c] c new_server_peers(1) new_server_start(1) [of 1]
  show ?thesis by (auto simp del: set_map)
qed



section \<open>The log store\<close>

text \<open>
  C30: Log synchronisation: the pack of a range of entries, applied to an empty log from the same
  index on, gives a log that starts there and holds exactly those entries.
\<close>

theorem log_pack_transfer:
  assumes "1 \<le> k" "k + length es < 2 ^ 64" "list_all packable es"
    and "k \<le> unat a" "unat a + n \<le> k + length es" "0 < n"
    and "sl = take n (drop (unat a - k) es)" "length (pack_bytes sl) < 0x80000000"
  shows "\<exists>b. pack a (of_nat n) (log_rep k d es) = (Inr b, log_rep k d es) \<and>
    apply_pack a b (log_rep j d' []) = (Inr (), log_rep (unat a) d' sl)"
proof -
  have len: "length sl = n" using assms by simp
  have "list_all packable sl"
    using assms(3,7) by (auto simp: list_all_iff dest: in_set_takeD in_set_dropD)
  moreover have "length sl < 0x80000000"
    using assms(8) by (simp add: length_pack_bytes)
  ultimately have "apply_pack a (cursor (pack_bytes sl) []) (log_rep j d' []) = (Inr (), log_rep (unat a) d' sl)"
    using len assms by (intro apply_pack_rep) auto
  with pack_rep [OF assms(1-5,7,8), of d] show ?thesis by blast
qed

theorem log_pack_transfer_witness:
  "\<exists>b. pack 2 (of_nat 1) (log_rep 1 dummy_entry [entry_of 1 app_log [5], entry_of 2 app_log [6]]) =
         (Inr b, log_rep 1 dummy_entry [entry_of 1 app_log [5], entry_of 2 app_log [6]]) \<and>
       apply_pack 2 b (log_rep 1 dummy_entry []) = (Inr (), log_rep (unat (2 :: ulong)) dummy_entry [entry_of 2 app_log [6]])"
  by (rule log_pack_transfer [of 1 "[entry_of 1 app_log [5], entry_of 2 app_log [6]]"])
     (auto simp: packable_def pack_bytes_def pack_entry_bytes_def entry_bytes_def intro: exI [of _ "[5]"] exI [of _ "[6]"])

text \<open>
  C31: Overwriting an index of a well-formed log drops every entry from that index on, puts the
  new entry there and keeps the log well formed.
\<close>

theorem overwrite_truncates:
  assumes "log_inv s" "stored_entry e" "log_start s \<le> unat i" "unat i \<le> log_next s" "Suc (unat i) < 2 ^ 64"
  shows "\<exists>t. write_at i e s = (Inr (), t) \<and> log_inv t \<and> log_start t = log_start s \<and>
    log_list t = take (unat i - log_start s) (log_list s) @ [e]"
  using in_memory.overwrite_law [of s e e i] assms by (simp add: log_next_def)

theorem overwrite_truncates_witness:
  "\<exists>t. write_at 1 (entry_of 3 app_log [9]) (log_rep 1 dummy_entry [entry_of 1 app_log [5], entry_of 2 app_log [6]]) =
     (Inr (), t) \<and> log_list t = [entry_of 3 app_log [9]]"
  using overwrite_truncates [of "log_rep 1 dummy_entry [entry_of 1 app_log [5], entry_of 2 app_log [6]]" "entry_of 3 app_log [9]" 1]
  by (auto simp: log_inv_rep stored_entry_of log_next_def)

text \<open>
  C32: Compaction up to an index removes exactly the entries up to it, moves the start behind it
  and keeps every later entry at its index.
\<close>

theorem compaction_keeps_the_rest:
  assumes "log_inv s" "log_start s \<le> Suc (unat i)" "Suc (unat i) < 2 ^ 64" "Suc (unat i) \<le> log_next s"
  shows "\<exists>t. compact i s = (Inr True, t) \<and> log_inv t \<and> log_start t = Suc (unat i) \<and>
    {j. Suc (unat i) \<le> j} \<subseteq> {j. log_at t j = log_at s j}"
proof -
  obtain t where t: "compact i s = (Inr True, t)" "log_inv t" "log_start t = Suc (unat i)"
    "log_list t = drop (Suc (unat i) - log_start s) (log_list s)"
    using log_inv_compact [OF assms(1-3)] by blast
  have "log_at t j = log_at s j" if "Suc (unat i) \<le> j" for j
    using that assms(2,4) by (auto simp: log_at_def log_next_def t(3,4))
  with t show ?thesis by blast
qed

theorem compaction_keeps_the_rest_witness:
  "\<exists>t. compact 1 (log_rep 1 dummy_entry [entry_of 1 app_log [5], entry_of 2 app_log [6]]) = (Inr True, t) \<and>
     log_at t 2 = Some (entry_of 2 app_log [6])"
proof -
  let ?s = "log_rep 1 dummy_entry [entry_of 1 app_log [5], entry_of 2 app_log [6]]"
  have "\<exists>t. compact 1 ?s = (Inr True, t) \<and> log_inv t \<and> log_start t = Suc (unat (1 :: ulong)) \<and>
      {j. Suc (unat (1 :: ulong)) \<le> j} \<subseteq> {j. log_at t j = log_at ?s j}"
    by (rule compaction_keeps_the_rest) (simp_all add: log_inv_rep stored_entry_of log_next_def)
  moreover have "log_at ?s 2 = Some (entry_of 2 app_log [6])"
    by (simp add: log_at_def log_next_def)
  ultimately show ?thesis by (elim exE conjE) (auto dest: subsetD [of _ _ 2])
qed

section \<open>The wire and the disk formats\<close>

text \<open>
  C33: A request message, serialized by \<open>serialize_req\<close>, cut after its fixed header and read
  back by \<open>deserialize_req\<close>, is the message again, with all of its log entries.
\<close>

theorem request_round_trip:
  assumes "req_ok r"
  shows "rbind (serialize_req r) (\<lambda>b.
           deserialize_req (fresh_buf (take RPC_REQ_HEADER_SIZE (bdata b)))
             (Some (fresh_buf (drop RPC_REQ_HEADER_SIZE (bdata b))))) = Inr r"
  using assms by (simp add: serialize_req_eq deserialize_req_eq)

theorem request_round_trip_witness:
  "\<exists>r. rq_log_entries r \<noteq> [] \<and>
       rbind (serialize_req r) (\<lambda>b.
           deserialize_req (fresh_buf (take RPC_REQ_HEADER_SIZE (bdata b)))
             (Some (fresh_buf (drop RPC_REQ_HEADER_SIZE (bdata b))))) = Inr r"
proof -
  let ?r = "(req_msg_new 3 append_entries_request 1 2 2 7 6)\<lparr>rq_log_entries := [entry_of 3 app_log [1, 2]]\<rparr>"
  have "req_ok ?r"
    by (simp add: req_ok_def req_msg_new_def req_entry_ok_def stored_entry_of req_body_bytes_def
        req_entry_bytes_def RPC_REQ_HEADER_SIZE_def)
  from request_round_trip [OF this] show ?thesis
    by (intro exI [of _ ?r]) simp
qed

text \<open>
  C34: A response with a known message type, serialized and read back, is the response again.
\<close>

theorem response_round_trip:
  assumes "msg_type_ok (rs_type r)"
  shows "\<exists>b. rbind (serialize_resp r) deserialize_resp = Inr (r, b)"
  using assms by (simp add: serialize_resp_eq deserialize_resp_eq)

theorem response_round_trip_witness:
  "\<exists>b. rbind (serialize_resp granted_vote) deserialize_resp = Inr (granted_vote, b)"
  by (rule response_round_trip) (simp add: granted_vote_def accept_def resp_msg_new_def)

text \<open>
  C35: Text is read back as what it was: JSON the library writes is parsed to the value it was
  written from, for values without fractions, with integers of at most nine characters and
  nested within the depth limit, and base64 decodes to the bytes it was encoded from.
\<close>

theorem texts_round_trip:
  assumes "json_ok (Suc max_depth) j"
  shows "json_parse (json_dump dump_double j) = Some j \<and> b64_decode (b64_encode bs) = Inr bs"
  using json_round_trip [OF assms] b64_round_trip by simp

theorem texts_round_trip_witness:
  "json_parse (json_dump (\<lambda>t. t) (JsonObject [(ascii ''a'', JsonArray [JsonInt 7, JsonBoolean True]), (ascii ''b'', JsonString [10, 34, 92])])) =
     Some (JsonObject [(ascii ''a'', JsonArray [JsonInt 7, JsonBoolean True]), (ascii ''b'', JsonString [10, 34, 92])]) \<and>
   b64_decode (b64_encode [1, 2, 3, 4]) = Inr [1, 2, 3, 4]"
proof -
  let ?j = "JsonObject [(ascii ''a'', JsonArray [JsonInt 7, JsonBoolean True]), (ascii ''b'', JsonString [10, 34, 92])]"
  have "json_ok (Suc max_depth) ?j" by code_simp
  from texts_round_trip [OF this, of "\<lambda>t. t" "[1, 2, 3, 4]"] show ?thesis .
qed

text \<open>
  C36: A cluster configuration whose endpoints are proper C strings, serialized and read back, is
  the configuration again with all of its servers in their order.
\<close>

theorem config_round_trip:
  assumes "cluster_config_ok c" "length (cluster_config_bytes c) < 0x80000000"
  shows "\<exists>b. rbind (cluster_config_serialize c) cluster_config_deserialize = Inr (c, b)"
  using cluster_config_codec.ser_dec [OF assms] by blast

theorem config_round_trip_witness:
  "\<exists>b. rbind (cluster_config_serialize three_config) cluster_config_deserialize = Inr (three_config, b)"
  by (rule config_round_trip)
     (simp_all add: cluster_config_ok_def three_config_def cluster_config_new_def cluster_config_bytes_def
       srv_config_ok_def srv_config_bytes_def str_ok_def)

text \<open>
  C37: A piece of a snapshot, serialized by the leader and read by the follower, is the piece
  again: the snapshot with its configuration, the offset, the data and the mark of the last
  piece.
\<close>

theorem snapshot_piece_round_trip:
  assumes "snapshot_ok (sr_snapshot r)" "buf_ok (sr_data r)" "bpos (sr_data r) = 0"
    and "length (snapshot_sync_req_bytes r) < 0x80000000"
  shows "rbind (snapshot_sync_req_serialize r) snapshot_sync_req_deserialize = Inr r"
proof -
  have "sr_data r = fresh_buf (brest (sr_data r))"
    using assms(3) by (simp add: brest_def fresh_buf_def)
  moreover have "length (brest (sr_data r)) < 0x80000000"
    using assms(4) by (simp add: snapshot_sync_req_bytes_def)
  ultimately show ?thesis
    using snapshot_sync_req_serialize_eq [OF assms(4,2)] snapshot_sync_req_deserialize_eq [OF assms(1)]
    by simp
qed

theorem snapshot_piece_round_trip_witness:
  "\<exists>r. sr_done r \<and> bdata (sr_data r) = [7, 8] \<and>
     rbind (snapshot_sync_req_serialize r) snapshot_sync_req_deserialize = Inr r"
proof -
  let ?r = "\<lparr>sr_snapshot = snapshot_new 5 2 three_config 2, sr_offset = 0, sr_data = fresh_buf [7, 8], sr_done = True\<rparr>"
  have "rbind (snapshot_sync_req_serialize ?r) snapshot_sync_req_deserialize = Inr ?r"
    by (rule snapshot_piece_round_trip)
       (simp_all add: snapshot_ok_def snapshot_new_def cluster_config_ok_def three_config_def cluster_config_new_def
         srv_config_ok_def str_ok_def snapshot_sync_req_bytes_def snapshot_bytes_def cluster_config_bytes_def srv_config_bytes_def)
  then show ?thesis by (intro exI [of _ ?r]) (simp add: fresh_buf_def)
qed



section \<open>Calls between servers\<close>

text \<open>
  C9: A call from one server to another is transparent: the request the caller's port encodes,
  encrypts, numbers and sends, delivered to the callee's session in any chunks, is handled
  by the callee's server as the request it was, and the reply written back, given to the
  caller's port under the number of the call, runs the stored callback with the request and
  the callee's response. The request takes 63 bytes and its entries on the wire, the reply 44.
\<close>

theorem remote_call:
  assumes "ctr_cipher (lb_cipher lib)" "rand_ok caller" "rand_ok callee" "req_ok req"
    and "on_server lib (process_req now req) callee = (Inr resp, callee')" "msg_type_ok (rs_type resp)"
    and "ids_ok callee" "en_id_counter callee \<noteq> - 1" "map_sorted (en_callback_pool caller)"
    and "ac_is_open c" "map_sorted (ac_req_map c)"
  shows "\<exists>message caller' c' reply callee''.
    client_send lib client req when_done caller = (Inr (), caller') \<and>
    en_out caller' = en_out caller @ [Send_rpc_request client message (en_last_req_uid caller + 1)] \<and>
    length message = 63 + length (req_body_bytes req) \<and>
    asio_send True (en_last_req_uid caller + 1) message c = Inr c' \<and> wire c' = wire c @ frame message \<and>
    (\<forall>chunks. concat chunks = frame message \<longrightarrow>
       session_view (fold (receive (enclave_handler lib now answer)) chunks (session_new callee)) =
         (frame reply, Some [], callee'')) \<and>
    length reply = 44 \<and> en_server callee'' = en_server callee' \<and>
    ecall_rpc_response lib now' (en_last_req_uid caller + 1) reply None caller' =
      run_callback lib now' req when_done resp
        (caller'\<lparr>en_callback_pool := map_erase (ucast (en_last_req_uid caller + 1)) (en_callback_pool caller')\<rparr>)"
proof -
  obtain message caller' reply callee'' where call:
    "client_send lib client req when_done caller = (Inr (), caller')"
    "en_out caller' = en_out caller @ [Send_rpc_request client message (en_last_req_uid caller + 1)]"
    "length message = 63 + length (req_body_bytes req)"
    "\<And>chunks. concat chunks = frame message \<Longrightarrow>
       session_view (fold (receive (enclave_handler lib now answer)) chunks (session_new callee)) =
         (frame reply, Some [], callee'')"
    "length reply = 44" "en_server callee'' = en_server callee'"
    "\<And>now'. ecall_rpc_response lib now' (en_last_req_uid caller + 1) reply None caller' =
       run_callback lib now' req when_done resp
         (caller'\<lparr>en_callback_pool := map_erase (ucast (en_last_req_uid caller + 1)) (en_callback_pool caller')\<rparr>)"
    using remote_call_run [OF assms(1-9)] by metis
  moreover have "length message < 2 ^ 32"
    using call(3) assms(4) by (simp add: req_ok_def RPC_REQ_HEADER_SIZE_def)
  then obtain c' where "asio_send True (en_last_req_uid caller + 1) message c = Inr c'" "wire c' = wire c @ frame message"
    by (rule asio_send_wire [OF assms(10,11)])
  ultimately show ?thesis by blast
qed

theorem remote_call_witness:
  "\<exists>message caller' reply callee''.
     client_send demo_lib 1 vote_ballot (Peer_callback 0 Resp_handler) (demo_enclave (Some (new_server 1))) = (Inr (), caller') \<and>
     length message = 63 \<and>
     session_view (fold (receive (enclave_handler demo_lib 0 False)) [frame message]
       (session_new (demo_enclave (Some (new_server 2))))) = (frame reply, Some [], callee'') \<and>
     ecall_rpc_response demo_lib 0 1 reply None caller' =
       run_callback demo_lib 0 vote_ballot (Peer_callback 0 Resp_handler) granted_vote
         (caller'\<lparr>en_callback_pool := map_erase 1 (en_callback_pool caller')\<rparr>)"
proof -
  let ?caller = "demo_enclave (Some (new_server 1))" and ?callee = "demo_enclave (Some (new_server 2))"
    and ?c = "(asio_rpc_client_new [] [] 1)\<lparr>ac_is_open := True\<rparr>"
  obtain callee' where vote: "on_server demo_lib (process_req 0 vote_ballot) ?callee = (Inr granted_vote, callee')"
    using demo_vote by blast
  have req: "req_ok vote_ballot" "req_body_bytes vote_ballot = []"
    by (simp_all add: req_ok_def vote_ballot_def req_msg_new_def req_body_bytes_def RPC_REQ_HEADER_SIZE_def)
  have "ctr_cipher (lb_cipher demo_lib)" by (simp add: demo_lib_def xor_cipher_ctr)
  moreover have "rand_ok ?caller" "rand_ok ?callee" "ids_ok ?callee"
    "en_id_counter ?callee \<noteq> - 1" "map_sorted (en_callback_pool ?caller)"
    by (simp_all add: demo_enclave_def rand_ok_def S_BLOCK_SIZE_def ids_ok_def map_sorted_def)
  moreover have "msg_type_ok (rs_type granted_vote)"
    by (simp add: granted_vote_def accept_def resp_msg_new_def)
  moreover have "ac_is_open ?c" "map_sorted (ac_req_map ?c)"
    by (simp_all add: asio_rpc_client_new_def map_sorted_def)
  moreover have "en_last_req_uid ?caller = 0" by (simp add: demo_enclave_def)
  ultimately obtain message caller' reply callee'' where call:
    "client_send demo_lib 1 vote_ballot (Peer_callback 0 Resp_handler) ?caller = (Inr (), caller')"
    "length message = 63"
    "\<forall>chunks. concat chunks = frame message \<longrightarrow>
       session_view (fold (receive (enclave_handler demo_lib 0 False)) chunks (session_new ?callee)) =
         (frame reply, Some [], callee'')"
    "ecall_rpc_response demo_lib 0 1 reply None caller' =
       run_callback demo_lib 0 vote_ballot (Peer_callback 0 Resp_handler) granted_vote
         (caller'\<lparr>en_callback_pool := map_erase 1 (en_callback_pool caller')\<rparr>)"
    using remote_call [of demo_lib ?caller ?callee vote_ballot 0 granted_vote callee' ?c 1
        "Peer_callback 0 Resp_handler" False 0] vote req by auto
  moreover have "session_view (fold (receive (enclave_handler demo_lib 0 False)) [frame message] (session_new ?callee)) =
      (frame reply, Some [], callee'')"
    using call(3) [rule_format, of "[frame message]"] by simp
  ultimately show ?thesis by blast
qed

section \<open>Sessions\<close>

text \<open>
  C16: How a TCP stream is cut into chunks makes no difference to a session: what it has written,
  what it still holds and the state of the request handler are those of the handler called
  on the complete requests of the stream, one after the other.
\<close>

theorem session_any_chunks:
  "session_view (fold (receive h) chunks (session_new env)) = serve h (concat chunks) env"
  by (rule receive_chunks)

text \<open>
  C17: A client and a server's session fit together: the request the client writes, cut into any
  chunks on its way, makes the session handle it once and write one framed response, and the
  response the enclave writes, in any chunks of which the first has the header, leaves the
  client with exactly the result in it, ready for the next request.
\<close>

theorem client_exchange:
  fixes dump_double double_to_int lib type b
  defines "L \<equiv> linked dump_double double_to_int lib"
  defines "response \<equiv> client_response L type b"
  assumes "so_status s = AVAILABLE" "so_req_sbuf s = []" "so_resp_sbuf s = []"
    and "length request < 2 ^ 32" "h request env = (Some response, env')"
    and "concat there = frame request" "4 \<le> length back" "back @ concat backs = frame response"
  shows "session_view (fold (receive h) there (session_new env)) = (frame response, Some [], env') \<and>
    exchange L request (back # backs) s =
      (Inr (), s\<lparr>so_size := of_nat (length response), so_written := so_written s @ frame request,
                 so_pending := Nothing_pending, so_results := so_results s @ [b]\<rparr>)"
proof -
  have "length response < 2 ^ 32" "rb_deserialize L response = Inr b"
    unfolding L_def response_def
    by (simp add: linked_response_text type_bytes_def ascii_def, rule linked_response)
  moreover have "serve h (concat (map frame [request])) env = (concat (map frame [response]), Some [], env')"
    using assms(6,7) by (intro serve_frames) simp_all
  ultimately show ?thesis
    using exchange_run [OF assms(3-6) _ assms(9,10), of L b] assms(8) by (simp add: receive_chunks)
qed

theorem client_exchange_witness:
  "session_view (fold (receive (\<lambda>m n. (Some (client_response linked_lib client_append_entries_resp True), n + 1)))
       [[2, 0], [0, 0, 65], [66]] (session_new (0 :: nat))) =
     ([16, 0, 0, 0, 6, 0, 123, 34] @ ascii ''success'' @ [34, 58, 32, 49, 125], Some [], 1) \<and>
   so_results (snd (exchange linked_lib [65, 66]
       [[16, 0, 0, 0, 6], [0, 123, 34] @ ascii ''success'', [34, 58, 32, 49, 125]] (snd (socket_client_new No_error)))) = [True]"
proof -
  have resp: "client_response linked_lib client_append_entries_resp True =
      [6, 0, 123, 34] @ ascii ''success'' @ [34, 58, 32, 49, 125]"
    by (simp add: linked_lib_def linked_response_text type_bytes_def)
  have frames: "frame [65, 66] = [2, 0, 0, 0, 65, 66]"
    "frame ([6, 0, 123, 34] @ ascii ''success'' @ [34, 58, 32, 49, 125]) =
       [16, 0, 0, 0, 6, 0, 123, 34] @ ascii ''success'' @ [34, 58, 32, 49, 125]" by code_simp+
  show ?thesis
    using client_exchange [of "snd (socket_client_new No_error)" "[65, 66]"
        "\<lambda>m n. (Some (client_response linked_lib client_append_entries_resp True), n + 1)" "0 :: nat"
        "\<lambda>t. t" "\<lambda>_. 0" demo_lib client_append_entries_resp True 1 "[[2, 0], [0, 0, 65], [66]]" "[16, 0, 0, 0, 6]"
        "[[0, 123, 34] @ ascii ''success'', [34, 58, 32, 49, 125]]", folded linked_lib_def] resp frames
    by (simp add: socket_client_new_def run_simps del: append_Cons)
qed



section \<open>Attestation\<close>



text \<open>
  C12: The report an enclave sends to others as its own is always one that it has verified, over the
  public key of its own key pair, and the key pair never changes.
\<close>

theorem own_report_is_verified:
  assumes "en_key_store e = None" "en_key_store (run_ecalls lib cs e) = Some ks" "ks_self_report ks \<noteq> []"
  shows "(\<exists>quote. validate_verification_report lib (ks_self_report ks) = Inr (Some quote) \<and>
      report_data quote = Inr (ks_public ks)) \<and>
    (\<forall>cs'. \<exists>ks'. en_key_store (run_ecalls lib cs' (run_ecalls lib cs e)) = Some ks' \<and>
      ks_public ks' = ks_public ks \<and> ks_private ks' = ks_private ks)"
  using own.run_ecalls_R [of lib e cs] own.run_ecalls_R [of lib "run_ecalls lib cs e"] assms
  by (auto simp: own_order_def own_ok_def report_over_def)

theorem own_report_is_verified_witness:
  "\<exists>quote. validate_verification_report demo_lib demo_packet = Inr (Some quote) \<and> report_data quote = Inr demo_key"
proof -
  let ?e = "demo_enclave (Some (new_server 1))"
  obtain ks where "en_key_store (run_ecalls demo_lib key_calls ?e) = Some ks" "ks_public ks = demo_key"
    "ks_self_report ks = demo_packet"
    using keys_exchanged by blast
  moreover have "en_key_store ?e = None" by (simp add: demo_enclave_def)
  ultimately show ?thesis
    using own_report_is_verified [of ?e demo_lib key_calls ks] demo_packet_nonempty by auto
qed

text \<open>
  C13: A process that serves is attested: when the start of the host program ends with the server
  running, the enclave holds an accepted report over its own key, and the server in it has
  the number of the command line and the endpoint that belongs to it as its only member.
\<close>

theorem serving_is_attested:
  assumes "raft_app_main lib su args rand e = (Inr (Serving l n), e')"
  shows "\<exists>srv_id sv ks quote. parse_srv_id args = Some srv_id \<and> en_server e' = Some sv \<and> sv_id sv = ucast srv_id \<and>
    cc_servers (sv_config sv) = [\<lparr>sc_id = ucast srv_id, sc_endpoint = own_endpoint srv_id\<rparr>] \<and>
    en_key_store e' = Some ks \<and> validate_verification_report lib (ks_self_report ks) = Inr (Some quote) \<and>
    report_data quote = Inr (ks_public ks)"
  using serving_attested [OF assms] unfolding report_over_def by metis

theorem serving_is_attested_witness:
  "\<exists>e' sv. raft_app_main demo_lib demo_surroundings [] (\<lambda>_. 300) (demo_enclave None) =
       (Inr (Serving (listen listener_new) 3), e') \<and> en_server e' = Some sv \<and> sv_id sv = 1"
proof -
  obtain e' where run: "raft_app_main demo_lib demo_surroundings [] (\<lambda>_. 300) (demo_enclave None) =
      (Inr (Serving (listen listener_new) 3), e')"
    using demo_started by blast
  from serving_is_attested [OF this] show ?thesis using run by (auto simp: parse_srv_id_def)
qed





text \<open>
  C40: The response of the attestation service is read whole, however the stream brings it in
  chunks: header, empty line and a body of the announced length.
\<close>

theorem ias_response_any_chunks:
  assumes "concat chunks = head @ double_delimiter @ body"
    and "strstr (head @ [13, 10, 13]) double_delimiter = None" "0 \<notin> set head"
    and "strstr head (ascii ''Content-Length'') = Some (ascii ''Content-Length: '' @ decimal (length body) @ 13 # rest)"
    and "length head + 4 + length body < 2 ^ 64"
  shows "ssl_response chunks = Inr (head @ double_delimiter @ body)"
  using assms by (rule ssl_response_whole)

theorem ias_response_any_chunks_witness:
  "ssl_response [ascii ''Content-Leng'', ascii ''th: 2'' @ [13, 10, 65, 13, 10, 13], [10, 123], [125]] =
     Inr (ascii ''Content-Length: 2'' @ [13, 10, 65, 13, 10, 13, 10, 123, 125])"
proof -
  have "decimal (Suc (Suc 0)) = [50]" by (simp add: decimal.simps)
  then show ?thesis
    using ias_response_any_chunks [of "[ascii ''Content-Leng'', ascii ''th: 2'' @ [13, 10, 65, 13, 10, 13], [10, 123], [125]]"
        "ascii ''Content-Length: 2'' @ [13, 10, 65]" "[123, 125]" "[10, 65]"]
    by (simp add: ascii_def double_delimiter_def)
qed

section \<open>Clients' logs and failed calls\<close>

text \<open>
  C10: A log a client sends reaches the log of the leader: the request the client program builds,
  in base64 and JSON, handled by the enclave of a leader that has heard from a quorum, appends
  one entry with the leader's term and the bytes of the client's log, padded with eight zeros.
\<close>

theorem client_log_is_appended:
  assumes "length log + 8 < 2 ^ 31" "log \<noteq> []" "hd log \<noteq> 0"
    and "en_server e = Some sv" "log_inv (sv_log_store sv)" "sv_role sv = leader"
    and "sv_leader sv = sv_id sv" "sv_id sv \<noteq> - 1" "fst (leader_expired now sv) = Inr False"
    and "log_next (sv_log_store sv) + 1 < 2 ^ 64"
  shows "\<exists>sv'. en_server (snd (ecall_handle_rpc_request (linked dump_double double_to_int lib) now answer
      (rb_append_entries b64_encode (dump_strings dump_double) log) e)) = Some sv' \<and> log_inv (sv_log_store sv') \<and>
    log_list (sv_log_store sv') =
      log_list (sv_log_store sv) @ [log_entry_new (sv_term sv) (fresh_buf (log @ replicate 8 0)) app_log]"
  using client_log_appended [of "linked dump_double double_to_int lib" "dump_strings dump_double" b64_encode log e sv now,
      OF linked_items linked_base64 assms, of answer] by metis

theorem client_log_is_appended_witness:
  "\<exists>sv'. en_server (snd (ecall_handle_rpc_request linked_lib 0 False
       (rb_append_entries b64_encode (dump_strings (\<lambda>t. t)) [65])
       (demo_enclave (Some ((new_server 1)\<lparr>sv_role := leader, sv_leader := 1\<rparr>))))) = Some sv' \<and>
     log_list (sv_log_store sv') = [log_entry_new 0 (fresh_buf [65, 0, 0, 0, 0, 0, 0, 0, 0]) app_log]"
proof -
  let ?sv = "(new_server 1)\<lparr>sv_role := leader, sv_leader := 1\<rparr>"
  have log: "sv_log_store ?sv = log_rep 1 dummy_entry []"
    by (simp add: start_defs run_simps log_rep_def)
  have "fst (leader_expired 0 ?sv) = Inr False"
    by (simp add: leader_expired_def quorum_elapsed_def start_defs run_simps)
  moreover have "replicate 8 0 = [0, 0, 0, 0, 0, 0, 0, 0 :: byte]" by code_simp
  ultimately show ?thesis
    using client_log_is_appended [of "[65]" "demo_enclave (Some ?sv)" ?sv 0 "\<lambda>t. t" "\<lambda>_. 0" demo_lib False] log
    by (auto simp: demo_enclave_def log_inv_rep log_next_def new_server_start linked_lib_def)
qed

text \<open>
  C20: A call that failed outside blocks the peer it was made for: after the host has reported the
  failure the peer is still busy, and however often its heartbeat timer expires afterwards,
  no message is sent to it and the server does not change.
\<close>

theorem failed_call_blocks_peer:
  assumes "en_server e = Some sv" "sv_outbox sv = []" "get_peer u sv = (Inr p, sv)" "pr_busy p"
  shows "\<exists>out. run_ecalls lib (Rpc_response now uid msg (Some reason) # replicate n (Heartbeat_timer u)) e =
      e\<lparr>en_out := en_out e @ out\<rparr> \<and> list_all no_message out"
  using failed_call_run [OF assms] by metis

theorem failed_call_blocks_peer_witness:
  "\<exists>out. run_ecalls demo_lib (Rpc_response 0 1 [] (Some [101]) # replicate 5 (Heartbeat_timer 0)) busy_enclave =
      busy_enclave\<lparr>en_out := out\<rparr> \<and> list_all no_message out"
proof -
  let ?sv = "elected_server\<lparr>sv_outbox := []\<rparr>"
  obtain p where "get_peer 0 ?sv = (Inr p, ?sv)" "pr_busy p" using busy_peer by blast
  moreover have "en_server busy_enclave = Some ?sv" "en_out busy_enclave = []"
    by (simp_all add: busy_enclave_def demo_enclave_def)
  ultimately show ?thesis
    using failed_call_blocks_peer [of busy_enclave ?sv 0 p demo_lib 0 1 "[]" "[101]" 5] by simp
qed

section \<open>Delayed work\<close>

text \<open>
  C23: A task that was cancelled does not run, whatever expires, is cancelled or is scheduled
  afterwards, until it is scheduled again itself.
\<close>

theorem cancelled_task_does_not_run:
  assumes "list_all (\<lambda>e. \<not> schedules t e) es"
  shows "count_list (sp_executed (fold run_timer es (cancel t s))) t = count_list (sp_executed s) t"
  using not_executed [OF cancel_cancels(1) assms, of s] cancel_cancels(2) [of t s] by simp

theorem cancelled_task_does_not_run_witness:
  "count_list (sp_executed (fold run_timer [Wait_ends 0, Wait_ends 0] (cancel 0 (schedule 1 5 (schedule 0 5 (service_new (\<lambda>_. True))))))) 0 = 0"
  using cancelled_task_does_not_run [of 0 "[Wait_ends 0, Wait_ends 0]" "schedule 1 5 (schedule 0 5 (service_new (\<lambda>_. True)))"]
  by (simp add: schedule_def service_new_def timer_task_new_def set_impl_context_def upd_task_def task_reset_def
      ocall_schedule_delayed_task_def Let_def)

text \<open>
  C22: From a new scheduler, no task runs more often than it was scheduled, for every order of
  scheduling, cancelling and expiry, as long as the 64-bit numbers of tasks last.
\<close>

theorem task_runs_at_most_as_scheduled:
  assumes "length es < 2 ^ 64"
  shows "count_list (sp_executed (fold run_timer es (service_new has_function))) t \<le> length (filter (schedules t) es)"
proof -
  have "sp_last_task_uid (service_new has_function) = 0" "sp_executed (service_new has_function) = []"
    by (simp_all add: service_new_def)
  then show ?thesis
    using timers_run [OF timers_ok_new(1), of has_function es t] assms by (simp add: timers_ok_new(2))
qed

theorem task_runs_at_most_as_scheduled_witness:
  "count_list (sp_executed (fold run_timer [Schedule 0 5, Schedule 0 5, Wait_ends 0, Wait_ends 0] (service_new (\<lambda>_. True)))) 0 \<le> 2"
  using task_runs_at_most_as_scheduled [of "[Schedule 0 5, Schedule 0 5, Wait_ends 0, Wait_ends 0]" "\<lambda>_. True" 0]
  by (simp del: run_timer.simps)

text \<open>
  C24: In every interleaving of the thread that awaits a result with the one that sets it, the
  handler is called, once or twice, and only with the result.
\<close>

theorem handler_is_called:
  assumes "steps \<in> shuffles (when_ready h) (set_result r err)"
  shows "as_calls (fold run_locked steps (async_new junk)) \<in> {[(h, r, err)], [(h, r, err), (h, r, err)]}"
  using assms by (rule handler_called)

theorem handler_is_called_witness:
  "as_calls (fold run_locked [Store_handler (7 :: nat), Store_result True None, Call_if_result, Call_copied] (async_new False)) =
     [(7, True, None), (7, True, None)]"
  using handler_is_called [of "[Store_handler (7 :: nat), Store_result True None, Call_if_result, Call_copied]" 7 True None False]
  by (simp add: when_ready_def set_result_def shuffles_two async_new_def call_handler_def)

section \<open>Connections\<close>



text \<open>
  C21: A connection the other side has closed keeps the thread that reads the size of the response
  in its loop: the request is never reported.
\<close>

theorem closed_connection_is_never_reported:
  assumes "\<And>n. reads n = Eof" "\<not> ac_is_open c" "map_sorted (ac_req_map c)"
  shows "run_request True True True True reads body uid message c = None"
  using assms read_size_closed [of reads 0]
  by (simp add: run_request_def asio_send_def query_def resolved_def connected_def send_message_def
      request_sent_def recv_message_def act_def find_map_put Let_def)

theorem closed_connection_is_never_reported_witness:
  "run_request True True True True (\<lambda>_. Eof) (Done []) 3 [65] (asio_rpc_client_new [] [] 1) = None"
  by (rule closed_connection_is_never_reported) (simp_all add: asio_rpc_client_new_def map_sorted_def)

section \<open>The layout of buffers\<close>

text \<open>
  C39: The two-word headers of small and big blocks implement the buffer: allocation gives a block
  with the size asked for and position 0, and setting the position, moving it forward and
  writing through the data pointer, inside the block, do to the words and bytes what the
  operations of the buffer do to its fields.
\<close>

theorem block_layout_refines:
  assumes "\<And>n. length (new_char n) = n" "sz < 0x80000000"
    and "block_ok p" "n \<le> size_of_block p" "pos_of_block p + d \<le> size_of_block p"
    and "pos_of_block p + length bs \<le> size_of_block p"
  shows "(\<exists>q. block_alloc new_char sz = Inr q \<and> block_ok q \<and> bsize (block_buffer q) = sz \<and> bpos (block_buffer q) = 0) \<and>
    block_ok (set_block_pos n p) \<and> block_buffer (set_block_pos n p) = set_pos n (block_buffer p) \<and>
    block_ok (mv_fw_block d p) \<and> block_buffer (mv_fw_block d p) = advance d (block_buffer p) \<and>
    block_ok (write_block bs p) \<and> block_buffer (write_block bs p) = write_bytes bs (block_buffer p) \<and>
    bsize (block_buffer p) = size_of_block p \<and> brest (block_buffer p) = data_of_block p"
proof -
  have "\<exists>q. block_alloc new_char sz = Inr q \<and> block_ok q \<and> bsize (block_buffer q) = sz \<and> bpos (block_buffer q) = 0"
    by (rule block_alloc_ok [OF assms(1,2)]) (auto simp: block_size, simp add: block_buffer_def)
  then show ?thesis
    using block_set_pos [OF assms(3,4)] block_advance [OF assms(3,5)] block_write [OF assms(3,6)]
      block_size [OF assms(3)] block_data [OF assms(3)] assms(4)
    by (simp add: set_pos_def)
qed

theorem block_layout_refines_witness:
  "\<exists>p. block_alloc (\<lambda>n. replicate n 0) 3 = Inr p \<and> block_buffer (mv_fw_block 2 p) = \<lparr>bdata = [0, 0, 0], bpos = 2\<rparr>"
proof -
  let ?p = "small_block 3 0 [0, 0, 0]"
  have p: "block_ok ?p" "pos_of_block ?p = 0" "size_of_block ?p = 3" "block_buffer ?p = \<lparr>bdata = [0, 0, 0], bpos = 0\<rparr>"
    by (simp_all add: small_parts)
  have "replicate 7 0 = small_block 0 0 [0, 0, 0]"
    by (simp add: small_block_def ushort_bytes_def numeral_eq_Suc)
  then have "block_alloc (\<lambda>n. replicate n 0) 3 = Inr ?p"
    by (simp add: block_alloc_def init_s_block_def)
  then show ?thesis
    using block_layout_refines [of "\<lambda>n. replicate n 0" 3 ?p 0 2 "[]"] p by (simp add: advance_def)
qed

end
